(* ===== verification/Prelude.thy ===== *)
theory Prelude
  imports Main "HOL-Library.Word" "HOL-Library.Char_ord" "HOL-Library.List_Lexorder"
begin

text \<open>
  Shared vocabulary of the development: the collections of rewrite rules the component
  proofs use, the machine-integer types, the exceptions of the C++ code, the outcome of a
  member function that may throw (the object keeps the writes made before the throw), and
  generic lemmas on lists, options and association lists.
\<close>

named_theorems frame_simps \<open>what an operation leaves unchanged\<close>
named_theorems trace_simps \<open>what an operation appends to the trace of external events\<close>
named_theorems model_defs \<open>definitions of the small helpers, unfolded together\<close>

section \<open>Machine integers\<close>

type_synonym u16 = "16 word"
type_synonym u32 = "32 word"
type_synonym u64 = "64 word"

text \<open>Signed 32 and 64 bit integers are read with \<^term>\<open>sint\<close>.\<close>

type_synonym i32 = "32 word"
type_synonym i64 = "64 word"

section \<open>Exceptions and outcomes\<close>

text \<open>
  Besides the exceptions of the C++ code: undefined behaviour, with the expression that causes it,
  and the end of the fuel of a recursion the sources do not bound.
\<close>

datatype exn =
    InvalidArgument string
  | OutOfRange string
  | BadOptionalAccess
  | JsonParseError
  | JsonTypeError
  | FilesystemError string
  | ErsIssue string
  | ProgramExit int
  | UndefinedBehaviour string
  | FuelExhausted

datatype 'a outcome = Ret 'a | Raise exn

text \<open>A member function that may throw: it returns its outcome and the state it leaves.\<close>

type_synonym ('s, 'a) action = "'s \<Rightarrow> 'a outcome \<times> 's"

definition return :: "'a \<Rightarrow> ('s, 'a) action" where
  "return x s = (Ret x, s)"

definition throw :: "exn \<Rightarrow> ('s, 'a) action" where
  "throw e s = (Raise e, s)"

definition bind :: "('s, 'a) action \<Rightarrow> ('a \<Rightarrow> ('s, 'b) action) \<Rightarrow> ('s, 'b) action" where
  "bind f g s = (case f s of (Ret x, s') \<Rightarrow> g x s' | (Raise e, s') \<Rightarrow> (Raise e, s'))"

definition seq :: "('s, 'a) action \<Rightarrow> ('s, 'b) action \<Rightarrow> ('s, 'b) action" where
  "seq f g = bind f (\<lambda>_. g)"

definition reads :: "('s \<Rightarrow> 'a) \<Rightarrow> ('s, 'a) action" where
  "reads f s = (Ret (f s), s)"

definition modifies :: "('s \<Rightarrow> 's) \<Rightarrow> ('s, unit) action" where
  "modifies f s = (Ret (), f s)"

text \<open>Running an action on a component of the state, given by its getter and its setter.\<close>

definition focus :: "('s \<Rightarrow> 't) \<Rightarrow> ('t \<Rightarrow> 's \<Rightarrow> 's) \<Rightarrow> ('t, 'a) action \<Rightarrow> ('s, 'a) action" where
  "focus g p f s = (case f (g s) of (r, t) \<Rightarrow> (r, p t s))"

text \<open>The bodies of loops over a container: plain, and the two ways of accumulating a flag.\<close>

fun for_each :: "('a \<Rightarrow> ('s, unit) action) \<Rightarrow> 'a list \<Rightarrow> ('s, unit) action" where
  "for_each f [] = return ()"
| "for_each f (x # xs) = seq (f x) (for_each f xs)"

text \<open>\<open>result = result && f(x)\<close>: the calls stop at the first false result.\<close>

fun and_loop :: "('a \<Rightarrow> ('s, bool) action) \<Rightarrow> bool \<Rightarrow> 'a list \<Rightarrow> ('s, bool) action" where
  "and_loop f b [] = return b"
| "and_loop f b (x # xs) = bind (if b then f x else return False) (\<lambda>b'. and_loop f b' xs)"

text \<open>\<open>result &= f(x)\<close>: every call is made.\<close>

fun and_all_loop :: "('a \<Rightarrow> ('s, bool) action) \<Rightarrow> bool \<Rightarrow> 'a list \<Rightarrow> ('s, bool) action" where
  "and_all_loop f b [] = return b"
| "and_all_loop f b (x # xs) = bind (f x) (\<lambda>r. and_all_loop f (b \<and> r) xs)"

text \<open>Results of functions that compute a fresh value and may throw.\<close>

fun rbind :: "exn + 'a \<Rightarrow> ('a \<Rightarrow> exn + 'b) \<Rightarrow> exn + 'b" where
  "rbind (Inl e) f = Inl e"
| "rbind (Inr x) f = f x"

fun of_result :: "exn + 'a \<Rightarrow> ('s, 'a) action" where
  "of_result (Inl e) = throw e"
| "of_result (Inr x) = return x"

fun of_outcome :: "'a outcome \<Rightarrow> ('s, 'a) action" where
  "of_outcome (Raise e) = throw e"
| "of_outcome (Ret x) = return x"

lemma rbind_eq_Inr: "rbind x f = Inr y \<longleftrightarrow> (\<exists>a. x = Inr a \<and> f a = Inr y)"
  by (cases x) auto

lemma run_return [simp]: "return x s = (Ret x, s)"
  by (simp add: return_def)

lemma run_throw [simp]: "throw e s = (Raise e, s)"
  by (simp add: throw_def)

lemma run_reads [simp]: "reads f s = (Ret (f s), s)"
  by (simp add: reads_def)

lemma run_modifies [simp]: "modifies f s = (Ret (), f s)"
  by (simp add: modifies_def)

lemma run_bind:
  "bind f g s = (case fst (f s) of Ret x \<Rightarrow> g x (snd (f s)) | Raise e \<Rightarrow> (Raise e, snd (f s)))"
  by (auto simp: bind_def split: prod.splits outcome.splits)

lemma bind_Ret [simp]: "f s = (Ret x, s') \<Longrightarrow> bind f g s = g x s'"
  by (simp add: bind_def)

lemma bind_Raise [simp]: "f s = (Raise e, s') \<Longrightarrow> bind f g s = (Raise e, s')"
  by (simp add: bind_def)

lemma seq_Ret [simp]: "f s = (Ret x, s') \<Longrightarrow> seq f g s = g s'"
  by (simp add: seq_def)

lemma seq_Raise [simp]: "f s = (Raise e, s') \<Longrightarrow> seq f g s = (Raise e, s')"
  by (simp add: seq_def)

text \<open>For boolean results the simplifier needs the value in the rule.\<close>

lemma bind_Ret_False [simp]: "f s = (Ret False, s') \<Longrightarrow> bind f g s = g False s'"
  by simp

lemma seq_Ret_False [simp]: "f s = (Ret False, s') \<Longrightarrow> seq f g s = g s'"
  by (simp add: seq_def)

lemma run_focus [simp]: "f (g s) = (r, t) \<Longrightarrow> focus g p f s = (r, p t s)"
  by (simp add: focus_def)

lemma bind_eq_Ret:
  "bind f g s = (Ret y, s') \<longleftrightarrow> (\<exists>x s1. f s = (Ret x, s1) \<and> g x s1 = (Ret y, s'))"
  by (auto simp: bind_def split: prod.splits outcome.splits)

lemma of_result_eq_Ret: "of_result x s = (Ret y, s') \<longleftrightarrow> x = Inr y \<and> s' = s"
  by (cases x) auto

lemma of_outcome_eq_Ret: "of_outcome x s = (Ret y, s') \<longleftrightarrow> x = Ret y \<and> s' = s"
  by (cases x) auto

lemma seq_eq_Ret:
  "seq f g s = (Ret y, s') \<longleftrightarrow> (\<exists>x s1. f s = (Ret x, s1) \<and> g s1 = (Ret y, s'))"
  by (simp add: seq_def bind_eq_Ret)

lemma for_each_Cons_single: "for_each g (x # xs) = seq (for_each g [x]) (for_each g xs)"
  by (rule ext) (simp add: seq_def run_bind split: outcome.split)

lemma bind_return_left [simp]: "bind (return x) g = g x"
  by (rule ext) simp

lemma bind_throw [simp]: "bind (throw e) g = throw e"
  by (rule ext) simp

lemma bind_assoc: "bind (bind f g) h = bind f (\<lambda>x. bind (g x) h)"
  by (rule ext) (simp add: bind_def split: prod.splits outcome.splits)

lemma and_loop_False [simp]: "and_loop f False xs = return False"
  by (induction xs) simp_all

section \<open>What an action keeps\<close>

text \<open>
  \<open>keeps R f\<close>: however \<open>f\<close> ends, by returning or by throwing, the state it leaves is related
  to the one it started from. For a preorder the rules below follow the structure of a body.
\<close>

definition keeps :: "('s \<Rightarrow> 's \<Rightarrow> bool) \<Rightarrow> ('s, 'a) action \<Rightarrow> bool" where
  "keeps R f \<longleftrightarrow> (\<forall>s. R s (snd (f s)))"

lemma keepsI [intro?]: "(\<And>s. R s (snd (f s))) \<Longrightarrow> keeps R f"
  by (simp add: keeps_def)

lemma keepsD: "keeps R f \<Longrightarrow> R s (snd (f s))"
  by (simp add: keeps_def)

lemma keeps_run: "keeps R f \<Longrightarrow> f s = (r, s') \<Longrightarrow> R s s'"
  using keepsD[of R f s] by simp

locale frame_order =
  fixes R :: "'s \<Rightarrow> 's \<Rightarrow> bool"
  assumes frame_refl: "R s s"
    and frame_trans: "R s t \<Longrightarrow> R t u \<Longrightarrow> R s u"
begin

lemma keeps_return: "keeps R (return x)"
  by (simp add: keeps_def frame_refl)

lemma keeps_throw: "keeps R (throw e)"
  by (simp add: keeps_def frame_refl)

lemma keeps_reads: "keeps R (reads f)"
  by (simp add: keeps_def frame_refl)

lemma keeps_of_result: "keeps R (of_result x)"
  by (cases x) (simp_all add: keeps_return keeps_throw)

lemma keeps_of_outcome: "keeps R (of_outcome x)"
  by (cases x) (simp_all add: keeps_return keeps_throw)

lemma keeps_bind:
  assumes "keeps R f" "\<And>x. keeps R (g x)"
  shows "keeps R (bind f g)"
proof
  fix s
  have "R s (snd (f s))" using assms(1) by (rule keepsD)
  then show "R s (snd (bind f g s))"
    using assms(2) frame_trans by (auto simp: run_bind keeps_def split: outcome.splits)
qed

lemma keeps_seq: "keeps R f \<Longrightarrow> keeps R g \<Longrightarrow> keeps R (seq f g)"
  by (simp add: seq_def keeps_bind)

lemma keeps_if: "(b \<Longrightarrow> keeps R f) \<Longrightarrow> (\<not> b \<Longrightarrow> keeps R g) \<Longrightarrow> keeps R (if b then f else g)"
  by simp

lemma keeps_for_each: "(\<And>x. x \<in> set xs \<Longrightarrow> keeps R (f x)) \<Longrightarrow> keeps R (for_each f xs)"
  by (induction xs) (simp_all add: keeps_return keeps_seq)

lemma keeps_and_loop: "(\<And>x. x \<in> set xs \<Longrightarrow> keeps R (f x)) \<Longrightarrow> keeps R (and_loop f b xs)"
  by (induction xs arbitrary: b) (simp_all add: keeps_return keeps_bind)

lemma keeps_and_all_loop: "(\<And>x. x \<in> set xs \<Longrightarrow> keeps R (f x)) \<Longrightarrow> keeps R (and_all_loop f b xs)"
  by (induction xs arbitrary: b) (simp_all add: keeps_return keeps_bind)

lemmas frame_rules =
  keeps_return keeps_throw keeps_reads keeps_of_result keeps_of_outcome keeps_bind keeps_seq
  keeps_if keeps_for_each keeps_and_loop keeps_and_all_loop

end

section \<open>Lists, options and association lists\<close>

lemma takeWhile_neq_append:
  "c \<notin> set xs \<Longrightarrow> takeWhile (\<lambda>x. x \<noteq> c) (xs @ c # ys) = xs"
  by (induction xs) auto

lemma dropWhile_neq_append:
  "c \<notin> set xs \<Longrightarrow> dropWhile (\<lambda>x. x \<noteq> c) (xs @ c # ys) = c # ys"
  by (induction xs) auto

lemma takeWhile_neq_id: "c \<notin> set xs \<Longrightarrow> takeWhile (\<lambda>x. x \<noteq> c) xs = xs"
  by (induction xs) auto

lemma dropWhile_neq_Nil: "c \<notin> set xs \<Longrightarrow> dropWhile (\<lambda>x. x \<noteq> c) xs = []"
  by (induction xs) auto

lemma map_of_filter_key:
  "map_of (filter (\<lambda>kv. fst kv \<noteq> k) xs) = (map_of xs)(k := None)"
  by (induction xs) (auto simp: fun_eq_iff)

end
