(* ===== verification/Std_Model.thy ===== *)
theory Std_Model
  imports Prelude
begin

text \<open>
  The parts of the C++ standard library the sources use: \<open>std::string\<close> searching,
  \<open>std::to_string\<close> and \<open>std::stoi\<close>, the ordered containers \<open>std::set\<close> and
  \<open>std::map\<close> (sorted lists, since the code iterates over them in key order), and
  \<open>std::filesystem::path\<close> on POSIX. The contract of the ordered map is the locale
  \<open>keyed_map\<close>, interpreted on the model at the end of its section.
\<close>

section \<open>Strings\<close>

text \<open>\<open>find\<close>: the offset of the first occurrence; \<open>npos\<close> is \<^term>\<open>None\<close>.\<close>

fun find_sub :: "'a list \<Rightarrow> 'a list \<Rightarrow> nat option" where
  "find_sub pat [] = (if pat = [] then Some 0 else None)"
| "find_sub pat (c # cs) =
     (if take (length pat) (c # cs) = pat then Some 0
      else map_option Suc (find_sub pat cs))"

definition str_find :: "'a list \<Rightarrow> 'a list \<Rightarrow> nat \<Rightarrow> nat option" where
  "str_find pat s pos =
     (if pos \<le> length s then map_option (\<lambda>k. pos + k) (find_sub pat (drop pos s)) else None)"

definition str_contains :: "'a list \<Rightarrow> 'a list \<Rightarrow> bool" where
  "str_contains s pat \<longleftrightarrow> find_sub pat s \<noteq> None"

definition starts_with :: "'a list \<Rightarrow> 'a list \<Rightarrow> bool" where
  "starts_with s pat \<longleftrightarrow> take (length pat) s = pat"

lemma find_sub_Some:
  "find_sub pat s = Some k \<Longrightarrow> k + length pat \<le> length s \<and> take (length pat) (drop k s) = pat"
proof (induction pat s arbitrary: k rule: find_sub.induct)
  case (1 pat)
  then show ?case by (auto split: if_splits)
next
  case (2 pat c cs)
  show ?case
  proof (cases "take (length pat) (c # cs) = pat")
    case True
    then have "k = 0" using 2 by simp
    moreover have "length pat \<le> length (c # cs)"
      using arg_cong[OF True, of length] by simp
    ultimately show ?thesis using True by simp
  next
    case False
    then obtain k' where "find_sub pat cs = Some k'" "k = Suc k'" using 2 by auto
    then show ?thesis using "2.IH"[OF False, of k'] by simp
  qed
qed

lemma find_sub_None_iff: "find_sub pat s = None \<longleftrightarrow> (\<nexists>u v. s = u @ pat @ v)"
proof (induction pat s rule: find_sub.induct)
  case (1 pat)
  then show ?case by auto
next
  case (2 pat c cs)
  show ?case
  proof (cases "take (length pat) (c # cs) = pat")
    case True
    then have "c # cs = [] @ pat @ drop (length pat) (c # cs)"
      using append_take_drop_id[of "length pat" "c # cs"] by simp
    then show ?thesis using True by (metis find_sub.simps(2) option.distinct(1))
  next
    case False
    have "c # cs = u @ pat @ v \<Longrightarrow> \<exists>u'. u = c # u' \<and> cs = u' @ pat @ v" for u v
      using False by (cases u) (auto simp: append_eq_conv_conj)
    then have "(\<exists>u v. c # cs = u @ pat @ v) \<longleftrightarrow> (\<exists>u v. cs = u @ pat @ v)"
      by (metis append_Cons)
    then show ?thesis using False "2.IH" by simp
  qed
qed

lemma str_contains_iff: "str_contains s pat \<longleftrightarrow> (\<exists>u v. s = u @ pat @ v)"
  using find_sub_None_iff[of pat s] by (auto simp: str_contains_def)

lemma str_contains_self [simp]: "str_contains s s"
  by (metis append_Nil append_Nil2 str_contains_iff)

lemma str_contains_prefix [simp]: "str_contains (s @ t) s"
  by (metis append_Nil str_contains_iff)

lemma str_find_bound: "str_find pat s pos = Some p \<Longrightarrow> pos \<le> p \<and> p + length pat \<le> length s"
  by (auto simp: str_find_def dest!: find_sub_Some split: if_splits)

section \<open>Decimal numbers\<close>

text \<open>\<open>std::to_string\<close> for a non-negative number, and for an \<open>int\<close>.\<close>

definition digit_char :: "nat \<Rightarrow> char" where
  "digit_char d = char_of (48 + d)"

fun show_nat :: "nat \<Rightarrow> string" where
  "show_nat n = (if n < 10 then [digit_char n] else show_nat (n div 10) @ [digit_char (n mod 10)])"

declare show_nat.simps [simp del]

definition to_string :: "int \<Rightarrow> string" where
  "to_string i = (if i < 0 then CHR ''-'' # show_nat (nat (- i)) else show_nat (nat i))"

text \<open>\<open>std::stoi\<close>: leading white space, a sign, the longest run of digits; the rest is ignored.\<close>

definition is_space :: "char \<Rightarrow> bool" where
  "is_space c \<longleftrightarrow> of_char c \<in> {32 :: nat, 9, 10, 11, 12, 13}"

definition is_digit :: "char \<Rightarrow> bool" where
  "is_digit c \<longleftrightarrow> 48 \<le> (of_char c :: nat) \<and> (of_char c :: nat) \<le> 57"

definition digit_val :: "char \<Rightarrow> int" where
  "digit_val c = int (of_char c) - 48"

definition digits_val :: "string \<Rightarrow> int" where
  "digits_val ds = foldl (\<lambda>acc c. 10 * acc + digit_val c) 0 ds"

definition split_sign :: "string \<Rightarrow> int \<times> string" where
  "split_sign s =
     (case s of [] \<Rightarrow> (1, [])
      | c # cs \<Rightarrow> if c = CHR ''-'' then (- 1, cs) else if c = CHR ''+'' then (1, cs) else (1, s))"

definition stoi :: "string \<Rightarrow> exn + int" where
  "stoi s =
     (let (sg, body) = split_sign (dropWhile is_space s); ds = takeWhile is_digit body
      in if ds = [] then Inl (InvalidArgument ''stoi'')
         else let v = sg * digits_val ds
              in if v < - (2 ^ 31) \<or> 2 ^ 31 \<le> v then Inl (OutOfRange ''stoi'') else Inr v)"

lemma of_char_digit: "d < 10 \<Longrightarrow> (of_char (digit_char d) :: nat) = 48 + d"
  by (simp add: digit_char_def)

lemma is_digit_digit_char [simp]: "d < 10 \<Longrightarrow> is_digit (digit_char d)"
  by (simp add: is_digit_def of_char_digit)

lemma digit_val_digit_char [simp]: "d < 10 \<Longrightarrow> digit_val (digit_char d) = int d"
  by (simp add: digit_val_def of_char_digit)

lemma digits_val_snoc [simp]: "digits_val (ds @ [c]) = 10 * digits_val ds + digit_val c"
  by (simp add: digits_val_def)

lemma show_nat_digits: "list_all is_digit (show_nat n)"
proof (induction n rule: show_nat.induct)
  case (1 n)
  then show ?case by (subst show_nat.simps) auto
qed

lemma show_nat_nonempty [simp]: "show_nat n \<noteq> []"
  by (subst show_nat.simps) simp

lemma digits_val_show_nat [simp]: "digits_val (show_nat n) = int n"
proof (induction n rule: show_nat.induct)
  case (1 n)
  show ?case
  proof (cases "n < 10")
    case True
    then show ?thesis by (subst show_nat.simps) (simp add: digits_val_def)
  next
    case False
    then have "digits_val (show_nat n) = 10 * int (n div 10) + int (n mod 10)"
      by (subst show_nat.simps) (simp add: 1)
    also have "\<dots> = int n" by presburger
    finally show ?thesis .
  qed
qed

lemma is_digit_not_space: "is_digit c \<Longrightarrow> \<not> is_space c"
  by (auto simp: is_digit_def is_space_def)

lemma is_digit_not_sign: "is_digit c \<Longrightarrow> c \<noteq> CHR ''-'' \<and> c \<noteq> CHR ''+'' \<and> c \<noteq> CHR '':''"
  by (auto simp: is_digit_def)

lemma stoi_digits:
  assumes "list_all is_digit ds" "ds \<noteq> []" "digits_val ds < 2 ^ 31" "0 \<le> digits_val ds"
  shows "stoi ds = Inr (digits_val ds)"
proof -
  obtain c cs where ds: "ds = c # cs" using assms(2) by (cases ds) auto
  have c: "is_digit c" using assms(1) ds by simp
  have "takeWhile is_digit ds = ds"
    using assms(1) by (simp add: list_all_iff)
  then show ?thesis
    using assms(2-4) ds is_digit_not_space[OF c] is_digit_not_sign[OF c]
    by (simp add: stoi_def split_sign_def)
qed

lemma stoi_show_nat [simp]: "n < 2 ^ 31 \<Longrightarrow> stoi (show_nat n) = Inr (int n)"
  by (subst stoi_digits) (simp_all add: show_nat_digits)

section \<open>Ordered sets and maps\<close>

definition sset_insert :: "'a::linorder \<Rightarrow> 'a list \<Rightarrow> 'a list" where
  "sset_insert x xs = (if x \<in> set xs then xs else insort x xs)"

definition sset_erase :: "'a \<Rightarrow> 'a list \<Rightarrow> 'a list" where
  "sset_erase x xs = filter (\<lambda>y. y \<noteq> x) xs"

definition sset_inv :: "'a::linorder list \<Rightarrow> bool" where
  "sset_inv xs \<longleftrightarrow> sorted xs \<and> distinct xs"

fun smap_put :: "'k::linorder \<Rightarrow> 'v \<Rightarrow> ('k \<times> 'v) list \<Rightarrow> ('k \<times> 'v) list" where
  "smap_put k v [] = [(k, v)]"
| "smap_put k v ((k', v') # m) =
     (if k < k' then (k, v) # (k', v') # m
      else if k = k' then (k, v) # m
      else (k', v') # smap_put k v m)"

definition smap_del :: "'k \<Rightarrow> ('k \<times> 'v) list \<Rightarrow> ('k \<times> 'v) list" where
  "smap_del k m = filter (\<lambda>kv. fst kv \<noteq> k) m"

definition smap_inv :: "('k::linorder \<times> 'v) list \<Rightarrow> bool" where
  "smap_inv m \<longleftrightarrow> sorted (map fst m) \<and> distinct (map fst m)"

text \<open>\<open>operator[]\<close>: a missing key gets the default value first.\<close>

definition smap_at :: "'v \<Rightarrow> ('k \<times> 'v) list \<Rightarrow> 'k \<Rightarrow> 'v" where
  "smap_at d m k = (case map_of m k of Some v \<Rightarrow> v | None \<Rightarrow> d)"

lemma set_sset_insert [simp]: "set (sset_insert x xs) = insert x (set xs)"
  by (auto simp: sset_insert_def set_insort_key)

lemma set_sset_erase [simp]: "set (sset_erase x xs) = set xs - {x}"
  by (auto simp: sset_erase_def)

lemma sset_inv_insert: "sset_inv xs \<Longrightarrow> sset_inv (sset_insert x xs)"
  by (auto simp: sset_inv_def sset_insert_def sorted_insort distinct_insort)

lemma sset_inv_erase: "sset_inv xs \<Longrightarrow> sset_inv (sset_erase x xs)"
  by (simp add: sset_inv_def sset_erase_def sorted_wrt_filter)

lemma map_of_smap_put [simp]: "map_of (smap_put k v m) = (map_of m)(k := Some v)"
  by (induction k v m rule: smap_put.induct) (auto simp: fun_eq_iff)

lemma keys_smap_put [simp]: "fst ` set (smap_put k v m) = insert k (fst ` set m)"
  by (induction k v m rule: smap_put.induct) auto

lemma smap_put_again [simp]: "smap_put k v' (smap_put k v m) = smap_put k v' m"
  by (induction k v m rule: smap_put.induct) auto

lemma smap_inv_put: "smap_inv m \<Longrightarrow> smap_inv (smap_put k v m)"
proof (induction k v m rule: smap_put.induct)
  case (2 k v k' v' m)
  show ?case
  proof (cases "k < k'")
    case True
    then show ?thesis using 2 by (auto simp: smap_inv_def)
  next
    case F: False
    show ?thesis
    proof (cases "k = k'")
      case True
      then show ?thesis using 2 by (auto simp: smap_inv_def)
    next
      case False
      then have "smap_inv (smap_put k v m)" using 2 F by (auto simp: smap_inv_def)
      then show ?thesis
        using 2 F False keys_smap_put[of k v m]
        by (auto simp: smap_inv_def image_iff)
    qed
  qed
qed (simp add: smap_inv_def)

lemma map_of_smap_del [simp]: "map_of (smap_del k m) = (map_of m)(k := None)"
  by (simp add: smap_del_def map_of_filter_key)

lemma smap_inv_del: "smap_inv m \<Longrightarrow> smap_inv (smap_del k m)"
  by (induction m) (auto simp: smap_inv_def smap_del_def)

locale keyed_map =
  fixes get :: "'m \<Rightarrow> 'k \<Rightarrow> 'v option"
    and put :: "'k \<Rightarrow> 'v \<Rightarrow> 'm \<Rightarrow> 'm"
    and del :: "'k \<Rightarrow> 'm \<Rightarrow> 'm"
    and inv :: "'m \<Rightarrow> bool"
  assumes get_put: "get (put k v m) = (get m)(k := Some v)"
    and get_del: "get (del k m) = (get m)(k := None)"
    and inv_put: "inv m \<Longrightarrow> inv (put k v m)"
    and inv_del: "inv m \<Longrightarrow> inv (del k m)"
begin

lemma put_then_get: "get (put k v m) k = Some v"
  by (simp add: get_put)

lemma replace_get: "get (put k v (del k m)) = get (put k v m)"
  by (simp add: get_put get_del)

lemma replace_inv: "inv m \<Longrightarrow> inv (put k v (del k m))"
  by (intro inv_put inv_del)

end

interpretation smap: keyed_map map_of smap_put smap_del smap_inv
  by unfold_locales (simp_all add: smap_inv_put smap_inv_del)

end
