(* ===== verification/Path_Model.thy ===== *)
theory Path_Model
  imports Std_Model
begin

text \<open>
  \<open>std::filesystem::path\<close> on POSIX, and the loop that the constructors and setters of
  \<open>TransferMetadata\<close>, \<open>GroupMetadata\<close> and \<open>TransferClient\<close> run over a path
  to delete every \<open>./\<close>. The loop is shown to stop and to be one pass from left to right.
\<close>

section \<open>Paths\<close>

definition slash :: char where
  "slash = CHR ''/''"

definition is_absolute :: "string \<Rightarrow> bool" where
  "is_absolute p \<longleftrightarrow> starts_with p ''/''"

definition path_append :: "string \<Rightarrow> string \<Rightarrow> string" where
  "path_append p q =
     (if is_absolute q then q
      else if p = [] \<or> last p = slash then p @ q else p @ [slash] @ q)"

text \<open>\<open>std::filesystem::absolute\<close> throws on an empty path.\<close>

definition path_absolute :: "string \<Rightarrow> string \<Rightarrow> exn + string" where
  "path_absolute cwd p =
     (if p = [] then Inl (FilesystemError ''absolute'') else Inr (path_append cwd p))"

definition filename :: "string \<Rightarrow> string" where
  "filename p = rev (takeWhile (\<lambda>c. c \<noteq> slash) (rev p))"

definition extension :: "string \<Rightarrow> string" where
  "extension p =
     (let f = filename p; e = takeWhile (\<lambda>c. c \<noteq> CHR ''.'') (rev f)
      in if f = ''.'' \<or> f = ''..'' \<or> length f \<le> length e + 1 then [] else CHR ''.'' # rev e)"

definition remove_filename :: "string \<Rightarrow> string" where
  "remove_filename p = rev (dropWhile (\<lambda>c. c \<noteq> slash) (rev p))"

fun split_on :: "'a \<Rightarrow> 'a list \<Rightarrow> 'a list list" where
  "split_on d [] = [[]]"
| "split_on d (c # cs) =
     (if c = d then [] # split_on d cs
      else (case split_on d cs of [] \<Rightarrow> [[c]] | t # ts \<Rightarrow> (c # t) # ts))"

text \<open>
  \<open>operator==\<close> on paths compares the root directory and the sequence of elements:
  repeated separators do not count, a trailing one adds an empty element.
\<close>

definition path_elems :: "string \<Rightarrow> string list" where
  "path_elems p =
     (let segs = split_on slash p; body = filter (\<lambda>e. e \<noteq> []) (butlast segs)
      in if last segs \<noteq> [] then body @ [last segs] else if body = [] then [] else body @ [[]])"

definition path_eq :: "string \<Rightarrow> string \<Rightarrow> bool" where
  "path_eq p q \<longleftrightarrow> is_absolute p = is_absolute q \<and> path_elems p = path_elems q"

section \<open>Deleting every dot-slash\<close>

function remove_dot_slash_from :: "string \<Rightarrow> nat \<Rightarrow> string" where
  "remove_dot_slash_from s pos =
     (case str_find ''./'' s pos of
        None \<Rightarrow> s
      | Some p \<Rightarrow> remove_dot_slash_from (take p s @ drop (p + length ''./'') s) p)"
  by pat_completeness auto
termination
  by (relation "measure (\<lambda>(s, pos). length s)") (auto dest!: str_find_bound)

declare remove_dot_slash_from.simps [simp del]

definition remove_dot_slash :: "string \<Rightarrow> string" where
  "remove_dot_slash s = remove_dot_slash_from s 0"

text \<open>The reference: one pass that drops each dot-slash it meets.\<close>

fun strip_dot_slash :: "string \<Rightarrow> string" where
  "strip_dot_slash [] = []"
| "strip_dot_slash [c] = [c]"
| "strip_dot_slash (c # d # cs) =
     (if c = CHR ''.'' \<and> d = slash then strip_dot_slash cs else c # strip_dot_slash (d # cs))"

text \<open>The path a setter stores: cleaned, then made absolute.\<close>

definition clean_path :: "string \<Rightarrow> string \<Rightarrow> exn + string" where
  "clean_path cwd p = path_absolute cwd (remove_dot_slash p)"

section \<open>Lemmas\<close>

lemma path_eq_refl [simp]: "path_eq p p"
  by (simp add: path_eq_def)

lemma path_eq_sym: "path_eq p q \<Longrightarrow> path_eq q p"
  by (simp add: path_eq_def)

lemma path_eq_trans: "path_eq p q \<Longrightarrow> path_eq q r \<Longrightarrow> path_eq p r"
  by (simp add: path_eq_def)

lemma find_dot_slash_None: "find_sub ''./'' v = None \<Longrightarrow> strip_dot_slash v = v"
  by (induction v rule: strip_dot_slash.induct) (auto simp: slash_def)

lemma find_dot_slash_Some:
  "find_sub ''./'' v = Some k \<Longrightarrow> strip_dot_slash v = take k v @ strip_dot_slash (drop (k + 2) v)"
proof (induction v arbitrary: k rule: strip_dot_slash.induct)
  case (3 c d cs)
  show ?case
  proof (cases "c = CHR ''.'' \<and> d = slash")
    case True
    then show ?thesis using 3 by (simp add: slash_def)
  next
    case False
    then obtain k' where k': "find_sub ''./'' (d # cs) = Some k'" "k = Suc k'"
      using "3.prems" by (auto simp: slash_def split: if_splits)
    have "strip_dot_slash (d # cs) = take k' (d # cs) @ strip_dot_slash (drop (k' + 2) (d # cs))"
      using "3.IH"(2)[OF False k'(1)] .
    then have "strip_dot_slash (c # d # cs)
        = c # take k' (d # cs) @ strip_dot_slash (drop (k' + 2) (d # cs))"
      using False by auto
    then show ?thesis using k'(2) by simp
  qed
qed auto

lemma remove_dot_slash_from_strip:
  "remove_dot_slash_from (u @ v) (length u) = u @ strip_dot_slash v"
proof (induction "length v" arbitrary: u v rule: less_induct)
  case less
  show ?case
  proof (cases "find_sub ''./'' v")
    case None
    then show ?thesis
      by (simp add: remove_dot_slash_from.simps str_find_def find_dot_slash_None)
  next
    case (Some k)
    let ?u = "u @ take k v" and ?v = "drop (k + 2) v"
    have b: "k + 2 \<le> length v" using find_sub_Some[OF Some] by simp
    have "remove_dot_slash_from (u @ v) (length u) = remove_dot_slash_from (?u @ ?v) (length ?u)"
      using Some b by (subst remove_dot_slash_from.simps) (simp add: str_find_def)
    also have "\<dots> = ?u @ strip_dot_slash ?v"
      using b less[of ?v ?u] by simp
    also have "\<dots> = u @ strip_dot_slash v"
      using find_dot_slash_Some[OF Some] by simp
    finally show ?thesis .
  qed
qed

lemma remove_dot_slash_id: "\<not> str_contains p ''./'' \<Longrightarrow> remove_dot_slash p = p"
  by (simp add: remove_dot_slash_def remove_dot_slash_from.simps str_find_def str_contains_def)

lemma strip_dot_slash_no_dot: "CHR ''.'' \<notin> set s \<Longrightarrow> strip_dot_slash s = s"
  by (induction s rule: strip_dot_slash.induct) auto

text \<open>A stored path that is absolute and has no dot-slash is stored as it is.\<close>

definition clean_abs :: "string \<Rightarrow> bool" where
  "clean_abs p \<longleftrightarrow> is_absolute p \<and> \<not> str_contains p ''./''"

lemma is_absolute_nonempty: "is_absolute p \<Longrightarrow> p \<noteq> []"
  by (auto simp: is_absolute_def starts_with_def)

lemma clean_path_clean_abs [simp]: "clean_abs p \<Longrightarrow> clean_path cwd p = Inr p"
  using is_absolute_nonempty[of p]
  by (simp add: clean_abs_def clean_path_def path_absolute_def path_append_def remove_dot_slash_id)

lemma is_absolute_iff: "is_absolute p \<longleftrightarrow> (\<exists>q. p = CHR ''/'' # q)"
  by (cases p) (auto simp: is_absolute_def starts_with_def)

lemma is_absolute_path_append: "is_absolute cwd \<Longrightarrow> is_absolute (path_append cwd p)"
  by (auto simp: path_append_def is_absolute_iff)

section \<open>Properties\<close>

text \<open>
  C39: the search-and-erase loop of the path setters stops on every string, and its result is
  the one left-to-right pass that drops each dot-slash.
\<close>

theorem remove_dot_slash_single_pass: "remove_dot_slash s = strip_dot_slash s"
  using remove_dot_slash_from_strip[of "[]" s] by (simp add: remove_dot_slash_def)

text \<open>
  The loop also rewrites parent references: a path that starts with two dots and a slash
  loses its parent reference and names a hidden entry of the working directory, for every
  rest of the path without a dot.
\<close>

theorem remove_dot_slash_parent:
  assumes "CHR ''.'' \<notin> set rest"
  shows "remove_dot_slash (''../'' @ rest) = CHR ''.'' # rest"
proof -
  have "remove_dot_slash (''../'' @ rest) = strip_dot_slash (CHR ''.'' # ''./'' @ rest)"
    using remove_dot_slash_from_strip[of "[]" "''../'' @ rest"] by (simp add: remove_dot_slash_def)
  also have "\<dots> = CHR ''.'' # rest"
    using assms by (simp add: strip_dot_slash_no_dot slash_def)
  finally show ?thesis .
qed

theorem remove_dot_slash_parent_witness: "remove_dot_slash ''../data'' = ''.data''"
  using remove_dot_slash_parent[of "''data''"] by simp

end
