(* ===== verification/Ip_Format.thy ===== *)
theory Ip_Format
  imports Path_Model
begin

text \<open>
  \<open>include/snbmodules/ip_format.hpp\<close>: an address and a port, parsed from
  \<open>ip:port\<close> with \<open>strtok\<close> and \<open>std::stoi\<close>. A constructor or setter either
  throws or yields an object that satisfies \<open>valid_ip\<close>; a valid object survives the
  copy constructor and the trip through its text form.
\<close>

section \<open>Model\<close>

record IPFormat =
  m_ip :: string
  m_port :: int

definition default_ip :: IPFormat where
  "default_ip = \<lparr>m_ip = ''0.0.0.0'', m_port = 0\<rparr>"

definition nul :: char where
  "nul = CHR 0x00"

text \<open>What \<open>c_str\<close> hands to the C functions: the string up to its first NUL.\<close>

definition c_str :: "string \<Rightarrow> string" where
  "c_str s = takeWhile (\<lambda>c. c \<noteq> nul) s"

text \<open>The token loop of \<open>strtok\<close>: empty tokens are skipped.\<close>

definition strtok_all :: "char \<Rightarrow> string \<Rightarrow> string list" where
  "strtok_all d s = filter (\<lambda>t. t \<noteq> []) (split_on d (c_str s))"

definition set_port :: "int \<Rightarrow> IPFormat \<Rightarrow> exn + IPFormat" where
  "set_port port x =
     (if port < 0 \<or> port > 65535 then Inl (InvalidArgument ''Port must be between 0 and 65535'')
      else Inr (x\<lparr>m_port := port\<rparr>))"

definition set_ip :: "string \<Rightarrow> IPFormat \<Rightarrow> exn + IPFormat" where
  "set_ip ip x =
     (if ip = [] then Inl (InvalidArgument ''IP address cannot be empty'')
      else
        (case strtok_all (CHR '':'') ip of
           [a] \<Rightarrow> Inr (x\<lparr>m_ip := a\<rparr>)
         | [a, b] \<Rightarrow> rbind (stoi b) (\<lambda>p. rbind (set_port p x) (\<lambda>y. Inr (y\<lparr>m_ip := a\<rparr>)))
         | _ \<Rightarrow> Inl (InvalidArgument ''Invalid IP address format (IP:PORT or IP)'')))"

definition IPFormat_new :: "string \<Rightarrow> int \<Rightarrow> exn + IPFormat" where
  "IPFormat_new ip port = rbind (set_port port default_ip) (set_ip ip)"

definition IPFormat_copy :: "IPFormat \<Rightarrow> exn + IPFormat" where
  "IPFormat_copy o1 = rbind (set_port (m_port o1) default_ip) (set_ip (m_ip o1))"

definition get_ip_port :: "IPFormat \<Rightarrow> string" where
  "get_ip_port x = m_ip x @ '':'' @ to_string (m_port x)"

definition is_default :: "IPFormat \<Rightarrow> bool" where
  "is_default x \<longleftrightarrow> m_ip x = ''0.0.0.0'' \<and> m_port x = 0"

text \<open>\<open>operator<\<close>: a nonzero \<open>compare\<close> counts as true.\<close>

definition ip_less :: "IPFormat \<Rightarrow> IPFormat \<Rightarrow> bool" where
  "ip_less a b \<longleftrightarrow> m_ip a \<noteq> m_ip b \<or> (m_ip a = m_ip b \<and> m_port a < m_port b)"

definition valid_ip :: "IPFormat \<Rightarrow> bool" where
  "valid_ip x \<longleftrightarrow>
     m_ip x \<noteq> [] \<and> CHR '':'' \<notin> set (m_ip x) \<and> nul \<notin> set (m_ip x) \<and> 0 \<le> m_port x \<and> m_port x \<le> 65535"

section \<open>Lemmas\<close>

lemma valid_default_ip [simp]: "valid_ip default_ip"
  by (simp add: valid_ip_def default_ip_def nul_def)

lemma split_on_none: "d \<notin> set xs \<Longrightarrow> split_on d xs = [xs]"
  by (induction xs) auto

lemma split_on_append: "d \<notin> set xs \<Longrightarrow> split_on d (xs @ d # ys) = xs # split_on d ys"
  by (induction xs) auto

lemma split_on_no_delim: "t \<in> set (split_on d xs) \<Longrightarrow> d \<notin> set t \<and> set t \<subseteq> set xs"
proof (induction xs arbitrary: t)
  case (Cons x xs)
  then show ?case by (auto split: if_splits list.splits) blast+
qed simp

lemma show_nat_plain: "CHR '':'' \<notin> set (show_nat n)" "nul \<notin> set (show_nat n)"
  using show_nat_digits[of n] by (auto simp: list_all_iff is_digit_def nul_def)

lemma c_str_plain: "nul \<notin> set s \<Longrightarrow> c_str s = s"
  by (simp add: c_str_def takeWhile_neq_id)

lemma strtok_plain: "s \<noteq> [] \<Longrightarrow> CHR '':'' \<notin> set s \<Longrightarrow> nul \<notin> set s \<Longrightarrow> strtok_all (CHR '':'') s = [s]"
  by (simp add: strtok_all_def c_str_plain split_on_none)

lemma strtok_tokens: "t \<in> set (strtok_all d s) \<Longrightarrow> t \<noteq> [] \<and> d \<notin> set t \<and> nul \<notin> set t"
proof -
  assume "t \<in> set (strtok_all d s)"
  then have t: "t \<noteq> []" "t \<in> set (split_on d (c_str s))" by (auto simp: strtok_all_def)
  have "nul \<notin> set (c_str s)" by (auto simp: c_str_def dest: set_takeWhileD)
  then show ?thesis using t split_on_no_delim[OF t(2)] by auto
qed

lemma set_port_Inr: "set_port p x = Inr y \<longleftrightarrow> 0 \<le> p \<and> p \<le> 65535 \<and> y = x\<lparr>m_port := p\<rparr>"
  by (auto simp: set_port_def)

lemma set_ip_Inr:
  "set_ip ip x = Inr y \<Longrightarrow>
     \<exists>t. t \<in> set (strtok_all (CHR '':'') ip) \<and> m_ip y = t
         \<and> (m_port y = m_port x \<or> 0 \<le> m_port y \<and> m_port y \<le> 65535)"
  by (auto simp: set_ip_def rbind_eq_Inr set_port_Inr split: if_splits list.splits)

lemma set_ip_valid: "set_ip ip x = Inr y \<Longrightarrow> 0 \<le> m_port x \<Longrightarrow> m_port x \<le> 65535 \<Longrightarrow> valid_ip y"
  by (auto simp: valid_ip_def dest!: set_ip_Inr strtok_tokens)

lemma IPFormat_new_valid: "IPFormat_new ip port = Inr y \<Longrightarrow> valid_ip y"
  by (auto simp: IPFormat_new_def rbind_eq_Inr set_port_Inr intro: set_ip_valid)

lemma get_ip_port_tokens:
  assumes "valid_ip x"
  shows "strtok_all (CHR '':'') (get_ip_port x) = [m_ip x, show_nat (nat (m_port x))]"
proof -
  have p: "to_string (m_port x) = show_nat (nat (m_port x))"
    using assms by (simp add: valid_ip_def to_string_def)
  have "nul \<notin> set (get_ip_port x)"
    using assms show_nat_plain(2) by (auto simp: get_ip_port_def p valid_ip_def nul_def)
  then show ?thesis
    using assms show_nat_plain(1)[of "nat (m_port x)"]
    by (simp add: strtok_all_def c_str_plain get_ip_port_def p valid_ip_def
        split_on_append split_on_none)
qed

lemma IPFormat_new_get_ip_port [simp]:
  assumes "valid_ip x"
  shows "IPFormat_new (get_ip_port x) 0 = Inr x"
proof -
  have "nat (m_port x) < 2 ^ 31" using assms by (simp add: valid_ip_def) linarith
  then show ?thesis
    using assms
    by (simp add: IPFormat_new_def set_port_def set_ip_def get_ip_port_tokens default_ip_def)
      (simp add: get_ip_port_def valid_ip_def)
qed

lemma IPFormat_copy_valid [simp]: "valid_ip x \<Longrightarrow> IPFormat_copy x = Inr x"
  by (simp add: IPFormat_copy_def set_port_def set_ip_def strtok_plain valid_ip_def default_ip_def)

lemma get_ip_port_inj:
  assumes "valid_ip x" "valid_ip y" "get_ip_port x = get_ip_port y"
  shows "x = y"
  by (metis IPFormat_new_get_ip_port[OF assms(1)] IPFormat_new_get_ip_port[OF assms(2)] assms(3)
      sum.inject(2))

section \<open>Properties\<close>

text \<open>
  Whatever string and port a constructor of \<open>IPFormat\<close> accepts, the object it builds is
  well formed: a nonempty address without a colon, a port of 16 bits.
\<close>

theorem IPFormat_constructor_valid:
  "IPFormat_new ip port = Inr x \<Longrightarrow> valid_ip x"
  by (rule IPFormat_new_valid)

theorem IPFormat_constructor_valid_witness:
  "IPFormat_new ''10.73.136.38:5009'' 0 = Inr \<lparr>m_ip = ''10.73.136.38'', m_port = 5009\<rparr>
   \<and> valid_ip \<lparr>m_ip = ''10.73.136.38'', m_port = 5009\<rparr>"
proof -
  have h: "IPFormat_new ''10.73.136.38:5009'' 0 = Inr \<lparr>m_ip = ''10.73.136.38'', m_port = 5009\<rparr>"
    by code_simp
  show ?thesis using h IPFormat_constructor_valid[OF h] by simp
qed

text \<open>
  The text form \<open>ip:port\<close> of a well-formed object parses back to that object, and the
  copy constructor, which parses its address again, copies it exactly.
\<close>

theorem IPFormat_text_roundtrip:
  assumes "valid_ip x"
  shows "IPFormat_new (get_ip_port x) 0 = Inr x \<and> IPFormat_copy x = Inr x"
  using assms by simp

theorem IPFormat_text_roundtrip_witness:
  "IPFormat_new (get_ip_port \<lparr>m_ip = ''localhost'', m_port = 8080\<rparr>) 0
     = Inr \<lparr>m_ip = ''localhost'', m_port = 8080\<rparr>
   \<and> IPFormat_copy \<lparr>m_ip = ''localhost'', m_port = 8080\<rparr> = Inr \<lparr>m_ip = ''localhost'', m_port = 8080\<rparr>"
proof -
  have h: "valid_ip \<lparr>m_ip = ''localhost'', m_port = 8080\<rparr>"
    by (simp add: valid_ip_def nul_def)
  show ?thesis using IPFormat_text_roundtrip[OF h] .
qed

text \<open>
  \<open>operator<\<close> on addresses is no strict order: any two different addresses are each
  less than the other.
\<close>

lemma ip_less_not_asymmetric:
  assumes "m_ip a \<noteq> m_ip b"
  shows "ip_less a b \<and> ip_less b a"
  using assms by (auto simp: ip_less_def)

end
