(* ===== verification/Enums.thy ===== *)
theory Enums
  imports Std_Model
begin

text \<open>
  The three enumerations of \<open>include/snbmodules/common\<close> with their string tables. The
  contract the message and metadata code relies on is the locale \<open>enum_codec\<close>,
  interpreted on each table pair. The statuses are ordered as their enumerators are.
\<close>

section \<open>Transfer status\<close>

datatype e_status =
    PREPARING | ERROR | SUCCESS_UPLOAD | SUCCESS_DOWNLOAD | FINISHED | CANCELLED
  | PAUSED | WAITING | CHECKING | HASHING | UPLOADING | DOWNLOADING

fun status_rank :: "e_status \<Rightarrow> nat" where
  "status_rank PREPARING = 0"
| "status_rank ERROR = 1"
| "status_rank SUCCESS_UPLOAD = 2"
| "status_rank SUCCESS_DOWNLOAD = 3"
| "status_rank FINISHED = 4"
| "status_rank CANCELLED = 5"
| "status_rank PAUSED = 6"
| "status_rank WAITING = 7"
| "status_rank CHECKING = 8"
| "status_rank HASHING = 9"
| "status_rank UPLOADING = 10"
| "status_rank DOWNLOADING = 11"

definition status_strings :: "(e_status \<times> string) list" where
  "status_strings =
     [(PREPARING, ''PREPARING''), (ERROR, ''ERROR''), (SUCCESS_UPLOAD, ''SUCCESS_UPLOAD''),
      (SUCCESS_DOWNLOAD, ''SUCCESS_DOWNLOAD''), (FINISHED, ''FINISHED''),
      (CANCELLED, ''CANCELLED''), (PAUSED, ''PAUSED''), (WAITING, ''WAITING''),
      (CHECKING, ''CHECKING''), (HASHING, ''HASHING''), (UPLOADING, ''UPLOADING''),
      (DOWNLOADING, ''DOWNLOADING'')]"

definition status_to_string :: "e_status \<Rightarrow> string" where
  "status_to_string e =
     (case map_of status_strings e of None \<Rightarrow> ''Not supported'' | Some s \<Rightarrow> s)"

definition strings_status :: "(string \<times> e_status) list" where
  "strings_status =
     [(''PREPARING'', PREPARING), (''ERROR'', ERROR), (''SUCCESS_UPLOAD'', SUCCESS_UPLOAD),
      (''SUCCESS_DOWNLOAD'', SUCCESS_DOWNLOAD), (''FINISHED'', FINISHED),
      (''CANCELLED'', CANCELLED), (''PAUSED'', PAUSED), (''WAITING'', WAITING),
      (''CHECKING'', CHECKING), (''HASHING'', HASHING), (''UPLOADING'', UPLOADING),
      (''DOWNLOADING'', DOWNLOADING)]"

definition string_to_status :: "string \<Rightarrow> e_status option" where
  "string_to_status s = map_of strings_status s"

section \<open>Notifications\<close>

datatype e_notification_type =
    CONNECTION_REQUEST | NEW_TRANSFER | UPDATE_REQUEST
  | GROUP_METADATA | TRANSFER_ERROR
  | START_TRANSFER | TRANSFER_METADATA | PAUSE_TRANSFER | RESUME_TRANSFER | CANCEL_TRANSFER

definition notification_strings :: "(e_notification_type \<times> string) list" where
  "notification_strings =
     [(CONNECTION_REQUEST, ''CONNECTION_REQUEST''), (NEW_TRANSFER, ''NEW_TRANSFER''),
      (UPDATE_REQUEST, ''UPDATE_REQUEST''), (GROUP_METADATA, ''GROUP_METADATA''),
      (TRANSFER_ERROR, ''TRANSFER_ERROR''), (START_TRANSFER, ''START_TRANSFER''),
      (TRANSFER_METADATA, ''TRANSFER_METADATA''), (PAUSE_TRANSFER, ''PAUSE_TRANSFER''),
      (RESUME_TRANSFER, ''RESUME_TRANSFER''), (CANCEL_TRANSFER, ''CANCEL_TRANSFER'')]"

definition notification_to_string :: "e_notification_type \<Rightarrow> string" where
  "notification_to_string e =
     (case map_of notification_strings e of None \<Rightarrow> ''Not supported'' | Some s \<Rightarrow> s)"

definition strings_notification :: "(string \<times> e_notification_type) list" where
  "strings_notification =
     [(''CONNECTION_REQUEST'', CONNECTION_REQUEST), (''NEW_TRANSFER'', NEW_TRANSFER),
      (''UPDATE_REQUEST'', UPDATE_REQUEST), (''GROUP_METADATA'', GROUP_METADATA),
      (''TRANSFER_ERROR'', TRANSFER_ERROR), (''START_TRANSFER'', START_TRANSFER),
      (''TRANSFER_METADATA'', TRANSFER_METADATA), (''PAUSE_TRANSFER'', PAUSE_TRANSFER),
      (''RESUME_TRANSFER'', RESUME_TRANSFER), (''CANCEL_TRANSFER'', CANCEL_TRANSFER)]"

definition string_to_notification :: "string \<Rightarrow> e_notification_type option" where
  "string_to_notification s = map_of strings_notification s"

section \<open>Protocols\<close>

datatype e_protocol_type = BITTORRENT | RCLONE | SCP | dummy

definition protocol_strings :: "(e_protocol_type \<times> string) list" where
  "protocol_strings =
     [(BITTORRENT, ''BITTORRENT''), (RCLONE, ''RCLONE''), (SCP, ''SCP''), (dummy, ''dummy'')]"

definition protocols_to_string :: "e_protocol_type \<Rightarrow> string" where
  "protocols_to_string e =
     (case map_of protocol_strings e of None \<Rightarrow> ''Not supported'' | Some s \<Rightarrow> s)"

definition strings_protocol :: "(string \<times> e_protocol_type) list" where
  "strings_protocol =
     [(''BITTORRENT'', BITTORRENT), (''RCLONE'', RCLONE), (''SCP'', SCP), (''dummy'', dummy)]"

definition string_to_protocols :: "string \<Rightarrow> e_protocol_type option" where
  "string_to_protocols s = map_of strings_protocol s"

section \<open>The order of the statuses\<close>

lemma status_rank_inj: "status_rank a = status_rank b \<Longrightarrow> a = b"
  by (cases a; cases b) simp_all

instantiation e_status :: linorder
begin

definition less_eq_e_status :: "e_status \<Rightarrow> e_status \<Rightarrow> bool" where
  "less_eq_e_status a b \<longleftrightarrow> status_rank a \<le> status_rank b"

definition less_e_status :: "e_status \<Rightarrow> e_status \<Rightarrow> bool" where
  "less_e_status a b \<longleftrightarrow> status_rank a < status_rank b"

instance
  by standard
    (auto simp: less_eq_e_status_def less_e_status_def intro: status_rank_inj)

end

lemma PREPARING_least [simp]: "PREPARING \<le> s"
  by (simp add: less_eq_e_status_def)

section \<open>The codec contract\<close>

locale enum_codec =
  fixes to_str :: "'e \<Rightarrow> string"
    and of_str :: "string \<Rightarrow> 'e option"
  assumes decode_encode: "of_str (to_str e) = Some e"
    and decode_only: "of_str s = Some e \<Longrightarrow> s = to_str e"
begin

lemma encode_inj: "to_str a = to_str b \<longleftrightarrow> a = b"
  by (metis decode_encode option.inject)

lemma decode_iff: "of_str s = Some e \<longleftrightarrow> s = to_str e"
  using decode_encode decode_only by blast

lemma decode_None_iff: "of_str s = None \<longleftrightarrow> s \<notin> range to_str"
  using decode_iff by (metis not_None_eq rangeE rangeI)

end

interpretation status: enum_codec status_to_string string_to_status
proof
  show "string_to_status (status_to_string e) = Some e" for e
    by (cases e) (simp_all add: string_to_status_def status_to_string_def status_strings_def
        strings_status_def)
  show "s = status_to_string e" if "string_to_status s = Some e" for s e
    using that by (auto simp: string_to_status_def status_to_string_def status_strings_def
        strings_status_def split: if_splits)
qed

interpretation notif: enum_codec notification_to_string string_to_notification
proof
  show "string_to_notification (notification_to_string e) = Some e" for e
    by (cases e) (simp_all add: string_to_notification_def notification_to_string_def
        notification_strings_def strings_notification_def)
  show "s = notification_to_string e" if "string_to_notification s = Some e" for s e
    using that by (auto simp: string_to_notification_def notification_to_string_def
        notification_strings_def strings_notification_def split: if_splits)
qed

interpretation protocol: enum_codec protocols_to_string string_to_protocols
proof
  show "string_to_protocols (protocols_to_string e) = Some e" for e
    by (cases e) (simp_all add: string_to_protocols_def protocols_to_string_def
        protocol_strings_def strings_protocol_def)
  show "s = protocols_to_string e" if "string_to_protocols s = Some e" for s e
    using that by (auto simp: string_to_protocols_def protocols_to_string_def
        protocol_strings_def strings_protocol_def split: if_splits)
qed

lemmas codec_simps [simp] =
  status.decode_encode notif.decode_encode protocol.decode_encode

section \<open>Properties\<close>

text \<open>
  The string tables of the three enumerations are codecs: a string decodes to a status,
  notification or protocol exactly when it is that enumerator's own name.
\<close>

theorem enum_tables_codec:
  "(string_to_status s = Some st \<longleftrightarrow> s = status_to_string st)
   \<and> (string_to_notification s = Some n \<longleftrightarrow> s = notification_to_string n)
   \<and> (string_to_protocols s = Some p \<longleftrightarrow> s = protocols_to_string p)"
  by (simp add: status.decode_iff notif.decode_iff protocol.decode_iff)

end
