(* ===== verification/Json_Model.thy ===== *)
theory Json_Model
  imports Std_Model
begin

text \<open>
  JSON values as the sources build and read them. The text layer (\<open>parse\<close> and
  \<open>dump\<close>) belongs to the JSON library and is a parameter of the model (theory
  \<open>World\<close>); here are the values, the object members in key order, and the typed reads,
  which throw when the member has another type.
\<close>

datatype json =
    JNull
  | JBool bool
  | JInt int
  | JStr string
  | JArr "json list"
  | JObj "(string \<times> json) list"

definition jmember :: "json \<Rightarrow> string \<Rightarrow> json option" where
  "jmember j k = (case j of JObj m \<Rightarrow> map_of m k | _ \<Rightarrow> None)"

definition jcontains :: "json \<Rightarrow> string \<Rightarrow> bool" where
  "jcontains j k \<longleftrightarrow> jmember j k \<noteq> None"

text \<open>Building an object by \<open>j[k] = v\<close>, in the order of the assignments.\<close>

definition jobject :: "(string \<times> json) list \<Rightarrow> json" where
  "jobject kvs = JObj (foldl (\<lambda>m kv. smap_put (fst kv) (snd kv) m) [] kvs)"

fun jget_string :: "json \<Rightarrow> exn + string" where
  "jget_string (JStr s) = Inr s"
| "jget_string _ = Inl JsonTypeError"

fun jget_int :: "json \<Rightarrow> exn + int" where
  "jget_int (JInt i) = Inr i"
| "jget_int _ = Inl JsonTypeError"

fun jget_bool :: "json \<Rightarrow> exn + bool" where
  "jget_bool (JBool b) = Inr b"
| "jget_bool _ = Inl JsonTypeError"

fun jget_strings :: "json list \<Rightarrow> exn + string list" where
  "jget_strings [] = Inr []"
| "jget_strings (j # js) = rbind (jget_string j) (\<lambda>s. rbind (jget_strings js) (\<lambda>ss. Inr (s # ss)))"

fun jget_string_list :: "json \<Rightarrow> exn + string list" where
  "jget_string_list (JArr js) = jget_strings js"
| "jget_string_list _ = Inl JsonTypeError"

lemma map_of_foldl_smap_put:
  "map_of (foldl (\<lambda>m kv. smap_put (fst kv) (snd kv) m) m0 kvs) k
     = (case map_of (rev kvs) k of Some v \<Rightarrow> Some v | None \<Rightarrow> map_of m0 k)"
  by (induction kvs arbitrary: m0) (auto simp: map_add_def split: option.splits)

lemma jmember_jobject [simp]: "jmember (jobject kvs) k = map_of (rev kvs) k"
  by (simp add: jmember_def jobject_def map_of_foldl_smap_put split: option.splits)

lemma jget_strings_map [simp]: "jget_strings (map JStr ss) = Inr ss"
  by (induction ss) simp_all

end
