(* ===== verification/Transfer_Metadata.thy ===== *)
theory Transfer_Metadata
  imports Ip_Format Enums Json_Model
begin

text \<open>
  \<open>include/snbmodules/transfer_metadata.hpp\<close> and the export half of
  \<open>src/common/transfer_metadata.cpp\<close>: the record of one file transfer, its setters and
  getters, and the JSON object it exports, either complete or with the fields modified since
  the last export. Loading, which reads the clock and reports issues, is in theory
  \<open>Metadata_IO\<close>. Sizes are 64-bit words and wrap; times are signed 64-bit milliseconds.
\<close>

section \<open>State\<close>

record TransferMetadata =
  tm_file_path :: string
  tm_hash :: string
  tm_bytes_size :: u64
  tm_bytes_transferred :: u64
  tm_transmission_speed :: i32
  tm_status :: e_status
  tm_src :: IPFormat
  tm_dest :: IPFormat
  tm_magnet_link :: string
  tm_group_id :: string
  tm_error_code :: string
  tm_start_time :: i64
  tm_end_time :: i64
  tm_duration :: i64
  tm_modified_fields :: "string \<Rightarrow> bool"

text \<open>
  The in-class initialisers; \<open>m_modified_fields\<close> is read with \<open>operator[]\<close> only, so a
  missing key reads as false.
\<close>

definition default_tm :: TransferMetadata where
  "default_tm =
     \<lparr>tm_file_path = [], tm_hash = [], tm_bytes_size = 0, tm_bytes_transferred = 0,
      tm_transmission_speed = 0, tm_status = WAITING, tm_src = default_ip, tm_dest = default_ip,
      tm_magnet_link = [], tm_group_id = [], tm_error_code = [], tm_start_time = 0,
      tm_end_time = 0, tm_duration = 0, tm_modified_fields = (\<lambda>_. False)\<rparr>"

definition ctor_modified :: "string \<Rightarrow> bool" where
  "ctor_modified k \<longleftrightarrow>
     k \<in> {''hash'', ''size'', ''bytes_transferred'', ''transmission_speed'', ''status'',
           ''magnet_link'', ''error_code'', ''start_time'', ''end_time'', ''duration''}"

definition TransferMetadata_new ::
  "string \<Rightarrow> string \<Rightarrow> u64 \<Rightarrow> IPFormat \<Rightarrow> string \<Rightarrow> IPFormat \<Rightarrow> string \<Rightarrow> u64 \<Rightarrow> e_status
     \<Rightarrow> exn + TransferMetadata" where
  "TransferMetadata_new cwd file_path bytes_size src hash dest group_id bytes_transferred status =
     rbind (clean_path cwd file_path) (\<lambda>p.
       Inr (default_tm\<lparr>tm_file_path := p, tm_hash := hash, tm_bytes_size := bytes_size,
              tm_bytes_transferred := bytes_transferred, tm_status := status, tm_src := src,
              tm_dest := dest, tm_group_id := group_id, tm_modified_fields := ctor_modified\<rparr>))"

section \<open>Setters\<close>

definition mark :: "string \<Rightarrow> TransferMetadata \<Rightarrow> TransferMetadata" where
  "mark k m = m\<lparr>tm_modified_fields := (tm_modified_fields m)(k := True)\<rparr>"

definition set_file_path :: "string \<Rightarrow> string \<Rightarrow> TransferMetadata \<Rightarrow> exn + TransferMetadata" where
  "set_file_path cwd p m = rbind (clean_path cwd p) (\<lambda>q. Inr (m\<lparr>tm_file_path := q\<rparr>))"

definition set_group_id :: "string \<Rightarrow> TransferMetadata \<Rightarrow> TransferMetadata" where
  "set_group_id g m = m\<lparr>tm_group_id := g\<rparr>"

definition set_src :: "IPFormat \<Rightarrow> TransferMetadata \<Rightarrow> exn + TransferMetadata" where
  "set_src source m =
     (if source \<noteq> tm_dest m then Inr (m\<lparr>tm_src := source\<rparr>)
      else Inl (InvalidArgument ''The source cannot be equal to the destination''))"

definition set_dest :: "IPFormat \<Rightarrow> TransferMetadata \<Rightarrow> exn + TransferMetadata" where
  "set_dest dest m =
     (if dest \<noteq> tm_src m then Inr (m\<lparr>tm_dest := dest\<rparr>)
      else Inl (InvalidArgument ''The destination cannot be equal to the source''))"

definition set_hash :: "string \<Rightarrow> TransferMetadata \<Rightarrow> TransferMetadata" where
  "set_hash h m = mark ''hash'' (m\<lparr>tm_hash := h\<rparr>)"

definition set_size :: "u64 \<Rightarrow> TransferMetadata \<Rightarrow> TransferMetadata" where
  "set_size n m = mark ''size'' (m\<lparr>tm_bytes_size := n\<rparr>)"

definition set_bytes_transferred :: "u64 \<Rightarrow> TransferMetadata \<Rightarrow> TransferMetadata" where
  "set_bytes_transferred n m = mark ''bytes_transferred'' (m\<lparr>tm_bytes_transferred := n\<rparr>)"

definition set_progress :: "int \<Rightarrow> TransferMetadata \<Rightarrow> exn + TransferMetadata" where
  "set_progress purcent m =
     (if purcent < 0 \<or> purcent > 100
      then Inl (InvalidArgument ''The progress must be between 0 and 100'')
      else Inr (set_bytes_transferred ((word_of_int purcent * tm_bytes_size m) div 100) m))"

definition set_status :: "i64 \<Rightarrow> e_status \<Rightarrow> TransferMetadata \<Rightarrow> TransferMetadata" where
  "set_status now st m =
     (let m1 = m\<lparr>tm_status := st\<rparr>;
          m2 = (if st = DOWNLOADING \<or> st = UPLOADING then m1\<lparr>tm_start_time := now\<rparr> else m1);
          m3 = (if st = FINISHED \<or> st = ERROR
                then m2\<lparr>tm_end_time := now, tm_duration := tm_duration m2 + (now - tm_start_time m2)\<rparr>
                else m2);
          m4 = (if st = PAUSED
                then m3\<lparr>tm_duration := tm_duration m3 + (now - tm_start_time m3)\<rparr> else m3)
      in mark ''status'' m4)"

definition set_magnet_link :: "string \<Rightarrow> TransferMetadata \<Rightarrow> TransferMetadata" where
  "set_magnet_link l m = mark ''magnet_link'' (m\<lparr>tm_magnet_link := l\<rparr>)"

definition set_error_code :: "string \<Rightarrow> TransferMetadata \<Rightarrow> TransferMetadata" where
  "set_error_code c m = mark ''error_code'' (m\<lparr>tm_error_code := c\<rparr>)"

definition set_transmission_speed :: "i32 \<Rightarrow> TransferMetadata \<Rightarrow> TransferMetadata" where
  "set_transmission_speed v m = mark ''transmission_speed'' (m\<lparr>tm_transmission_speed := v\<rparr>)"

definition set_duration :: "i64 \<Rightarrow> TransferMetadata \<Rightarrow> TransferMetadata" where
  "set_duration d m = mark ''duration'' (m\<lparr>tm_duration := d\<rparr>)"

definition set_start_time :: "i64 \<Rightarrow> TransferMetadata \<Rightarrow> TransferMetadata" where
  "set_start_time t m = mark ''start_time'' (m\<lparr>tm_start_time := t\<rparr>)"

definition set_end_time :: "i64 \<Rightarrow> TransferMetadata \<Rightarrow> TransferMetadata" where
  "set_end_time t m = mark ''end_time'' (m\<lparr>tm_end_time := t\<rparr>)"

section \<open>Getters and comparison\<close>

definition get_file_name :: "TransferMetadata \<Rightarrow> string" where
  "get_file_name m = filename (tm_file_path m)"

text \<open>\<open>static_cast<int>\<close> keeps the low 32 bits.\<close>

definition get_progress :: "TransferMetadata \<Rightarrow> int" where
  "get_progress m =
     (if tm_bytes_size m = 0 then 0
      else sint (ucast (tm_bytes_transferred m * 100 div tm_bytes_size m) :: i32))"

definition get_total_duration_ms :: "i64 \<Rightarrow> TransferMetadata \<Rightarrow> i64" where
  "get_total_duration_ms now m =
     (if tm_start_time m = 0 then 0
      else if tm_end_time m = 0 then tm_duration m + (now - tm_start_time m)
      else tm_end_time m - tm_start_time m)"

definition tm_eq :: "TransferMetadata \<Rightarrow> TransferMetadata \<Rightarrow> bool" where
  "tm_eq a b \<longleftrightarrow>
     path_eq (tm_file_path a) (tm_file_path b) \<and> tm_src a = tm_src b \<and> tm_dest a = tm_dest b
     \<and> tm_group_id a = tm_group_id b"

definition tm_less :: "TransferMetadata \<Rightarrow> TransferMetadata \<Rightarrow> bool" where
  "tm_less a b \<longleftrightarrow> tm_file_path a \<noteq> tm_file_path b"

section \<open>Export\<close>

definition field_if :: "bool \<Rightarrow> string \<Rightarrow> json \<Rightarrow> (string \<times> json) list" where
  "field_if b k v = (if b then [(k, v)] else [])"

definition mandatory_fields :: "TransferMetadata \<Rightarrow> (string \<times> json) list" where
  "mandatory_fields m =
     [(''file_path'', JStr (tm_file_path m)), (''source'', JStr (get_ip_port (tm_src m))),
      (''destination'', JStr (get_ip_port (tm_dest m))), (''group_id'', JStr (tm_group_id m))]"

definition export_fields :: "bool \<Rightarrow> TransferMetadata \<Rightarrow> (string \<times> json) list" where
  "export_fields force_all m =
     (let changed = (\<lambda>k. force_all \<or> tm_modified_fields m k)
      in mandatory_fields m
         @ field_if (changed ''hash'') ''hash'' (JStr (tm_hash m))
         @ field_if (changed ''size'') ''size'' (JInt (uint (tm_bytes_size m)))
         @ field_if (changed ''bytes_transferred'') ''transfered'' (JInt (uint (tm_bytes_transferred m)))
         @ field_if (changed ''transmission_speed'') ''speed'' (JInt (sint (tm_transmission_speed m)))
         @ field_if (changed ''status'') ''status'' (JStr (status_to_string (tm_status m)))
         @ field_if (changed ''magnet_link'') ''magnet_link'' (JStr (tm_magnet_link m))
         @ field_if (changed ''error_code'') ''error_code'' (JStr (tm_error_code m))
         @ field_if (changed ''start_time'') ''start_t'' (JInt (sint (tm_start_time m)))
         @ field_if (changed ''end_time'') ''end_t'' (JInt (sint (tm_end_time m)))
         @ field_if (changed ''duration'') ''duration'' (JInt (sint (tm_duration m))))"

text \<open>The exported text and the object afterwards: the modified marks are cleared.\<close>

definition export_to_string_partial ::
  "(json \<Rightarrow> string) \<Rightarrow> bool \<Rightarrow> TransferMetadata \<Rightarrow> string \<times> TransferMetadata" where
  "export_to_string_partial dump force_all m =
     (dump (jobject (export_fields force_all m)), m\<lparr>tm_modified_fields := (\<lambda>_. False)\<rparr>)"

definition tm_export_to_string :: "(json \<Rightarrow> string) \<Rightarrow> TransferMetadata \<Rightarrow> string \<times> TransferMetadata" where
  "tm_export_to_string dump m = export_to_string_partial dump True m"

section \<open>Lemmas\<close>

lemmas setter_defs =
  set_group_id_def set_hash_def set_size_def set_bytes_transferred_def set_magnet_link_def
  set_error_code_def set_transmission_speed_def set_duration_def set_start_time_def
  set_end_time_def mark_def

lemma tm_eq_refl [simp]: "tm_eq m m"
  by (simp add: tm_eq_def)

lemma tm_eq_sym: "tm_eq a b \<Longrightarrow> tm_eq b a"
  by (auto simp: tm_eq_def path_eq_sym)

lemma tm_eq_trans: "tm_eq a b \<Longrightarrow> tm_eq b c \<Longrightarrow> tm_eq a c"
  by (auto simp: tm_eq_def intro: path_eq_trans)

text \<open>What identifies a transfer: no setter but the four named ones touches it.\<close>

definition same_identity :: "TransferMetadata \<Rightarrow> TransferMetadata \<Rightarrow> bool" where
  "same_identity a b \<longleftrightarrow>
     tm_file_path a = tm_file_path b \<and> tm_src a = tm_src b \<and> tm_dest a = tm_dest b
     \<and> tm_group_id a = tm_group_id b"

lemma same_identity_refl [simp]: "same_identity m m"
  by (simp add: same_identity_def)

lemma same_identity_trans: "same_identity a b \<Longrightarrow> same_identity b c \<Longrightarrow> same_identity a c"
  by (simp add: same_identity_def)

lemma same_identity_setters [simp]:
  "same_identity m' (set_status now st m) = same_identity m' m"
  "same_identity m' (set_bytes_transferred n m) = same_identity m' m"
  "same_identity m' (set_error_code c m) = same_identity m' m"
  "same_identity m' (set_magnet_link l m) = same_identity m' m"
  "same_identity m' (set_transmission_speed v m) = same_identity m' m"
  by (auto simp: same_identity_def set_status_def setter_defs Let_def)

lemma tm_status_set_status [simp]: "tm_status (set_status now st m) = st"
  by (simp add: set_status_def mark_def Let_def)

lemma tm_status_other_setters [simp]:
  "tm_status (set_bytes_transferred n m) = tm_status m"
  "tm_status (set_error_code c m) = tm_status m"
  "tm_status (set_magnet_link l m) = tm_status m"
  "tm_status (set_transmission_speed v m) = tm_status m"
  "tm_status (set_group_id g m) = tm_status m"
  by (simp_all add: setter_defs)

lemma tm_path_setters [simp]:
  "tm_file_path (set_status now st m) = tm_file_path m"
  "tm_file_path (set_bytes_transferred n m) = tm_file_path m"
  "tm_file_path (set_error_code c m) = tm_file_path m"
  "tm_file_path (set_magnet_link l m) = tm_file_path m"
  "tm_file_path (set_transmission_speed v m) = tm_file_path m"
  "tm_file_path (set_group_id g m) = tm_file_path m"
  by (simp_all add: setter_defs set_status_def Let_def)

lemma export_fields_unmodified:
  "tm_modified_fields m = (\<lambda>_. False) \<Longrightarrow> export_fields False m = mandatory_fields m"
  by (simp add: export_fields_def field_if_def)

text \<open>Percentages in the range where nothing wraps.\<close>

lemma unat_scaled_progress:
  assumes "0 \<le> p" "p \<le> 100" "unat (s :: u64) * 100 < 2 ^ 64"
  shows "unat ((word_of_int p * s) div 100) = nat p * unat s div 100"
proof -
  have "nat p * unat s \<le> 100 * unat s" using assms by (intro mult_right_mono) auto
  then have lt: "nat p * unat s < 2 ^ 64" using assms(3) by linarith
  have "unat (word_of_int p :: u64) = nat p"
    using assms by (simp add: unsigned_of_int take_bit_int_eq_self nat_less_iff)
  then have "unat (word_of_int p * s) = nat p * unat s"
    using lt by (simp add: unat_word_ariths)
  then show ?thesis by (simp add: unat_div)
qed

lemma sint_ucast_small:
  assumes "unat (q :: u64) < 2 ^ 31"
  shows "sint (ucast q :: i32) = int (unat q)"
proof -
  have lt: "uint q < 2 ^ 31"
    using assms by (simp add: nat_less_iff flip: nat_uint_eq)
  have "uint (ucast q :: i32) = take_bit 32 (uint q)"
    by (simp add: unsigned_ucast_eq)
  also have "\<dots> = uint q"
    using lt by (intro take_bit_int_eq_self) auto
  finally have "sint (ucast q :: i32) = signed_take_bit 31 (uint q)"
    by (simp add: sint_uint)
  also have "\<dots> = uint q"
    using lt by (intro signed_take_bit_int_eq_self) (auto intro: order_trans[of _ 0])
  finally show ?thesis by simp
qed

lemma get_progress_nat:
  assumes "unat (tm_bytes_transferred m) * 100 < 2 ^ 64" "tm_bytes_size m \<noteq> 0"
    and "unat (tm_bytes_transferred m) * 100 div unat (tm_bytes_size m) < 2 ^ 31"
  shows "get_progress m = int (unat (tm_bytes_transferred m) * 100 div unat (tm_bytes_size m))"
proof -
  let ?q = "tm_bytes_transferred m * 100 div tm_bytes_size m"
  have q: "unat ?q = unat (tm_bytes_transferred m) * 100 div unat (tm_bytes_size m)"
    using assms(1) by (simp add: unat_div unat_word_ariths)
  then have "unat ?q < 2 ^ 31" using assms(3) by simp
  then show ?thesis using assms(2) q by (simp only: get_progress_def sint_ucast_small if_False)
qed

lemma progress_of_percent:
  fixes p s :: nat
  assumes "p \<le> 100" "100 \<le> s"
  shows "p * s div 100 \<le> s" "(p * s div 100) * 100 div s \<le> p" "p \<le> (p * s div 100) * 100 div s + 1"
proof -
  let ?b = "p * s div 100"
  have "p * s \<le> 100 * s" using assms(1) by simp
  then show "?b \<le> s" by linarith
  have le: "?b * 100 \<le> p * s" by simp
  have "0 < s" using assms(2) by simp
  then show "?b * 100 div s \<le> p"
    using div_le_mono[OF le, of s] by simp
  have "p * s < ?b * 100 + 100" by (metis add.commute dividend_less_div_times zero_less_numeral)
  also have "\<dots> \<le> ?b * 100 + s" using assms(2) by simp
  finally have "p * s div s \<le> (?b * 100 + s) div s" by (intro div_le_mono) simp
  moreover have "(?b * 100 + s) div s = ?b * 100 div s + 1" using \<open>0 < s\<close> by (rule div_add_self2[OF less_imp_neq[THEN not_sym]])
  ultimately show "p \<le> ?b * 100 div s + 1" using \<open>0 < s\<close> by simp
qed

section \<open>Properties\<close>



text \<open>
  An export forgets what was modified. Whatever a first export sent, a second partial
  export with no setter in between carries the four identifying fields only, so the second of
  two receivers (or a retry after a lost message) learns nothing of the change.
\<close>

theorem second_partial_export_is_identity_only:
  "fst (export_to_string_partial dump False (snd (export_to_string_partial dump force_all m)))
     = dump (jobject [(''file_path'', JStr (tm_file_path m)),
                      (''source'', JStr (get_ip_port (tm_src m))),
                      (''destination'', JStr (get_ip_port (tm_dest m))),
                      (''group_id'', JStr (tm_group_id m))])"
  by (simp add: export_to_string_partial_def export_fields_unmodified mandatory_fields_def)

text \<open>
  A transfer started at \<open>t0\<close>, paused at \<open>t1\<close>, resumed at \<open>t2\<close> and finished at
  \<open>t3\<close> accumulates the two active periods in its duration field, but the total duration it
  reports is the last active period only.
\<close>

theorem total_duration_forgets_paused_part:
  assumes "t2 \<noteq> 0" "t3 \<noteq> 0" "tm_duration m = 0"
  shows "let m' = set_status t3 FINISHED (set_status t2 UPLOADING
                    (set_status t1 PAUSED (set_status t0 UPLOADING m)))
         in tm_duration m' = (t1 - t0) + (t3 - t2) \<and> get_total_duration_ms now m' = t3 - t2"
  using assms by (simp add: set_status_def mark_def get_total_duration_ms_def Let_def)

theorem total_duration_forgets_paused_part_witness:
  "let m' = set_status 70 FINISHED (set_status 50 UPLOADING
              (set_status 40 PAUSED (set_status 10 UPLOADING default_tm)))
   in tm_duration m' = (40 - 10) + (70 - 50) \<and> get_total_duration_ms 99 m' = 70 - 50"
  by (rule total_duration_forgets_paused_part) (simp_all add: default_tm_def)

end
