(* ===== verification/World.thy ===== *)
theory World
  imports Transfer_Metadata
begin

text \<open>
  What the transfer components share: the store of \<open>TransferMetadata\<close> objects (reached through
  \<open>std::shared_ptr\<close>, so a group, a session and the bookkeeper may hold the same object), the
  trace of external events, and the code outside the repository as one record of parameters
  \<open>env\<close>. Every answer of the outside may depend on the trace so far. Reported issues
  (\<open>common/errors_declaration.hpp\<close>) are events too; the debug log is not modelled.
\<close>

section \<open>Issues, messages and events\<close>

datatype issue =
    InvalidGroupTransferIDError string string
  | NotificationWrongDestinationError string string string
  | InvalidNotificationReceivedError string string string
  | NotHandledNotificationError string string string
  | InvalidProtocolError string string
  | ConnectionNotFoundError string
  | NotificationSendError string
  | TransferClientNotInitializedError string
  | SessionIDNotFoundInClientError string string
  | SessionTypeNotSupportedError string
  | SessionAccessToIncorrectActionError string string
  | SessionWrongStateTransitionError string string string string
  | FileForTransferNotExistError string string
  | InvalidSourceCommandRequestError string
  | ErrorSCPDownloadError string
  | RCloneNotSupportError string
  | BittorrentPeerDisconnectedError string
  | BittorrentError string
  | BittorrentInvalidMagnetLinkError string
  | BittorrentInvalidTorrentFileError string
  | BittorrentSaveResumeFileError string
  | BittorrentLoadResumeFileError string
  | ConfigError string
  | MetadataFileNotFoundError string
  | MetadataNotFoundInGroupError string string
  | MetadataNotExpectedInGroupError string string
  | MetadataReadingWrongKeyValueDataError string string

datatype severity = Warn | Err | Fatal

record NotificationData =
  m_source_id :: string
  m_target_id :: string
  m_notification :: string
  m_data :: string

definition NotificationData_new ::
  "string \<Rightarrow> string \<Rightarrow> e_notification_type \<Rightarrow> string \<Rightarrow> NotificationData" where
  "NotificationData_new source_id target_id notif dat =
     \<lparr>m_source_id = source_id, m_target_id = target_id,
      m_notification = notification_to_string notif, m_data = dat\<rparr>"

datatype event =
    EvIssue severity issue
  | EvClock i64
  | EvSleep nat
  | EvSend string NotificationData "bool outcome"
  | EvReceive string "NotificationData option outcome"
  | EvLookup string "string list outcome"
  | EvFile string string
  | EvWrite string string
  | EvExec string int
  | EvRpc string string int string
  | EvTorrent string string

type_synonym trace = "event list"

section \<open>The code outside the repository\<close>

text \<open>
  The last two fields are the contents of memory the sources read before they set it: the
  protocol of a group built from text, and the uploader flag of an SCP object without a user.
\<close>

datatype dir_entry = RegularFile string | Directory string | OtherEntry string

datatype magnet_result = MagnetOk | MagnetErrorCode string | MagnetSystemError string

record env =
  env_cwd :: string
  json_parse :: "string \<Rightarrow> json option"
  json_dump :: "json \<Rightarrow> string"
  clock_ms :: "trace \<Rightarrow> i64"
  io_try_send :: "trace \<Rightarrow> string \<Rightarrow> NotificationData \<Rightarrow> bool outcome"
  io_try_receive :: "trace \<Rightarrow> string \<Rightarrow> int \<Rightarrow> NotificationData option outcome"
  io_connections :: "trace \<Rightarrow> string \<Rightarrow> string list outcome"
  fs_exists :: "trace \<Rightarrow> string \<Rightarrow> bool outcome"
  fs_size :: "trace \<Rightarrow> string \<Rightarrow> u64 outcome"
  fs_text :: "trace \<Rightarrow> string \<Rightarrow> string"
  fs_binary :: "trace \<Rightarrow> string \<Rightarrow> string outcome"
  fs_entries :: "trace \<Rightarrow> string \<Rightarrow> dir_entry list outcome"
  fs_make_dirs :: "trace \<Rightarrow> string \<Rightarrow> unit outcome"
  fs_remove :: "trace \<Rightarrow> string \<Rightarrow> unit outcome"
  fs_relative :: "trace \<Rightarrow> string \<Rightarrow> string \<Rightarrow> string outcome"
  sys_exec :: "trace \<Rightarrow> string \<Rightarrow> int"
  rclone_rpc :: "trace \<Rightarrow> string \<Rightarrow> string \<Rightarrow> int \<times> string"
  lt_magnet :: "trace \<Rightarrow> string \<Rightarrow> magnet_result"
  lt_torrent :: "trace \<Rightarrow> string \<Rightarrow> string + string"
  lt_file_magnet :: "trace \<Rightarrow> string \<Rightarrow> string option \<times> string"
  lt_names :: "trace \<Rightarrow> string option list"
  lt_resume :: "trace \<Rightarrow> string \<Rightarrow> unit outcome"
  uninit_protocol :: e_protocol_type
  uninit_bool :: bool

section \<open>The shared store\<close>

type_synonym tm_ref = nat

record world =
  w_cells :: "tm_ref \<Rightarrow> TransferMetadata"
  w_next :: tm_ref
  w_trace :: trace

definition world_init :: world where
  "world_init = \<lparr>w_cells = (\<lambda>_. default_tm), w_next = 0, w_trace = []\<rparr>"

definition log_event :: "event \<Rightarrow> (world, unit) action" where
  "log_event e = modifies (\<lambda>w. w\<lparr>w_trace := w_trace w @ [e]\<rparr>)"

text \<open>One call to the outside: its answer, from the trace so far, and the event it leaves.\<close>

definition ask :: "(trace \<Rightarrow> 'a) \<Rightarrow> ('a \<Rightarrow> event) \<Rightarrow> (world, 'a) action" where
  "ask f ev w = (Ret (f (w_trace w)), w\<lparr>w_trace := w_trace w @ [ev (f (w_trace w))]\<rparr>)"

definition ers_warning :: "issue \<Rightarrow> (world, unit) action" where
  "ers_warning i = log_event (EvIssue Warn i)"

definition ers_error :: "issue \<Rightarrow> (world, unit) action" where
  "ers_error i = log_event (EvIssue Err i)"

definition ers_fatal :: "issue \<Rightarrow> (world, unit) action" where
  "ers_fatal i = log_event (EvIssue Fatal i)"

definition sleep_ms :: "nat \<Rightarrow> (world, unit) action" where
  "sleep_ms n = log_event (EvSleep n)"

definition now_ms :: "env \<Rightarrow> (world, i64) action" where
  "now_ms E = ask (clock_ms E) EvClock"

definition alloc :: "TransferMetadata \<Rightarrow> (world, tm_ref) action" where
  "alloc m w = (Ret (w_next w), w\<lparr>w_cells := (w_cells w)(w_next w := m), w_next := Suc (w_next w)\<rparr>)"

definition cell :: "tm_ref \<Rightarrow> (world, TransferMetadata) action" where
  "cell r = reads (\<lambda>w. w_cells w r)"

definition update_cell :: "tm_ref \<Rightarrow> (TransferMetadata \<Rightarrow> TransferMetadata) \<Rightarrow> (world, unit) action" where
  "update_cell r f = modifies (\<lambda>w. w\<lparr>w_cells := (w_cells w)(r := f (w_cells w r))\<rparr>)"

definition try_update_cell ::
  "tm_ref \<Rightarrow> (TransferMetadata \<Rightarrow> exn + TransferMetadata) \<Rightarrow> (world, unit) action" where
  "try_update_cell r f =
     bind (cell r) (\<lambda>m. bind (of_result (f m)) (\<lambda>m'. update_cell r (\<lambda>_. m')))"

text \<open>\<open>set_status\<close> reads the clock in three of its branches.\<close>

definition timed :: "e_status \<Rightarrow> bool" where
  "timed st \<longleftrightarrow> st \<in> {DOWNLOADING, UPLOADING, FINISHED, ERROR, PAUSED}"

definition set_status_at :: "env \<Rightarrow> tm_ref \<Rightarrow> e_status \<Rightarrow> (world, unit) action" where
  "set_status_at E r st =
     (if timed st
      then bind (now_ms E) (\<lambda>t. update_cell r (set_status t st))
      else update_cell r (set_status 0 st))"

lemmas world_ops [model_defs] =
  log_event_def ask_def ers_warning_def ers_error_def ers_fatal_def sleep_ms_def now_ms_def
  alloc_def cell_def update_cell_def

section \<open>Frames\<close>

text \<open>
  \<open>grows\<close>: the trace and the store only grow. \<open>only_cells S\<close>: nothing is allocated, the
  objects outside \<open>S\<close> keep their value and every object keeps its identity.
\<close>

definition grows :: "world \<Rightarrow> world \<Rightarrow> bool" where
  "grows w w' \<longleftrightarrow> (\<exists>t. w_trace w' = w_trace w @ t) \<and> w_next w \<le> w_next w'"

definition only_cells :: "tm_ref set \<Rightarrow> world \<Rightarrow> world \<Rightarrow> bool" where
  "only_cells S w w' \<longleftrightarrow>
     (\<exists>t. w_trace w' = w_trace w @ t) \<and> w_next w' = w_next w
     \<and> (\<forall>r. r \<notin> S \<longrightarrow> w_cells w' r = w_cells w r)
     \<and> (\<forall>r. same_identity (w_cells w r) (w_cells w' r))"

interpretation grows: frame_order grows
  by unfold_locales (auto simp: grows_def)

interpretation only_cells: frame_order "only_cells S"
proof
  show "only_cells S w w" for w
    by (simp add: only_cells_def)
  show "only_cells S w v" if "only_cells S w u" "only_cells S u v" for w u v
    using that by (auto simp: only_cells_def) (meson same_identity_trans)
qed

lemma only_cells_mono: "only_cells S w w' \<Longrightarrow> S \<subseteq> T \<Longrightarrow> only_cells T w w'"
  by (auto simp: only_cells_def)

lemma keeps_only_mono: "keeps (only_cells S) f \<Longrightarrow> S \<subseteq> T \<Longrightarrow> keeps (only_cells T) f"
  by (auto simp: keeps_def intro: only_cells_mono)

lemma only_cells_empty:
  "only_cells {} w w' \<Longrightarrow> w_cells w' = w_cells w \<and> w_next w' = w_next w"
  by (auto simp: only_cells_def)

lemma keeps_ask: "keeps (only_cells S) (ask f ev)"
  by (simp add: keeps_def ask_def only_cells_def)

lemma keeps_log_event: "keeps (only_cells S) (log_event e)"
  by (simp add: keeps_def log_event_def only_cells_def)

lemma keeps_cell: "keeps (only_cells S) (cell r)"
  by (simp add: cell_def only_cells.keeps_reads)

lemma keeps_update_cell:
  "r \<in> S \<Longrightarrow> (\<And>m. same_identity m (f m)) \<Longrightarrow> keeps (only_cells S) (update_cell r f)"
  by (auto simp: keeps_def update_cell_def only_cells_def)

lemma keeps_set_status_at: "r \<in> S \<Longrightarrow> keeps (only_cells S) (set_status_at E r st)"
  unfolding set_status_at_def now_ms_def
  by (intro only_cells.frame_rules keeps_ask keeps_update_cell) simp_all

lemmas only_cells_rules =
  only_cells.frame_rules keeps_ask keeps_log_event keeps_cell keeps_set_status_at

lemma keeps_issues:
  "keeps (only_cells S) (ers_warning i)" "keeps (only_cells S) (ers_error i)"
  "keeps (only_cells S) (ers_fatal i)" "keeps (only_cells S) (sleep_ms n)"
  by (simp_all add: ers_warning_def ers_error_def ers_fatal_def sleep_ms_def keeps_log_event)

section \<open>Effects\<close>

lemma ask_Ret: "ask f ev w = (Ret (f (w_trace w)), w\<lparr>w_trace := w_trace w @ [ev (f (w_trace w))]\<rparr>)"
  by (simp add: ask_def)

lemma set_status_untimed: "\<not> timed st \<Longrightarrow> set_status t st = set_status 0 st"
  by (rule ext) (simp add: timed_def set_status_def Let_def)

lemma run_set_status_at:
  "set_status_at E r st w =
     (Ret (), w\<lparr>w_cells := (w_cells w)(r := set_status (clock_ms E (w_trace w)) st (w_cells w r)),
                w_trace := w_trace w @ (if timed st then [EvClock (clock_ms E (w_trace w))] else [])\<rparr>)"
  by (simp add: set_status_at_def model_defs set_status_untimed[of st "clock_ms E (w_trace w)"])

section \<open>A concrete environment\<close>

text \<open>
  An outside in which every call answers at once: sends are delivered, nothing is received, no
  file exists, every command succeeds. Concrete runs of the model update it as they need.
\<close>

definition quiet_env :: env where
  "quiet_env =
     \<lparr>env_cwd = ''/home'', json_parse = (\<lambda>_. None), json_dump = (\<lambda>_. ''json''),
      clock_ms = (\<lambda>t. of_nat (length t)), io_try_send = (\<lambda>_ _ _. Ret True),
      io_try_receive = (\<lambda>_ _ _. Ret None), io_connections = (\<lambda>_ _. Ret []),
      fs_exists = (\<lambda>_ _. Ret False), fs_size = (\<lambda>_ _. Ret 0), fs_text = (\<lambda>_ _. []),
      fs_binary = (\<lambda>_ _. Ret []), fs_entries = (\<lambda>_ _. Ret []), fs_make_dirs = (\<lambda>_ _. Ret ()),
      fs_remove = (\<lambda>_ _. Ret ()), fs_relative = (\<lambda>_ p _. Ret p), sys_exec = (\<lambda>_ _. 0),
      rclone_rpc = (\<lambda>_ _ _. (200, [])), lt_magnet = (\<lambda>_ _. MagnetOk),
      lt_torrent = (\<lambda>_ p. Inr p), lt_file_magnet = (\<lambda>_ p. (None, p)), lt_names = (\<lambda>_. []),
      lt_resume = (\<lambda>_ _. Ret ()), uninit_protocol = dummy, uninit_bool = False\<rparr>"

text \<open>The same, with a JSON library that knows one value and its text.\<close>

definition json_env :: "string \<Rightarrow> json \<Rightarrow> env" where
  "json_env txt j =
     quiet_env\<lparr>json_parse := (\<lambda>s. if s = txt then Some j else None),
               json_dump := (\<lambda>j'. if j' = j then txt else ''?'')\<rparr>"

end
