(* ===== verification/Metadata_IO.thy ===== *)
theory Metadata_IO
  imports World
begin

text \<open>
  The half of \<open>src/common/transfer_metadata.cpp\<close> that touches the outside: reading a transfer
  back from its JSON text (which reads the clock and may report an issue), and the metadata
  files. The operations work on an object of the store, so that a load that throws half way
  leaves the fields it had already set.
\<close>

section \<open>Model\<close>

definition parse_json :: "env \<Rightarrow> string \<Rightarrow> (world, json) action" where
  "parse_json E s = (case json_parse E s of None \<Rightarrow> throw JsonParseError | Some j \<Rightarrow> return j)"

definition load_field :: "json \<Rightarrow> string \<Rightarrow> (json \<Rightarrow> (world, unit) action) \<Rightarrow> (world, unit) action" where
  "load_field j k step = (case jmember j k of None \<Rightarrow> return () | Some v \<Rightarrow> step v)"

definition load_status :: "env \<Rightarrow> tm_ref \<Rightarrow> string \<Rightarrow> (world, unit) action" where
  "load_status E r s =
     (case string_to_status s of
        Some st \<Rightarrow> set_status_at E r st
      | None \<Rightarrow> ers_error (InvalidProtocolError ''reading metadata string process'' s))"

text \<open>The members \<open>from_string\<close> looks for, in its order, with what it does with each.\<close>

definition tm_load_steps :: "env \<Rightarrow> tm_ref \<Rightarrow> (string \<times> (json \<Rightarrow> (world, unit) action)) list" where
  "tm_load_steps E r =
     [(''file_path'', \<lambda>v. bind (of_result (jget_string v)) (\<lambda>s. try_update_cell r (set_file_path (env_cwd E) s))),
      (''hash'', \<lambda>v. bind (of_result (jget_string v)) (\<lambda>s. update_cell r (set_hash s))),
      (''size'', \<lambda>v. bind (of_result (jget_int v)) (\<lambda>i. update_cell r (set_size (word_of_int i)))),
      (''transfered'', \<lambda>v. bind (of_result (jget_int v)) (\<lambda>i. update_cell r (set_bytes_transferred (word_of_int i)))),
      (''speed'', \<lambda>v. bind (of_result (jget_int v)) (\<lambda>i. update_cell r (set_transmission_speed (word_of_int i)))),
      (''source'', \<lambda>v. bind (of_result (rbind (jget_string v) (\<lambda>s. IPFormat_new s 0))) (\<lambda>ip. try_update_cell r (set_src ip))),
      (''destination'', \<lambda>v. bind (of_result (rbind (jget_string v) (\<lambda>s. IPFormat_new s 0))) (\<lambda>ip. try_update_cell r (set_dest ip))),
      (''status'', \<lambda>v. bind (of_result (jget_string v)) (load_status E r)),
      (''magnet_link'', \<lambda>v. bind (of_result (jget_string v)) (\<lambda>s. update_cell r (set_magnet_link s))),
      (''group_id'', \<lambda>v. bind (of_result (jget_string v)) (\<lambda>s. update_cell r (set_group_id s))),
      (''error_code'', \<lambda>v. bind (of_result (jget_string v)) (\<lambda>s. update_cell r (set_error_code s))),
      (''start_t'', \<lambda>v. bind (of_result (jget_int v)) (\<lambda>i. update_cell r (set_start_time (word_of_int i)))),
      (''end_t'', \<lambda>v. bind (of_result (jget_int v)) (\<lambda>i. update_cell r (set_end_time (word_of_int i)))),
      (''duration'', \<lambda>v. bind (of_result (jget_int v)) (\<lambda>i. update_cell r (set_duration (word_of_int i))))]"

definition tm_load_json :: "env \<Rightarrow> tm_ref \<Rightarrow> json \<Rightarrow> (world, unit) action" where
  "tm_load_json E r j = for_each (\<lambda>(k, step). load_field j k step) (tm_load_steps E r)"

definition tm_from_string :: "env \<Rightarrow> tm_ref \<Rightarrow> string \<Rightarrow> (world, unit) action" where
  "tm_from_string E r str = bind (parse_json E str) (tm_load_json E r)"

text \<open>\<open>std::make_shared<TransferMetadata>(text, false)\<close>.\<close>

definition TransferMetadata_of_string :: "env \<Rightarrow> string \<Rightarrow> (world, tm_ref) action" where
  "TransferMetadata_of_string E str =
     bind (alloc default_tm) (\<lambda>r. seq (tm_from_string E r str) (return r))"

definition tm_file_extension :: string where
  "tm_file_extension = ''.tmetadata''"

text \<open>The stream \<open>open\<close> does not throw: a file that cannot be opened reads as the empty text.\<close>

definition tm_load_metadata_from_meta_file :: "env \<Rightarrow> tm_ref \<Rightarrow> string \<Rightarrow> (world, unit) action" where
  "tm_load_metadata_from_meta_file E r src =
     bind (ask (\<lambda>t. fs_text E t src) (\<lambda>_. EvFile ''read'' src)) (tm_from_string E r)"

definition TransferMetadata_of_file :: "env \<Rightarrow> string \<Rightarrow> (world, tm_ref) action" where
  "TransferMetadata_of_file E src =
     bind (alloc default_tm) (\<lambda>r. seq (tm_load_metadata_from_meta_file E r src) (return r))"

text \<open>Exports of an object of the store: the text, and the marks cleared.\<close>

definition tm_export_partial :: "env \<Rightarrow> bool \<Rightarrow> tm_ref \<Rightarrow> (world, string) action" where
  "tm_export_partial E force_all r =
     bind (cell r) (\<lambda>m.
       seq (update_cell r (\<lambda>m. snd (export_to_string_partial (json_dump E) force_all m)))
         (return (fst (export_to_string_partial (json_dump E) force_all m))))"

definition tm_generate_metadata_file :: "env \<Rightarrow> tm_ref \<Rightarrow> string \<Rightarrow> (world, unit) action" where
  "tm_generate_metadata_file E r dest =
     bind (cell r) (\<lambda>m.
       bind (tm_export_partial E True r) (\<lambda>s.
         log_event (EvWrite (path_append dest (get_file_name m) @ tm_file_extension) s)))"

section \<open>Loading\<close>

lemma load_field_None: "jmember j k = None \<Longrightarrow> load_field j k step = return ()"
  by (simp add: load_field_def)

lemma load_field_Some: "jmember j k = Some v \<Longrightarrow> load_field j k step = step v"
  by (simp add: load_field_def)

lemma run_update_cell [simp]:
  "update_cell r f w = (Ret (), w\<lparr>w_cells := (w_cells w)(r := f (w_cells w r))\<rparr>)"
  by (simp add: update_cell_def)

lemma run_try_update_cell_Inr:
  "f (w_cells w r) = Inr m' \<Longrightarrow>
     try_update_cell r f w = (Ret (), w\<lparr>w_cells := (w_cells w)(r := m')\<rparr>)"
  by (simp add: try_update_cell_def cell_def)

lemma run_export_partial:
  "tm_export_partial E force_all r w =
     (Ret (json_dump E (jobject (export_fields force_all (w_cells w r)))),
      w\<lparr>w_cells := (w_cells w)(r := (w_cells w r)\<lparr>tm_modified_fields := (\<lambda>_. False)\<rparr>)\<rparr>)"
  by (simp add: tm_export_partial_def cell_def export_to_string_partial_def)

lemma keeps_export_partial: "r \<in> S \<Longrightarrow> keeps (only_cells S) (tm_export_partial E force_all r)"
  by (auto simp: keeps_def run_export_partial only_cells_def same_identity_def)

lemma export_fields_True_member:
  "map_of (rev (export_fields True m)) k =
     map_of [(''file_path'', JStr (tm_file_path m)), (''source'', JStr (get_ip_port (tm_src m))),
             (''destination'', JStr (get_ip_port (tm_dest m))), (''group_id'', JStr (tm_group_id m)),
             (''hash'', JStr (tm_hash m)), (''size'', JInt (uint (tm_bytes_size m))),
             (''transfered'', JInt (uint (tm_bytes_transferred m))),
             (''speed'', JInt (sint (tm_transmission_speed m))),
             (''status'', JStr (status_to_string (tm_status m))),
             (''magnet_link'', JStr (tm_magnet_link m)), (''error_code'', JStr (tm_error_code m)),
             (''start_t'', JInt (sint (tm_start_time m))), (''end_t'', JInt (sint (tm_end_time m))),
             (''duration'', JInt (sint (tm_duration m)))] k"
  by (auto simp: export_fields_def mandatory_fields_def field_if_def)

text \<open>Well-formed transfers: an absolute path without \<open>./\<close>, proper and different ends.\<close>

definition tm_wf :: "TransferMetadata \<Rightarrow> bool" where
  "tm_wf m \<longleftrightarrow> clean_abs (tm_file_path m) \<and> valid_ip (tm_src m) \<and> valid_ip (tm_dest m)
     \<and> tm_src m \<noteq> default_ip \<and> tm_dest m \<noteq> tm_src m"

text \<open>The exported data of an object, without the marks.\<close>

definition tm_data :: "TransferMetadata \<Rightarrow> TransferMetadata" where
  "tm_data m = m\<lparr>tm_modified_fields := (\<lambda>_. False)\<rparr>"

lemma word_of_int_round_trip [simp]:
  "word_of_int (uint (x :: 'a::len word)) = x" "word_of_int (sint (y :: 'b::len word)) = y"
  by simp_all

lemma set_file_path_clean [simp]:
  "clean_abs p \<Longrightarrow> set_file_path cwd p m = Inr (m\<lparr>tm_file_path := p\<rparr>)"
  by (simp add: set_file_path_def)

lemma run_load_status:
  "load_status E r (status_to_string st) = set_status_at E r st"
  by (simp add: load_status_def)

lemma bind_of_result_Inr [simp]: "bind (of_result (Inr x)) f = f x"
  by simp

text \<open>
  Reading back a complete export: every field of the object is restored, whatever the object
  held before, as long as its old destination is not the new source.
\<close>

lemma load_full_export:
  assumes "tm_wf m" "tm_src m \<noteq> tm_dest (w_cells w r)"
  shows "\<exists>w'. tm_load_json E r (jobject (export_fields True m)) w = (Ret (), w')
         \<and> w_trace w' = w_trace w @ (if timed (tm_status m) then [EvClock (clock_ms E (w_trace w))] else [])
         \<and> w_next w' = w_next w \<and> w_cells w' = (w_cells w)(r := w_cells w' r)
         \<and> tm_data (w_cells w' r) = tm_data m"
proof -
  have wf: "clean_abs (tm_file_path m)" "valid_ip (tm_src m)" "valid_ip (tm_dest m)"
    "tm_dest m \<noteq> tm_src m"
    using assms(1) by (simp_all add: tm_wf_def)
  show ?thesis
    unfolding tm_load_json_def tm_load_steps_def
    using wf assms(2)
    by (simp add: load_field_def export_fields_True_member run_try_update_cell_Inr run_load_status
        run_set_status_at set_src_def set_dest_def setter_defs)
      (simp add: tm_data_def set_status_def mark_def Let_def)
qed

text \<open>
  The law of the JSON library the round trips rely on, for one value: the text of that value
  parses back to it.
\<close>

definition json_text_ok :: "env \<Rightarrow> json \<Rightarrow> bool" where
  "json_text_ok E j \<longleftrightarrow> json_parse E (json_dump E j) = Some j"

lemma parse_dump: "json_text_ok E j \<Longrightarrow> parse_json E (json_dump E j) = return j"
  by (simp add: json_text_ok_def parse_json_def)

lemma text_builds_object:
  assumes "tm_wf m" "json_text_ok E (jobject (export_fields True m))"
  shows "\<exists>w'. TransferMetadata_of_string E (json_dump E (jobject (export_fields True m))) w = (Ret (w_next w), w')
      \<and> tm_data (w_cells w' (w_next w)) = tm_data m \<and> w_next w' = Suc (w_next w)
      \<and> (\<forall>q. q \<noteq> w_next w \<longrightarrow> w_cells w' q = w_cells w q)"
proof -
  let ?w = "w\<lparr>w_cells := (w_cells w)(w_next w := default_tm), w_next := Suc (w_next w)\<rparr>"
  have "tm_src m \<noteq> tm_dest (w_cells ?w (w_next w))"
    using assms(1) by (simp add: tm_wf_def default_tm_def)
  then obtain w' where w': "tm_load_json E (w_next w) (jobject (export_fields True m)) ?w = (Ret (), w')"
      "w_next w' = w_next ?w" "w_cells w' = (w_cells ?w)(w_next w := w_cells w' (w_next w))"
      "tm_data (w_cells w' (w_next w)) = tm_data m"
    using load_full_export[OF assms(1), of ?w "w_next w" E] by blast
  have "TransferMetadata_of_string E (json_dump E (jobject (export_fields True m))) w = (Ret (w_next w), w')"
    using w'(1) parse_dump[OF assms(2)]
    by (simp add: TransferMetadata_of_string_def alloc_def tm_from_string_def)
  moreover have "w_cells w' q = w_cells w q" if "q \<noteq> w_next w" for q
    using fun_cong[OF w'(3), of q] that by simp
  ultimately show ?thesis using w'(2,4) by auto
qed

section \<open>Properties\<close>

text \<open>
  C26: the JSON text of a complete export of a well-formed transfer, received by another
  component, builds a fresh object that holds the same data: path, hash, size, progress, speed,
  status, both ends, magnet link, group, error code and the three times. Nothing else in the
  store changes.
\<close>

theorem transfer_metadata_text_roundtrip:
  assumes "tm_wf m" "json_text_ok E (jobject (export_fields True m))"
  shows "\<exists>w'. TransferMetadata_of_string E (fst (tm_export_to_string (json_dump E) m)) w = (Ret (w_next w), w')
           \<and> tm_data (w_cells w' (w_next w)) = tm_data m \<and> w_next w' = Suc (w_next w)
           \<and> (\<forall>q. q \<noteq> w_next w \<longrightarrow> w_cells w' q = w_cells w q)"
  using text_builds_object[OF assms, of w]
  by (simp add: tm_export_to_string_def export_to_string_partial_def)

definition sample_tm :: TransferMetadata where
  "sample_tm = default_tm\<lparr>tm_file_path := ''/data/run1.hdf5'', tm_bytes_size := 4096,
     tm_src := \<lparr>m_ip = ''10.0.0.1'', m_port = 5000\<rparr>, tm_dest := \<lparr>m_ip = ''10.0.0.2'', m_port = 5001\<rparr>,
     tm_group_id := ''g1'', tm_status := PAUSED\<rparr>"

lemma sample_tm_wf: "tm_wf sample_tm"
  by code_simp

theorem transfer_metadata_text_roundtrip_witness:
  "\<exists>w'. TransferMetadata_of_string (json_env ''txt'' (jobject (export_fields True sample_tm)))
          (fst (tm_export_to_string (json_dump (json_env ''txt'' (jobject (export_fields True sample_tm)))) sample_tm))
          world_init = (Ret 0, w')
     \<and> tm_data (w_cells w' 0) = tm_data sample_tm"
proof -
  have j: "json_text_ok (json_env ''txt'' (jobject (export_fields True sample_tm)))
             (jobject (export_fields True sample_tm))"
    by (simp add: json_text_ok_def json_env_def)
  show ?thesis
    using transfer_metadata_text_roundtrip[OF sample_tm_wf j, of world_init]
    by (auto simp: world_init_def)
qed

end
