(* ===== verification/Group_Metadata.thy ===== *)
theory Group_Metadata
  imports Metadata_IO
begin

text \<open>
  \<open>include/snbmodules/group_metadata.hpp\<close> and \<open>src/common/group_metadata.cpp\<close>: a group of
  transfers. A group holds references into the store, so copying a group shares its transfers.
  The operations act on the pair of the group and the world.
\<close>

section \<open>Model\<close>

record GroupMetadata =
  gm_group_id :: string
  gm_protocol :: e_protocol_type
  gm_protocol_options :: json
  gm_transfers_meta :: "tm_ref list"
  gm_expected_files :: "string list"
  gm_source_id :: string
  gm_source_ip :: IPFormat

type_synonym group_world = "GroupMetadata \<times> world"

definition on_world :: "(world, 'a) action \<Rightarrow> ('x \<times> world, 'a) action" where
  "on_world f = (\<lambda>(x, w). case f w of (r, w') \<Rightarrow> (r, (x, w')))"

definition on_self :: "('x \<Rightarrow> 'x) \<Rightarrow> ('x \<times> world, unit) action" where
  "on_self f = (\<lambda>(x, w). (Ret (), (f x, w)))"

definition self :: "('x \<times> world, 'x) action" where
  "self = (\<lambda>(x, w). (Ret x, (x, w)))"

definition gm_file_extension :: string where
  "gm_file_extension = ''.gmetadata''"

definition GroupMetadata_new ::
  "string \<Rightarrow> string \<Rightarrow> IPFormat \<Rightarrow> e_protocol_type \<Rightarrow> json \<Rightarrow> tm_ref list \<Rightarrow> GroupMetadata" where
  "GroupMetadata_new group_id source source_ip protocol protocol_options transfers_meta =
     \<lparr>gm_group_id = group_id, gm_protocol = protocol, gm_protocol_options = protocol_options,
      gm_transfers_meta = transfers_meta, gm_expected_files = [], gm_source_id = source,
      gm_source_ip = source_ip\<rparr>"

text \<open>The loading constructor leaves \<open>m_protocol\<close> uninitialised: its value is an argument.\<close>

definition GroupMetadata_blank :: "e_protocol_type \<Rightarrow> GroupMetadata" where
  "GroupMetadata_blank uninit = GroupMetadata_new [] [] default_ip uninit JNull []"

definition get_group_status :: "(tm_ref \<Rightarrow> TransferMetadata) \<Rightarrow> GroupMetadata \<Rightarrow> e_status" where
  "get_group_status cells g =
     foldl (\<lambda>st r. if st < tm_status (cells r) then tm_status (cells r) else st) PREPARING
       (gm_transfers_meta g)"

definition gm_eq :: "GroupMetadata \<Rightarrow> GroupMetadata \<Rightarrow> bool" where
  "gm_eq a b \<longleftrightarrow> gm_group_id a = gm_group_id b"

definition gm_less :: "GroupMetadata \<Rightarrow> GroupMetadata \<Rightarrow> bool" where
  "gm_less a b \<longleftrightarrow> gm_group_id a \<noteq> gm_group_id b"

definition set_transfers_meta :: "tm_ref list \<Rightarrow> GroupMetadata \<Rightarrow> GroupMetadata" where
  "set_transfers_meta rs g = g\<lparr>gm_transfers_meta := rs\<rparr>"

definition set_expected_files :: "string list \<Rightarrow> GroupMetadata \<Rightarrow> GroupMetadata" where
  "set_expected_files fs g = g\<lparr>gm_expected_files := fs\<rparr>"

definition add_expected_file :: "env \<Rightarrow> string \<Rightarrow> (group_world, unit) action" where
  "add_expected_file E file =
     bind (of_result (clean_path (env_cwd E) file)) (\<lambda>p.
       on_self (\<lambda>g. g\<lparr>gm_expected_files := sset_insert p (gm_expected_files g)\<rparr>))"

text \<open>\<open>*m_transfers_meta[0]\<close>, which is undefined for an empty group.\<close>

definition first_transfer :: "(group_world, tm_ref) action" where
  "first_transfer =
     bind self (\<lambda>g. case gm_transfers_meta g of [] \<Rightarrow> throw (UndefinedBehaviour ''m_transfers_meta[0]'')
                    | r # _ \<Rightarrow> return r)"

definition get_transfer_meta_from_file_path :: "string \<Rightarrow> (group_world, tm_ref) action" where
  "get_transfer_meta_from_file_path file_path =
     bind self (\<lambda>g. bind (on_world (reads w_cells)) (\<lambda>cells.
       case List.find (\<lambda>r. path_eq (tm_file_path (cells r)) file_path) (gm_transfers_meta g) of
         Some r \<Rightarrow> return r
       | None \<Rightarrow> seq (on_world (ers_fatal (MetadataNotFoundInGroupError (gm_group_id g) file_path)))
                   first_transfer))"

text \<open>\<open>m == meta\<close> compares the pointers: only the very same object is replaced.\<close>

definition add_file :: "tm_ref \<Rightarrow> (group_world, tm_ref) action" where
  "add_file meta =
     bind self (\<lambda>g. bind (on_world (cell meta)) (\<lambda>m.
       if tm_file_path m \<in> set (gm_expected_files g) then
         seq (on_self (\<lambda>g. g\<lparr>gm_expected_files := sset_erase (tm_file_path m) (gm_expected_files g)\<rparr>))
         (seq (on_world (update_cell meta (set_group_id (gm_group_id g))))
         (seq (on_self (\<lambda>g. g\<lparr>gm_transfers_meta := gm_transfers_meta g @ [meta]\<rparr>))
         (return meta)))
       else if tm_group_id m = gm_group_id g then
         seq (on_self (\<lambda>g. g\<lparr>gm_transfers_meta := remove1 meta (gm_transfers_meta g) @ [meta]\<rparr>))
         (return meta)
       else
         seq (on_world (ers_fatal (MetadataNotExpectedInGroupError (gm_group_id g) (get_file_name m))))
         first_transfer))"

definition gm_export_fields :: "env \<Rightarrow> (tm_ref \<Rightarrow> TransferMetadata) \<Rightarrow> GroupMetadata \<Rightarrow> (string \<times> json) list" where
  "gm_export_fields E cells g =
     [(''transfer_id'', JStr (gm_group_id g)), (''source_id'', JStr (gm_source_id g)),
      (''source_ip'', JStr (get_ip_port (gm_source_ip g))),
      (''protocol'', JStr (protocols_to_string (gm_protocol g))),
      (''protocol_options'', JStr (json_dump E (gm_protocol_options g))),
      (''files'', JArr (map (\<lambda>r. JStr (tm_file_path (cells r))) (gm_transfers_meta g)))]"

definition gm_export_to_string :: "env \<Rightarrow> (tm_ref \<Rightarrow> TransferMetadata) \<Rightarrow> GroupMetadata \<Rightarrow> string" where
  "gm_export_to_string E cells g = json_dump E (jobject (gm_export_fields E cells g))"

definition gm_load_field ::
  "json \<Rightarrow> string \<Rightarrow> (json \<Rightarrow> (group_world, unit) action) \<Rightarrow> (group_world, unit) action" where
  "gm_load_field j k step = (case jmember j k of None \<Rightarrow> return () | Some v \<Rightarrow> step v)"

definition of_optional :: "'a option \<Rightarrow> exn + 'a" where
  "of_optional x = (case x of None \<Rightarrow> Inl BadOptionalAccess | Some y \<Rightarrow> Inr y)"

definition gm_load_steps :: "env \<Rightarrow> (string \<times> (json \<Rightarrow> (group_world, unit) action)) list" where
  "gm_load_steps E =
     [(''transfer_id'', \<lambda>v. bind (of_result (jget_string v)) (\<lambda>s. on_self (\<lambda>g. g\<lparr>gm_group_id := s\<rparr>))),
      (''source_id'', \<lambda>v. bind (of_result (jget_string v)) (\<lambda>s. on_self (\<lambda>g. g\<lparr>gm_source_id := s\<rparr>))),
      (''source_ip'', \<lambda>v. bind (of_result (rbind (jget_string v) (\<lambda>s. IPFormat_new s 0)))
                         (\<lambda>ip. on_self (\<lambda>g. g\<lparr>gm_source_ip := ip\<rparr>))),
      (''protocol'', \<lambda>v. bind (of_result (rbind (jget_string v) (\<lambda>s. of_optional (string_to_protocols s))))
                         (\<lambda>p. on_self (\<lambda>g. g\<lparr>gm_protocol := p\<rparr>))),
      (''protocol_options'', \<lambda>v. bind (of_result (jget_string v)) (\<lambda>s. bind (on_world (parse_json E s))
                         (\<lambda>o'. on_self (\<lambda>g. g\<lparr>gm_protocol_options := o'\<rparr>)))),
      (''files'', \<lambda>v. bind (of_result (jget_string_list v)) (\<lambda>fs. for_each (add_expected_file E) fs))]"

definition gm_from_string :: "env \<Rightarrow> string \<Rightarrow> (group_world, unit) action" where
  "gm_from_string E str =
     bind (on_world (parse_json E str)) (\<lambda>j.
       for_each (\<lambda>(k, step). gm_load_field j k step) (gm_load_steps E))"

text \<open>\<open>GroupMetadata(text, false)\<close> and \<open>GroupMetadata(path)\<close>.\<close>

definition GroupMetadata_of_string :: "env \<Rightarrow> e_protocol_type \<Rightarrow> string \<Rightarrow> (world, GroupMetadata) action" where
  "GroupMetadata_of_string E uninit str w =
     (case gm_from_string E str (GroupMetadata_blank uninit, w) of
        (Ret _, (g, w')) \<Rightarrow> (Ret g, w')
      | (Raise e, (g, w')) \<Rightarrow> (Raise e, w'))"

definition GroupMetadata_of_file :: "env \<Rightarrow> e_protocol_type \<Rightarrow> string \<Rightarrow> (world, GroupMetadata) action" where
  "GroupMetadata_of_file E uninit src =
     bind (ask (\<lambda>t. fs_text E t src) (\<lambda>_. EvFile ''read'' src)) (GroupMetadata_of_string E uninit)"

definition gm_generate_metadata_file :: "env \<Rightarrow> GroupMetadata \<Rightarrow> string \<Rightarrow> (world, unit) action" where
  "gm_generate_metadata_file E g dest =
     bind (reads w_cells) (\<lambda>cells.
       log_event (EvWrite (path_append dest (gm_group_id g) @ gm_file_extension)
                    (gm_export_to_string E cells g)))"

definition newline :: string where
  "newline = [CHR 0x0A]"

definition gm_to_string :: "(tm_ref \<Rightarrow> TransferMetadata) \<Rightarrow> GroupMetadata \<Rightarrow> string" where
  "gm_to_string cells g =
     ''transfer_id '' @ gm_group_id g @ '' '' @ ''protocol '' @ protocols_to_string (gm_protocol g) @ newline
     @ concat (map (\<lambda>r. ''*file '' @ get_file_name (cells r) @ newline) (gm_transfers_meta g))
     @ concat (map (\<lambda>f. ''*expectedfile '' @ f @ newline) (gm_expected_files g))"

section \<open>Lemmas\<close>

lemma run_on_world [simp]: "f w = (r, w') \<Longrightarrow> on_world f (x, w) = (r, (x, w'))"
  by (simp add: on_world_def)

lemma run_on_self [simp]: "on_self f (x, w) = (Ret (), (f x, w))"
  by (simp add: on_self_def)

lemma run_self [simp]: "self (x, w) = (Ret x, (x, w))"
  by (simp add: self_def)

lemma on_world_return [simp]: "on_world (return x) = return x"
  by (rule ext) (auto simp: on_world_def)

lemma group_status_foldl_ge:
  "st \<le> foldl (\<lambda>st r. if st < f r then f r else st) (st :: 'b::linorder) rs"
  by (induction rs arbitrary: st) (auto intro: order_trans less_imp_le)

lemma group_status_foldl:
  "foldl (\<lambda>st r. if st < f r then f r else st) (st :: 'b::linorder) rs = Max (insert st (f ` set rs))"
proof (induction rs arbitrary: st)
  case (Cons r rs)
  have "insert (if st < f r then f r else st) (f ` set rs) \<subseteq> insert st (f ` set (r # rs))" by auto
  moreover have "Max (insert (max st (f r)) (f ` set rs)) = Max (insert st (insert (f r) (f ` set rs)))"
    by (cases "set rs = {}") (simp_all add: max.assoc Max_insert)
  moreover have "(if st < f r then f r else st) = max st (f r)" by (auto simp: max_def)
  ultimately show ?case by (simp add: Cons.IH)
qed simp

text \<open>Well-formed groups: no object twice, the expected files a set in order.\<close>

definition gm_inv :: "GroupMetadata \<Rightarrow> bool" where
  "gm_inv g \<longleftrightarrow> distinct (gm_transfers_meta g) \<and> sset_inv (gm_expected_files g)"

lemma run_add_expected_file:
  "clean_abs p \<Longrightarrow> add_expected_file E p (g, w)
     = (Ret (), (g\<lparr>gm_expected_files := sset_insert p (gm_expected_files g)\<rparr>, w))"
  by (simp add: add_expected_file_def)

lemma run_add_expected_files:
  "list_all clean_abs fs \<Longrightarrow> for_each (add_expected_file E) fs (g, w)
     = (Ret (), (g\<lparr>gm_expected_files := fold sset_insert fs (gm_expected_files g)\<rparr>, w))"
  by (induction fs arbitrary: g) (simp_all add: run_add_expected_file)

lemma set_fold_sset_insert: "set (fold sset_insert fs xs) = set fs \<union> set xs"
  by (induction fs arbitrary: xs) auto

lemma sset_inv_fold: "sset_inv xs \<Longrightarrow> sset_inv (fold sset_insert fs xs)"
  by (induction fs arbitrary: xs) (simp_all add: sset_inv_insert)

lemma add_file_expected:
  assumes "tm_file_path (w_cells w r) \<in> set (gm_expected_files g)"
  shows "add_file r (g, w) =
     (Ret r, (g\<lparr>gm_expected_files := sset_erase (tm_file_path (w_cells w r)) (gm_expected_files g),
                gm_transfers_meta := gm_transfers_meta g @ [r]\<rparr>,
              w\<lparr>w_cells := (w_cells w)(r := set_group_id (gm_group_id g) (w_cells w r))\<rparr>))"
  using assms by (simp add: add_file_def cell_def)

lemma add_file_same_group:
  assumes "tm_file_path (w_cells w r) \<notin> set (gm_expected_files g)"
    "tm_group_id (w_cells w r) = gm_group_id g"
  shows "add_file r (g, w) =
     (Ret r, (g\<lparr>gm_transfers_meta := remove1 r (gm_transfers_meta g) @ [r]\<rparr>, w))"
  using assms by (simp add: add_file_def cell_def)

lemma add_file_foreign:
  assumes "tm_file_path (w_cells w r) \<notin> set (gm_expected_files g)"
    "tm_group_id (w_cells w r) \<noteq> gm_group_id g"
  shows "add_file r (g, w) =
     ((case gm_transfers_meta g of [] \<Rightarrow> Raise (UndefinedBehaviour ''m_transfers_meta[0]'') | q # _ \<Rightarrow> Ret q),
      (g, w\<lparr>w_trace := w_trace w @
              [EvIssue Fatal (MetadataNotExpectedInGroupError (gm_group_id g) (get_file_name (w_cells w r)))]\<rparr>))"
  using assms
  by (simp add: add_file_def cell_def first_transfer_def ers_fatal_def log_event_def split: list.split)

lemma gm_export_fields_member:
  "map_of (rev (gm_export_fields E cells g)) k = map_of (gm_export_fields E cells g) k"
  by (auto simp: gm_export_fields_def)

lemma keeps_on_world: "keeps R f \<Longrightarrow> keeps (\<lambda>s s'. R (snd s) (snd s')) (on_world f)"
  by (auto simp: keeps_def on_world_def split: prod.splits) (metis snd_conv)

text \<open>The text of a group, read back.\<close>

lemma group_text_arrives:
  assumes "valid_ip (gm_source_ip g)"
    and "list_all (\<lambda>r. clean_abs (tm_file_path (cells r))) (gm_transfers_meta g)"
    and "json_text_ok E (gm_protocol_options g)"
    and "json_text_ok E (jobject (gm_export_fields E cells g))"
  shows "\<exists>g'. GroupMetadata_of_string E uninit (gm_export_to_string E cells g) w = (Ret g', w)
           \<and> gm_group_id g' = gm_group_id g \<and> gm_protocol g' = gm_protocol g
           \<and> gm_protocol_options g' = gm_protocol_options g \<and> gm_source_id g' = gm_source_id g
           \<and> gm_source_ip g' = gm_source_ip g \<and> gm_transfers_meta g' = []
           \<and> set (gm_expected_files g') = (\<lambda>r. tm_file_path (cells r)) ` set (gm_transfers_meta g)
           \<and> gm_inv g'"
proof -
  let ?fs = "map (\<lambda>r. tm_file_path (cells r)) (gm_transfers_meta g)"
  let ?g = "\<lparr>gm_group_id = gm_group_id g, gm_protocol = gm_protocol g,
             gm_protocol_options = gm_protocol_options g, gm_transfers_meta = [],
             gm_expected_files = fold sset_insert ?fs [], gm_source_id = gm_source_id g,
             gm_source_ip = gm_source_ip g\<rparr>"
  have fs: "list_all clean_abs ?fs" using assms(2) by (simp add: list_all_iff)
  have strs: "jget_strings (map (\<lambda>r. JStr (tm_file_path (cells r))) (gm_transfers_meta g)) = Inr ?fs"
    using jget_strings_map[of ?fs] by (simp add: comp_def)
  have "gm_from_string E (gm_export_to_string E cells g) (GroupMetadata_blank uninit, w) = (Ret (), (?g, w))"
    using assms(1) fs
    unfolding gm_from_string_def gm_export_to_string_def parse_dump[OF assms(4)]
    by (simp add: gm_load_steps_def gm_load_field_def gm_export_fields_member)
      (simp add: gm_export_fields_def strs parse_dump[OF assms(3)] of_optional_def run_add_expected_files GroupMetadata_blank_def
        GroupMetadata_new_def)
  then have run: "GroupMetadata_of_string E uninit (gm_export_to_string E cells g) w = (Ret ?g, w)"
    by (simp add: GroupMetadata_of_string_def)
  have "sset_inv ([] :: string list)" by (simp add: sset_inv_def)
  then have "gm_inv ?g" by (simp add: gm_inv_def sset_inv_fold)
  then show ?thesis using run by (auto simp: set_fold_sset_insert)
qed

section \<open>Properties\<close>

text \<open>
  The status of a group is the highest status of its transfers in the order of the
  enumeration, and PREPARING for an empty group.
\<close>

theorem group_status_is_max:
  "get_group_status cells g
     = Max (insert PREPARING ((\<lambda>r. tm_status (cells r)) ` set (gm_transfers_meta g)))"
  by (simp add: get_group_status_def group_status_foldl)

text \<open>
  C27: a group sent as text arrives with its identifier, protocol, options, source and address;
  its transfers arrive as expected files, a sorted set of exactly their paths, whatever the
  receiver's uninitialised protocol field held.
\<close>

theorem group_metadata_text_roundtrip:
  assumes "valid_ip (gm_source_ip g)"
    and "list_all (\<lambda>r. clean_abs (tm_file_path (cells r))) (gm_transfers_meta g)"
    and "json_text_ok E (gm_protocol_options g)"
    and "json_text_ok E (jobject (gm_export_fields E cells g))"
  shows "\<exists>g'. GroupMetadata_of_string E uninit (gm_export_to_string E cells g) w = (Ret g', w)
           \<and> gm_group_id g' = gm_group_id g \<and> gm_protocol g' = gm_protocol g
           \<and> gm_protocol_options g' = gm_protocol_options g \<and> gm_source_id g' = gm_source_id g
           \<and> gm_source_ip g' = gm_source_ip g \<and> gm_transfers_meta g' = []
           \<and> set (gm_expected_files g') = (\<lambda>r. tm_file_path (cells r)) ` set (gm_transfers_meta g)
           \<and> gm_inv g'"
  using assms by (rule group_text_arrives)

definition sample_group :: GroupMetadata where
  "sample_group = GroupMetadata_new ''g1'' ''client0_sesg1'' \<lparr>m_ip = ''10.0.0.1'', m_port = 5000\<rparr> SCP JNull [0]"

text \<open>A JSON library that knows two values and their texts.\<close>

definition two_json_env :: "json \<Rightarrow> json \<Rightarrow> env" where
  "two_json_env j1 j2 =
     quiet_env\<lparr>json_parse := (\<lambda>s. if s = ''A'' then Some j1 else if s = ''B'' then Some j2 else None),
               json_dump := (\<lambda>j. if j = j1 then ''A'' else ''B'')\<rparr>"

theorem group_metadata_text_roundtrip_witness:
  "let cells = (\<lambda>_. sample_tm);
       j = jobject (gm_export_fields (quiet_env\<lparr>json_dump := (\<lambda>_. ''A'')\<rparr>) cells sample_group);
       E = two_json_env JNull j
   in \<exists>g'. GroupMetadata_of_string E dummy (gm_export_to_string E cells sample_group) world_init
             = (Ret g', world_init)
        \<and> gm_protocol g' = SCP \<and> set (gm_expected_files g') = {''/data/run1.hdf5''} \<and> gm_inv g'"
proof -
  define cells where "cells = (\<lambda>_ :: nat. sample_tm)"
  define j where "j = jobject (gm_export_fields (quiet_env\<lparr>json_dump := (\<lambda>_. ''A'')\<rparr>) cells sample_group)"
  define E where "E = two_json_env JNull j"
  have nn: "j \<noteq> JNull" by (simp add: j_def jobject_def)
  have opt: "gm_protocol_options sample_group = JNull"
    by (simp add: sample_group_def GroupMetadata_new_def)
  have "json_dump E JNull = ''A''" by (simp add: E_def two_json_env_def)
  then have j': "jobject (gm_export_fields E cells sample_group) = j"
    by (simp add: j_def gm_export_fields_def opt)
  have ok: "json_text_ok E JNull" "json_text_ok E (jobject (gm_export_fields E cells sample_group))"
    using nn unfolding j' by (simp_all add: json_text_ok_def E_def two_json_env_def)
  have "valid_ip (gm_source_ip sample_group)" by code_simp
  moreover have "list_all (\<lambda>r. clean_abs (tm_file_path (cells r))) (gm_transfers_meta sample_group)"
    using sample_tm_wf by (simp add: cells_def sample_group_def GroupMetadata_new_def tm_wf_def)
  ultimately have "\<exists>g'. GroupMetadata_of_string E dummy (gm_export_to_string E cells sample_group) world_init
             = (Ret g', world_init)
        \<and> gm_protocol g' = SCP \<and> set (gm_expected_files g') = {''/data/run1.hdf5''} \<and> gm_inv g'"
    using group_metadata_text_roundtrip[of sample_group cells E dummy world_init] ok opt
    by (auto simp: sample_group_def GroupMetadata_new_def cells_def sample_tm_def)
  then show ?thesis by (simp add: Let_def cells_def j_def E_def)
qed



text \<open>
  The search for an already inserted transfer compares pointers, so two objects built from
  two messages about the same transfer are both kept: the group then lists the transfer twice.
\<close>

theorem add_file_keeps_equal_duplicates:
  assumes "q \<noteq> r" "tm_eq (w_cells w q) (w_cells w r)" "tm_group_id (w_cells w q) = gm_group_id g"
    and "tm_file_path (w_cells w q) \<notin> set (gm_expected_files g)"
    and "tm_file_path (w_cells w r) \<notin> set (gm_expected_files g)"
    and "add_file q (g, w) = (out1, s1)" "add_file r s1 = (out2, (g2, w2))"
  shows "set (gm_transfers_meta g2) \<supseteq> {q, r} \<and> tm_eq (w_cells w2 q) (w_cells w2 r)"
proof -
  have r: "tm_group_id (w_cells w r) = gm_group_id g" using assms(2,3) by (simp add: tm_eq_def)
  have "s1 = (g\<lparr>gm_transfers_meta := remove1 q (gm_transfers_meta g) @ [q]\<rparr>, w)"
    using assms(6) add_file_same_group[OF assms(4,3)] by simp
  then have "g2 = g\<lparr>gm_transfers_meta := remove1 r (remove1 q (gm_transfers_meta g) @ [q]) @ [r]\<rparr> \<and> w2 = w"
    using assms(5,7) r
      add_file_same_group[of w r "g\<lparr>gm_transfers_meta := remove1 q (gm_transfers_meta g) @ [q]\<rparr>"]
    by simp
  then show ?thesis using assms(1,2) by (auto simp: remove1_append)
qed

theorem add_file_keeps_equal_duplicates_witness:
  "\<exists>out1 s1 out2 g2 w2.
     add_file 0 (sample_group\<lparr>gm_transfers_meta := []\<rparr>, world_init\<lparr>w_cells := (\<lambda>_. sample_tm)\<rparr>) = (out1, s1)
     \<and> add_file 1 s1 = (out2, (g2, w2))
     \<and> set (gm_transfers_meta g2) \<supseteq> {0, 1} \<and> tm_eq (w_cells w2 0) (w_cells w2 1)"
proof -
  let ?g = "sample_group\<lparr>gm_transfers_meta := []\<rparr>" and ?w = "world_init\<lparr>w_cells := (\<lambda>_. sample_tm)\<rparr>"
  obtain out1 s1 where r1: "add_file 0 (?g, ?w) = (out1, s1)" by (metis prod.exhaust)
  obtain out2 g2 w2 where r2: "add_file 1 s1 = (out2, (g2, w2))" by (metis prod.exhaust)
  have h: "tm_eq (w_cells ?w 0) (w_cells ?w 1)" "tm_group_id (w_cells ?w 0) = gm_group_id ?g"
    "tm_file_path (w_cells ?w 0) \<notin> set (gm_expected_files ?g)" "tm_file_path (w_cells ?w 1) \<notin> set (gm_expected_files ?g)"
    by (simp_all add: sample_tm_def sample_group_def GroupMetadata_new_def)
  show ?thesis
    using add_file_keeps_equal_duplicates[OF zero_neq_one h r1 r2] r1 r2 by blast
qed

end
