(* ===== verification/Scp_Interface.thy ===== *)
theory Scp_Interface
  imports Group_Metadata
begin

text \<open>
  \<open>interfaces/transfer_interface_abstract.hpp\<close> (the dummy protocol) and
  \<open>interfaces/transfer_interface_SCP.hpp\<close>. The contract every protocol keeps towards the
  session is the locale \<open>transfer_protocol\<close>: an operation on a transfer changes no other
  transfer and no transfer's identity, allocates nothing and only extends the trace.
\<close>

section \<open>The contract of a protocol\<close>

definition touches :: "tm_ref set \<Rightarrow> 'i \<times> world \<Rightarrow> 'i \<times> world \<Rightarrow> bool" where
  "touches S s s' \<longleftrightarrow> only_cells S (snd s) (snd s')"

interpretation touches: frame_order "touches S"
  by unfold_locales (auto simp: touches_def only_cells.frame_refl intro: only_cells.frame_trans)

lemma touches_on_world: "keeps (only_cells S) f \<Longrightarrow> keeps (touches S) (on_world f)"
  by (auto simp: keeps_def touches_def on_world_def split: prod.splits) (metis snd_conv)

lemma touches_on_self: "keeps (touches S) (on_self f)"
  by (auto simp: keeps_def touches_def on_self_def only_cells.frame_refl)

lemma touches_self: "keeps (touches S) self"
  by (auto simp: keeps_def touches_def self_def only_cells.frame_refl)

lemma touches_status: "r \<in> S \<Longrightarrow> keeps (touches S) (on_world (set_status_at E r st))"
  by (intro touches_on_world keeps_set_status_at)

lemma touches_update:
  "r \<in> S \<Longrightarrow> (\<And>m. same_identity m (f m)) \<Longrightarrow> keeps (touches S) (on_world (update_cell r f))"
  by (intro touches_on_world keeps_update_cell)

lemma touches_ask: "keeps (touches S) (on_world (ask f ev))"
  by (intro touches_on_world keeps_ask)

lemma touches_cell: "keeps (touches S) (on_world (cell r))"
  by (intro touches_on_world keeps_cell)

lemma touches_issues:
  "keeps (touches S) (on_world (ers_warning i))" "keeps (touches S) (on_world (ers_error i))"
  "keeps (touches S) (on_world (ers_fatal i))" "keeps (touches S) (on_world (sleep_ms n))"
  "keeps (touches S) (on_world (log_event e))"
  by (intro touches_on_world keeps_issues keeps_log_event)+

lemmas touches_rules =
  touches.frame_rules touches_on_self touches_self touches_status touches_update touches_ask
  touches_cell touches_issues

locale transfer_protocol =
  fixes upload :: "env \<Rightarrow> tm_ref \<Rightarrow> ('i \<times> world, bool) action"
    and download :: "env \<Rightarrow> tm_ref \<Rightarrow> string \<Rightarrow> ('i \<times> world, bool) action"
    and pause :: "env \<Rightarrow> tm_ref \<Rightarrow> ('i \<times> world, bool) action"
    and resume :: "env \<Rightarrow> tm_ref \<Rightarrow> ('i \<times> world, bool) action"
    and hash :: "env \<Rightarrow> tm_ref \<Rightarrow> ('i \<times> world, bool) action"
    and cancel :: "env \<Rightarrow> tm_ref \<Rightarrow> ('i \<times> world, bool) action"
  assumes upload_touches: "keeps (touches {r}) (upload E r)"
    and download_touches: "keeps (touches {r}) (download E r dest)"
    and pause_touches: "keeps (touches {r}) (pause E r)"
    and resume_touches: "keeps (touches {r}) (resume E r)"
    and hash_touches: "keeps (touches {r}) (hash E r)"
    and cancel_touches: "keeps (touches {r}) (cancel E r)"
begin

lemmas ops_touch =
  upload_touches download_touches pause_touches resume_touches hash_touches cancel_touches

lemma upload_other_transfer:
  assumes "upload E r (i, w) = (out, (i', w'))" "q \<noteq> r"
  shows "w_cells w' q = w_cells w q"
  using keeps_run[OF upload_touches assms(1)] assms(2) by (auto simp: touches_def only_cells_def)

end

section \<open>The dummy protocol\<close>

definition dummy_op :: "env \<Rightarrow> tm_ref \<Rightarrow> (unit \<times> world, bool) action" where
  "dummy_op E f_meta = return True"

definition dummy_download_file :: "env \<Rightarrow> tm_ref \<Rightarrow> string \<Rightarrow> (unit \<times> world, bool) action" where
  "dummy_download_file E f_meta dest = return True"

interpretation dummy: transfer_protocol dummy_op dummy_download_file dummy_op dummy_op dummy_op dummy_op
  by unfold_locales (simp_all add: dummy_op_def dummy_download_file_def touches.keeps_return)

section \<open>SCP\<close>

record TransferInterfaceSCP =
  scp_user :: string
  scp_use_password :: bool
  scp_is_uploader :: bool
  scp_files_being_transferred :: "(string \<times> string) list"

text \<open>
  The constructor. Without the mandatory \<open>user\<close> it returns before \<open>m_is_uploader\<close> is set,
  which then has the arbitrary value \<open>uninit\<close>.
\<close>

definition TransferInterfaceSCP_new ::
  "bool \<Rightarrow> json \<Rightarrow> bool \<Rightarrow> (world, TransferInterfaceSCP) action" where
  "TransferInterfaceSCP_new uninit opts is_uploader =
     (let blank = \<lparr>scp_user = [], scp_use_password = False, scp_is_uploader = uninit,
                   scp_files_being_transferred = []\<rparr>
      in case jmember opts ''user'' of
           None \<Rightarrow> seq (ers_fatal (ConfigError ''user is mandatory in SCP protocol options'')) (return blank)
         | Some u \<Rightarrow>
             bind (of_result (jget_string u)) (\<lambda>user.
             bind (case jmember opts ''use_password'' of
                     None \<Rightarrow> return False
                   | Some p \<Rightarrow> of_result (jget_bool p)) (\<lambda>use_password.
             return (blank\<lparr>scp_user := user, scp_use_password := use_password,
                           scp_is_uploader := is_uploader\<rparr>))))"

definition scp_upload_file :: "env \<Rightarrow> tm_ref \<Rightarrow> (TransferInterfaceSCP \<times> world, bool) action" where
  "scp_upload_file E f_meta =
     seq (on_world (set_status_at E f_meta UPLOADING))
     (seq (on_world (set_status_at E f_meta FINISHED))
     (seq (on_world (update_cell f_meta (\<lambda>m. set_bytes_transferred (tm_bytes_size m) m)))
     (return True)))"

definition scp_command :: "TransferInterfaceSCP \<Rightarrow> TransferMetadata \<Rightarrow> string \<Rightarrow> string" where
  "scp_command i m dest =
     (if scp_use_password i then ''scp '' else ''scp -o PasswordAuthentication='' @ [CHR 0x27] @ ''no'' @ [CHR 0x27] @ '' '')
     @ scp_user i @ ''@'' @ m_ip (tm_src m) @ '':'' @ tm_file_path m @ '' '' @ dest"

definition scp_download_file :: "env \<Rightarrow> tm_ref \<Rightarrow> string \<Rightarrow> (TransferInterfaceSCP \<times> world, bool) action" where
  "scp_download_file E f_meta dest =
     seq (on_world (set_status_at E f_meta DOWNLOADING))
     (bind (on_world (cell f_meta)) (\<lambda>m.
      seq (on_self (\<lambda>i. i\<lparr>scp_files_being_transferred :=
              smap_put (get_file_name m) dest (scp_files_being_transferred i)\<rparr>))
     (bind self (\<lambda>i.
      let exec = c_str (scp_command i m dest)
      in bind (on_world (ask (\<lambda>t. sys_exec E t exec) (EvExec exec))) (\<lambda>rc.
         if rc = 0 then
           seq (on_world (set_status_at E f_meta FINISHED))
           (seq (on_world (update_cell f_meta (\<lambda>m. set_bytes_transferred (tm_bytes_size m) m)))
           (return True))
         else
           seq (on_world (ers_error (ErrorSCPDownloadError ''Please check the logs for more information.'')))
           (seq (on_world (set_status_at E f_meta ERROR))
           (seq (on_world (update_cell f_meta (set_error_code ''Something went wrong during the download'')))
           (seq (on_world (update_cell f_meta (set_bytes_transferred 0)))
           (return False)))))))))"

definition scp_pause_file :: "env \<Rightarrow> tm_ref \<Rightarrow> (TransferInterfaceSCP \<times> world, bool) action" where
  "scp_pause_file E f_meta =
     seq (on_world (set_status_at E f_meta PAUSED))
     (seq (on_world (update_cell f_meta (set_bytes_transferred 0)))
     (return True))"

text \<open>Resuming a file that was never downloaded here reads an empty path from the map.\<close>

definition scp_resume_file :: "env \<Rightarrow> tm_ref \<Rightarrow> (TransferInterfaceSCP \<times> world, bool) action" where
  "scp_resume_file E f_meta =
     bind self (\<lambda>i.
       if scp_is_uploader i then scp_upload_file E f_meta
       else bind (on_world (cell f_meta)) (\<lambda>m.
              scp_download_file E f_meta
                (smap_at [] (scp_files_being_transferred i) (get_file_name m))))"

definition scp_hash_file :: "env \<Rightarrow> tm_ref \<Rightarrow> (TransferInterfaceSCP \<times> world, bool) action" where
  "scp_hash_file E f_meta = seq (on_world (set_status_at E f_meta HASHING)) (return True)"

definition scp_cancel_file :: "env \<Rightarrow> tm_ref \<Rightarrow> (TransferInterfaceSCP \<times> world, bool) action" where
  "scp_cancel_file E f_meta = seq (on_world (set_status_at E f_meta CANCELLED)) (return True)"

lemma same_identity_bytes_fun: "same_identity m (set_bytes_transferred (f m) m)"
  by simp

lemma scp_download_touches: "keeps (touches {r}) (scp_download_file E r dest)"
  unfolding scp_download_file_def Let_def
  by (intro touches_rules) simp_all

lemma scp_upload_touches: "keeps (touches {r}) (scp_upload_file E r)"
  unfolding scp_upload_file_def
  by (intro touches_rules) simp_all

interpretation scp: transfer_protocol scp_upload_file scp_download_file scp_pause_file
  scp_resume_file scp_hash_file scp_cancel_file
proof
  show "keeps (touches {r}) (scp_resume_file E r)" for E r
    unfolding scp_resume_file_def
    by (intro touches_rules scp_upload_touches scp_download_touches)
  show "keeps (touches {r}) (scp_pause_file E r)" for E r
    unfolding scp_pause_file_def by (intro touches_rules) simp_all
  show "keeps (touches {r}) (scp_hash_file E r)" for E r
    unfolding scp_hash_file_def by (intro touches_rules) simp_all
  show "keeps (touches {r}) (scp_cancel_file E r)" for E r
    unfolding scp_cancel_file_def by (intro touches_rules) simp_all
qed (rule scp_upload_touches scp_download_touches)+

section \<open>Lemmas\<close>

lemma scp_command_status [simp]: "scp_command i (set_status t st m) dest = scp_command i m dest"
  by (simp add: scp_command_def set_status_def mark_def Let_def)

lemma get_file_name_status [simp]: "get_file_name (set_status t st m) = get_file_name m"
  by (simp add: get_file_name_def)

lemma scp_command_map [simp]:
  "scp_command (i\<lparr>scp_files_being_transferred := fs\<rparr>) m dest = scp_command i m dest"
  by (simp add: scp_command_def)

lemma tm_bytes_size_status [simp]: "tm_bytes_size (set_status t st m) = tm_bytes_size m"
  by (simp add: set_status_def mark_def Let_def)

lemma tm_bytes_setters [simp]:
  "tm_bytes_transferred (set_bytes_transferred n m) = n"
  "tm_bytes_size (set_bytes_transferred n m) = tm_bytes_size m"
  "tm_error_code (set_bytes_transferred n m) = tm_error_code m"
  "tm_error_code (set_error_code c m) = c"
  by (simp_all add: setter_defs)

text \<open>The whole of an SCP download, by the exit code of its command.\<close>

lemma scp_download_run:
  fixes E i w r dest
  defines "cmd \<equiv> c_str (scp_command i (w_cells w r) dest)"
  defines "t1 \<equiv> w_trace w @ [EvClock (clock_ms E (w_trace w))]"
  defines "rc \<equiv> sys_exec E t1 cmd"
  shows "\<exists>w' es. scp_download_file E r dest (i, w) =
     (Ret (rc = 0), (i\<lparr>scp_files_being_transferred :=
        smap_put (get_file_name (w_cells w r)) dest (scp_files_being_transferred i)\<rparr>, w'))
     \<and> w_trace w' = t1 @ EvExec cmd rc # es
     \<and> get_file_name (w_cells w' r) = get_file_name (w_cells w r)
     \<and> (if rc = 0 then tm_status (w_cells w' r) = FINISHED
            \<and> tm_bytes_transferred (w_cells w' r) = tm_bytes_size (w_cells w' r)
        else tm_status (w_cells w' r) = ERROR \<and> tm_bytes_transferred (w_cells w' r) = 0
            \<and> tm_error_code (w_cells w' r) = ''Something went wrong during the download'')"
proof (cases "rc = 0")
  case True
  then show ?thesis
    by (simp add: scp_download_file_def run_set_status_at timed_def cell_def Let_def ask_def
        rc_def[unfolded t1_def, symmetric] cmd_def[symmetric] t1_def get_file_name_def)
next
  case False
  then show ?thesis
    by (simp add: scp_download_file_def run_set_status_at timed_def cell_def Let_def ask_def
        ers_error_def log_event_def
        rc_def[unfolded t1_def, symmetric] cmd_def[symmetric] t1_def get_file_name_def)
qed

section \<open>Properties\<close>

text \<open>
  An SCP download runs exactly one command, built from the user, the source address, the
  path and the destination; exit code 0 marks the transfer finished with all its bytes and
  returns true, any other code marks it failed with no bytes and an error text and returns false.
\<close>

theorem scp_download_outcome:
  assumes "scp_download_file E r dest (i, w) = (out, (i', w'))"
  shows "\<exists>rc es. w_trace w' = w_trace w @ EvClock (clock_ms E (w_trace w))
                   # EvExec (c_str (scp_command i (w_cells w r) dest)) rc # es
           \<and> out = Ret (rc = 0)
           \<and> (if rc = 0 then tm_status (w_cells w' r) = FINISHED
                 \<and> tm_bytes_transferred (w_cells w' r) = tm_bytes_size (w_cells w' r)
              else tm_status (w_cells w' r) = ERROR \<and> tm_bytes_transferred (w_cells w' r) = 0
                 \<and> tm_error_code (w_cells w' r) = ''Something went wrong during the download'')"
  using scp_download_run[where E=E and i=i and w=w and r=r and dest=dest] assms by auto

definition sample_scp :: TransferInterfaceSCP where
  "sample_scp = \<lparr>scp_user = ''dune'', scp_use_password = True, scp_is_uploader = False,
                 scp_files_being_transferred = []\<rparr>"

theorem scp_download_outcome_witness:
  "\<exists>out i' w' rc. scp_download_file (quiet_env\<lparr>sys_exec := (\<lambda>_ _. 1)\<rparr>) 0 ''/out''
       (sample_scp, world_init\<lparr>w_cells := (\<lambda>_. sample_tm)\<rparr>) = (out, (i', w'))
     \<and> EvExec ''scp dune@10.0.0.1:/data/run1.hdf5 /out'' rc \<in> set (w_trace w') \<and> out = Ret (rc = 0)"
proof -
  let ?w = "world_init\<lparr>w_cells := (\<lambda>_. sample_tm)\<rparr>"
  obtain out i' w' where run: "scp_download_file (quiet_env\<lparr>sys_exec := (\<lambda>_ _. 1)\<rparr>) 0 ''/out'' (sample_scp, ?w)
      = (out, (i', w'))"
    by (metis prod.exhaust)
  have "c_str (scp_command sample_scp sample_tm ''/out'') = ''scp dune@10.0.0.1:/data/run1.hdf5 /out''"
    by code_simp
  then show ?thesis using scp_download_outcome[OF run] run by auto
qed

text \<open>
  On the downloading side, resuming a paused SCP transfer is the download again, into the
  destination the first download was given.
\<close>

theorem scp_resume_repeats_download:
  assumes "\<not> scp_is_uploader i" "scp_download_file E r dest (i, w) = (out1, s1)"
    and "scp_pause_file E r s1 = (out2, s2)"
  shows "scp_resume_file E r s2 = scp_download_file E r dest s2"
proof -
  let ?n = "get_file_name (w_cells w r)"
  obtain w1 where s1: "s1 = (i\<lparr>scp_files_being_transferred := smap_put ?n dest (scp_files_being_transferred i)\<rparr>, w1)"
      "get_file_name (w_cells w1 r) = ?n"
    using scp_download_run[where E=E and i=i and w=w and r=r and dest=dest] assms(2) by auto
  then obtain w2 where "s2 = (fst s1, w2)" "get_file_name (w_cells w2 r) = ?n"
    using assms(3) by (auto simp: scp_pause_file_def run_set_status_at get_file_name_def)
  then show ?thesis
    using assms(1) s1 by (simp add: scp_resume_file_def cell_def smap_at_def)
qed

theorem scp_resume_repeats_download_witness:
  "let s0 = (sample_scp, world_init\<lparr>w_cells := (\<lambda>_. sample_tm)\<rparr>);
       s2 = snd (scp_pause_file quiet_env 0 (snd (scp_download_file quiet_env 0 ''/out'' s0)))
   in scp_resume_file quiet_env 0 s2 = scp_download_file quiet_env 0 ''/out'' s2"
proof -
  let ?w = "world_init\<lparr>w_cells := (\<lambda>_. sample_tm)\<rparr>"
  obtain o1 s1 where 1: "scp_download_file quiet_env 0 ''/out'' (sample_scp, ?w) = (o1, s1)" by (metis prod.exhaust)
  obtain o2 s2 where 2: "scp_pause_file quiet_env 0 s1 = (o2, s2)" by (metis prod.exhaust)
  have "\<not> scp_is_uploader sample_scp" by (simp add: sample_scp_def)
  from scp_resume_repeats_download[OF this 1 2] show ?thesis using 1 2 by (simp add: Let_def)
qed

end
