(* ===== verification/Rclone_Interface.thy ===== *)
theory Rclone_Interface
  imports Scp_Interface
begin

text \<open>
  \<open>interfaces/transfer_interface_RClone.hpp\<close>: the parameters read from the protocol options,
  the requests to the RClone library as the texts the code formats (a fixed-size buffer per
  request), the six operations of a protocol, and one round of the polling thread. The library
  behind \<open>RcloneRPC\<close> is a parameter.
\<close>

section \<open>State\<close>

record TransferInterfaceRClone =
  rc_protocol :: string
  rc_user :: string
  rc_port :: int
  rc_bwlimit :: string
  rc_refresh_rate :: int
  rc_root_folder :: string
  rc_simult_transfers :: int
  rc_transfer_threads :: int
  rc_checkers_threads :: int
  rc_chunk_size :: string
  rc_buffer_size :: string
  rc_use_mmap :: bool
  rc_checksum :: bool
  rc_jobs_id :: "(tm_ref \<times> int) list"
  rc_work_dir :: string

definition rclone_defaults :: "string \<Rightarrow> TransferInterfaceRClone" where
  "rclone_defaults work_dir =
     \<lparr>rc_protocol = ''http'', rc_user = ''anonymous'', rc_port = 8080, rc_bwlimit = ''off'',
      rc_refresh_rate = 10, rc_root_folder = ''/'', rc_simult_transfers = 200,
      rc_transfer_threads = 4, rc_checkers_threads = 1, rc_chunk_size = ''10G'',
      rc_buffer_size = ''100G'', rc_use_mmap = False, rc_checksum = True, rc_jobs_id = [],
      rc_work_dir = work_dir\<rparr>"

type_synonym rclone_world = "TransferInterfaceRClone \<times> world"

section \<open>Requests\<close>

definition quoted :: "string \<Rightarrow> string" where
  "quoted s = CHR 0x22 # s @ [CHR 0x22]"

fun comma_list :: "string list \<Rightarrow> string" where
  "comma_list [] = []"
| "comma_list [x] = x"
| "comma_list (x # xs) = x @ '','' @ comma_list xs"

definition object_text :: "(string \<times> string) list \<Rightarrow> string" where
  "object_text kvs = ''{'' @ comma_list (map (\<lambda>(k, v). quoted k @ '': '' @ v) kvs) @ ''}''"

definition bool_text :: "bool \<Rightarrow> string" where
  "bool_text b = (if b then ''true'' else ''false'')"

text \<open>\<open>sprintf\<close> into a buffer of \<open>n\<close> characters: the text and its NUL have to fit.\<close>

definition sprintf_into :: "nat \<Rightarrow> string \<Rightarrow> ('s, string) action" where
  "sprintf_into n s = (if length s < n then return s else throw (UndefinedBehaviour ''sprintf overflow''))"

definition requestRPC :: "env \<Rightarrow> string \<Rightarrow> string \<Rightarrow> (world, json option) action" where
  "requestRPC E meth input =
     bind (ask (\<lambda>t. rclone_rpc E t meth input) (\<lambda>(st, out). EvRpc meth input st out)) (\<lambda>(st, out).
     bind (parse_json E out) (\<lambda>j. return (if st \<noteq> 200 then None else Some j)))"

section \<open>Construction\<close>

definition opt_string :: "json \<Rightarrow> string \<Rightarrow> string \<Rightarrow> exn + string" where
  "opt_string opts k d = (case jmember opts k of None \<Rightarrow> Inr d | Some v \<Rightarrow> jget_string v)"

definition opt_int :: "json \<Rightarrow> string \<Rightarrow> int \<Rightarrow> exn + int" where
  "opt_int opts k d =
     (case jmember opts k of None \<Rightarrow> Inr d
      | Some v \<Rightarrow> rbind (jget_int v) (\<lambda>i. Inr (sint (word_of_int i :: i32))))"

definition opt_bool :: "json \<Rightarrow> string \<Rightarrow> bool \<Rightarrow> exn + bool" where
  "opt_bool opts k d = (case jmember opts k of None \<Rightarrow> Inr d | Some v \<Rightarrow> jget_bool v)"

definition rclone_params :: "string \<Rightarrow> json \<Rightarrow> TransferInterfaceRClone \<Rightarrow> exn + TransferInterfaceRClone" where
  "rclone_params cwd opts i =
     rbind (opt_string opts ''protocol'' (rc_protocol i)) (\<lambda>protocol.
     rbind (if protocol = ''sftp'' then opt_string opts ''user'' (rc_user i) else Inr (rc_user i)) (\<lambda>user.
     rbind (opt_string opts ''rate_limit'' (rc_bwlimit i)) (\<lambda>bwlimit.
     rbind (opt_int opts ''refresh_rate'' (rc_refresh_rate i)) (\<lambda>refresh.
     rbind (opt_int opts ''port'' (rc_port i)) (\<lambda>port.
     rbind (opt_int opts ''simult_transfers'' (rc_simult_transfers i)) (\<lambda>simult.
     rbind (opt_int opts ''transfer_threads'' (rc_transfer_threads i)) (\<lambda>threads.
     rbind (opt_int opts ''checkers_threads'' (rc_checkers_threads i)) (\<lambda>checkers.
     rbind (opt_string opts ''chunk_size'' (rc_chunk_size i)) (\<lambda>chunk.
     rbind (opt_string opts ''buffer_size'' (rc_buffer_size i)) (\<lambda>buffer.
     rbind (opt_bool opts ''use_mmap'' (rc_use_mmap i)) (\<lambda>mmap.
     rbind (opt_bool opts ''checksum'' (rc_checksum i)) (\<lambda>checksum.
     rbind (case jmember opts ''root_folder'' of None \<Rightarrow> Inr (rc_root_folder i)
            | Some v \<Rightarrow> rbind (jget_string v) (path_absolute cwd)) (\<lambda>root.
     Inr (i\<lparr>rc_protocol := protocol, rc_user := user, rc_bwlimit := bwlimit,
            rc_refresh_rate := refresh, rc_port := port, rc_simult_transfers := simult,
            rc_transfer_threads := threads, rc_checkers_threads := checkers,
            rc_chunk_size := chunk, rc_buffer_size := buffer, rc_use_mmap := mmap,
            rc_checksum := checksum, rc_root_folder := root\<rparr>))))))))))))))"

definition TransferInterfaceRClone_new ::
  "env \<Rightarrow> json \<Rightarrow> string \<Rightarrow> (world, TransferInterfaceRClone) action" where
  "TransferInterfaceRClone_new E opts work_dir =
     bind (of_result (rclone_params (env_cwd E) opts (rclone_defaults work_dir))) (\<lambda>i.
     bind (sprintf_into 100 (object_text [(''rate'', quoted (c_str (rc_bwlimit i)))])) (\<lambda>req.
     seq (requestRPC E ''core/bwlimit'' req)
     (seq (requestRPC E ''options/set'' (object_text [(''vfs'', object_text [(''CacheMaxSize'', ''0'')])]))
     (seq (requestRPC E ''options/get'' ''{}'')
     (return i)))))"

section \<open>Operations\<close>

definition rclone_upload_file :: "env \<Rightarrow> tm_ref \<Rightarrow> (rclone_world, bool) action" where
  "rclone_upload_file E f_meta = seq (on_world (set_status_at E f_meta FINISHED)) (return True)"

text \<open>
  The two requests. The format strings name \<open>Transfers\<close>, \<open>Checkers\<close>,
  \<open>MultiThreadStreams\<close>; the arguments that fill them are, in this order, the simultaneous
  transfers, the transfer threads and the checker threads.
\<close>

definition http_request :: "TransferInterfaceRClone \<Rightarrow> string \<Rightarrow> string \<Rightarrow> string \<Rightarrow> string" where
  "http_request i ip rel dest_file =
     object_text
       [(''srcFs'', object_text [(''type'', quoted ''http''),
           (''url'', quoted (''http://'' @ c_str ip @ '':'' @ to_string (rc_port i)))]),
        (''srcRemote'', quoted (c_str rel)),
        (''dstFs'', quoted ''/''), (''dstRemote'', quoted (c_str dest_file)),
        (''_config'', object_text
          [(''BindAddr'', quoted []), (''MultiThreadSet'', ''true''),
           (''Transfers'', to_string (rc_simult_transfers i)),
           (''Checkers'', to_string (rc_transfer_threads i)),
           (''MultiThreadStreams'', to_string (rc_checkers_threads i)),
           (''MultiThreadCutoff'', quoted (c_str (rc_chunk_size i))),
           (''StreamingUploadCutoff'', quoted (c_str (rc_chunk_size i))),
           (''UseMmap'', bool_text (rc_use_mmap i)), (''CheckSum'', bool_text (rc_checksum i)),
           (''BufferSize'', quoted (c_str (rc_buffer_size i))), (''ErrorOnNoTransfer'', ''true'')]),
        (''_async'', ''true'')]"

definition sftp_request :: "TransferInterfaceRClone \<Rightarrow> string \<Rightarrow> string \<Rightarrow> string \<Rightarrow> string" where
  "sftp_request i ip path dest_file =
     object_text
       [(''srcFs'', object_text [(''type'', quoted ''sftp''), (''host'', quoted (c_str ip)),
           (''user'', quoted (c_str (rc_user i))), (''port'', quoted (to_string (rc_port i))),
           (''key_file'', quoted ''/home/ljoly/.ssh/id_rsa''),
           (''disable_concurrent_writes'', quoted ''false''),
           (''concurrency'', quoted (to_string (rc_simult_transfers i)))]),
        (''srcRemote'', quoted (''../..'' @ c_str path)),
        (''dstFs'', quoted ''/''), (''dstRemote'', quoted (c_str dest_file)),
        (''_config'', object_text
          [(''BindAddr'', quoted []), (''MultiThreadSet'', ''true''),
           (''Transfers'', to_string (rc_simult_transfers i)),
           (''Checkers'', to_string (rc_transfer_threads i)),
           (''MultiThreadStreams'', to_string (rc_checkers_threads i)),
           (''MultiThreadCutoff'', quoted (c_str (rc_chunk_size i))),
           (''UseMmap'', bool_text (rc_use_mmap i)), (''CheckSum'', bool_text (rc_checksum i)),
           (''BufferSize'', quoted (c_str (rc_buffer_size i))), (''ErrorOnNoTransfer'', ''true'')]),
        (''_async'', ''true'')]"

text \<open>The copy request: sending it and remembering the job it starts.\<close>

definition rclone_copyfile :: "env \<Rightarrow> tm_ref \<Rightarrow> string \<Rightarrow> (rclone_world, bool) action" where
  "rclone_copyfile E f_meta text =
     bind (sprintf_into 1000 text) (\<lambda>req.
     bind (on_world (requestRPC E ''operations/copyfile'' req)) (\<lambda>res.
       case res of
         None \<Rightarrow> return False
       | Some j \<Rightarrow>
           bind (of_result (case jmember j ''jobid'' of None \<Rightarrow> Inl JsonTypeError | Some v \<Rightarrow> jget_int v)) (\<lambda>job.
           seq (on_self (\<lambda>i. i\<lparr>rc_jobs_id := smap_put f_meta (sint (word_of_int job :: i32)) (rc_jobs_id i)\<rparr>))
           (seq (on_world (requestRPC E ''options/local'' []))
           (return True)))))"

text \<open>With another protocol the request buffer is sent uninitialised.\<close>

definition rclone_download_file :: "env \<Rightarrow> tm_ref \<Rightarrow> string \<Rightarrow> (rclone_world, bool) action" where
  "rclone_download_file E f_meta dest =
     bind self (\<lambda>i. bind (on_world (cell f_meta)) (\<lambda>m.
       let dest_file = path_append dest (get_file_name m); ip = m_ip (tm_src m) in
       if rc_protocol i = ''http'' then
         bind (on_world (ask (\<lambda>t. fs_relative E t (tm_file_path m) (rc_root_folder i))
                          (\<lambda>_. EvFile ''relative'' (tm_file_path m)))) (\<lambda>found.
         bind (of_outcome found) (\<lambda>rel.
           if str_contains rel ''..'' then
             seq (on_world (set_status_at E f_meta ERROR))
             (seq (on_world (update_cell f_meta (set_error_code ''File path is not relative to root folder !'')))
             (return False))
           else rclone_copyfile E f_meta (http_request i ip rel dest_file)))
       else if rc_protocol i = ''sftp'' then
         rclone_copyfile E f_meta (sftp_request i ip (tm_file_path m) dest_file)
       else throw (UndefinedBehaviour ''input_request uninitialised'')))"

definition rclone_pause_file :: "env \<Rightarrow> tm_ref \<Rightarrow> (rclone_world, bool) action" where
  "rclone_pause_file E f_meta =
     seq (on_world (ers_warning (RCloneNotSupportError ''pausing a single file. Pausing everything.'')))
     (seq (on_world (requestRPC E ''core/bwlimit'' (object_text [(''bytesPerSecond'', ''0'')])))
     (return True))"

definition rclone_resume_file :: "env \<Rightarrow> tm_ref \<Rightarrow> (rclone_world, bool) action" where
  "rclone_resume_file E f_meta =
     seq (on_world (ers_warning (RCloneNotSupportError ''resuming a single file. Resuming everything.'')))
     (bind self (\<lambda>i.
      bind (sprintf_into 100 (object_text [(''bytesPerSecond'', c_str (rc_bwlimit i))])) (\<lambda>req.
      seq (on_world (requestRPC E ''core/bwlimit'' req))
      (return True))))"

definition rclone_hash_file :: "env \<Rightarrow> tm_ref \<Rightarrow> (rclone_world, bool) action" where
  "rclone_hash_file E f_meta = return True"

definition rclone_cancel_file :: "env \<Rightarrow> tm_ref \<Rightarrow> (rclone_world, bool) action" where
  "rclone_cancel_file E f_meta =
     bind self (\<lambda>i.
       case map_of (rc_jobs_id i) f_meta of
         None \<Rightarrow> return False
       | Some job_id \<Rightarrow>
           bind (sprintf_into 100 (object_text [(''jobid'', to_string job_id)])) (\<lambda>req.
           seq (on_world (requestRPC E ''job/stop'' req))
           (return True)))"

section \<open>The polling thread\<close>

text \<open>
  \<open>j[k]\<close> on a mutable object yields null for a missing member, and throws on a value that is
  not an object; on a constant object a missing member is undefined behaviour.
\<close>

definition jindex :: "json \<Rightarrow> string \<Rightarrow> exn + json" where
  "jindex j k =
     (case j of JObj m \<Rightarrow> Inr (case map_of m k of None \<Rightarrow> JNull | Some v \<Rightarrow> v)
      | JNull \<Rightarrow> Inr JNull | _ \<Rightarrow> Inl JsonTypeError)"

definition jindex_const :: "json \<Rightarrow> string \<Rightarrow> exn + json" where
  "jindex_const j k =
     (case jmember j k of None \<Rightarrow> Inl (UndefinedBehaviour ''const operator[]'') | Some v \<Rightarrow> Inr v)"

fun jget_array :: "json \<Rightarrow> exn + json list" where
  "jget_array (JArr js) = Inr js"
| "jget_array _ = Inl JsonTypeError"

definition jget_i32 :: "json \<Rightarrow> exn + int" where
  "jget_i32 v = rbind (jget_int v) (\<lambda>i. Inr (sint (word_of_int i :: i32)))"

definition after_slash :: "string \<Rightarrow> string" where
  "after_slash grp = (case find_sub ''/'' grp of None \<Rightarrow> grp | Some p \<Rightarrow> drop (Suc p) grp)"

definition rclone_progress :: "json \<Rightarrow> (rclone_world, unit) action" where
  "rclone_progress t =
     bind (of_result (rbind (jindex_const t ''group'') jget_string)) (\<lambda>grp.
     bind (of_result (stoi (after_slash grp))) (\<lambda>job_id.
     bind self (\<lambda>i.
       case List.find (\<lambda>(meta, n). n = job_id) (rc_jobs_id i) of
         None \<Rightarrow> return ()
       | Some (meta, _) \<Rightarrow>
           bind (of_result (rbind (jindex_const t ''percentage'') jget_i32)) (\<lambda>pct.
           seq (on_world (try_update_cell meta (set_progress pct)))
           (bind (of_result (rbind (jindex_const t ''speedAvg'') jget_i32)) (\<lambda>sp.
            on_world (update_cell meta (set_transmission_speed (word_of_int sp)))))))))"

definition rclone_job_status :: "env \<Rightarrow> tm_ref \<times> int \<Rightarrow> (rclone_world, unit) action" where
  "rclone_job_status E = (\<lambda>(meta, n).
     bind (sprintf_into 100 (object_text [(''jobid'', to_string n)])) (\<lambda>req.
     bind (on_world (requestRPC E ''job/status'' req)) (\<lambda>res.
       case res of
         None \<Rightarrow> return ()
       | Some j \<Rightarrow>
           bind (of_result (jindex j ''finished'')) (\<lambda>fin.
           bind (if fin = JNull then return False else of_result (jget_bool fin)) (\<lambda>finished.
             if \<not> finished then return ()
             else bind (of_result (rbind (jindex j ''success'') jget_bool)) (\<lambda>success.
               seq (if success then
                      seq (on_world (set_status_at E meta FINISHED))
                        (on_world (try_update_cell meta (set_progress 100)))
                    else
                      seq (on_world (set_status_at E meta ERROR))
                        (bind (of_result (rbind (jindex j ''error'') jget_string)) (\<lambda>e.
                         on_world (update_cell meta (set_error_code e)))))
                 (on_world (update_cell meta (set_transmission_speed 0)))))))))"

text \<open>One round of \<open>do_work\<close>.\<close>

definition rclone_poll :: "env \<Rightarrow> (rclone_world, unit) action" where
  "rclone_poll E =
     bind (on_world (requestRPC E ''core/stats'' ''{}'')) (\<lambda>stats.
     seq (case stats of
            None \<Rightarrow> return ()
          | Some j \<Rightarrow>
              bind (of_result (jindex j ''transferring'')) (\<lambda>tr.
                if tr = JNull then return ()
                else bind (of_result (jget_array tr)) (\<lambda>ts. for_each rclone_progress ts)))
     (bind self (\<lambda>i.
      seq (for_each (rclone_job_status E) (rc_jobs_id i))
        (on_world (sleep_ms (nat (rc_refresh_rate i) * 1000))))))"

section \<open>The contract\<close>

lemma keeps_parse_json: "keeps (only_cells S) (parse_json E s)"
  by (auto simp: parse_json_def only_cells.keeps_return only_cells.keeps_throw split: option.splits)

lemma keeps_requestRPC: "keeps (only_cells S) (requestRPC E meth input)"
  unfolding requestRPC_def
  by (intro only_cells_rules) (auto intro!: only_cells_rules keeps_parse_json)

lemma touches_requestRPC: "keeps (touches S) (on_world (requestRPC E meth input))"
  by (intro touches_on_world keeps_requestRPC)

lemma touches_sprintf: "keeps (touches S) (sprintf_into n s)"
  by (auto simp: sprintf_into_def intro: touches.frame_rules)

lemma touches_case_option:
  "keeps (touches S) f \<Longrightarrow> (\<And>x. keeps (touches S) (g x)) \<Longrightarrow>
     keeps (touches S) (case y of None \<Rightarrow> f | Some x \<Rightarrow> g x)"
  by (cases y) simp_all

lemmas rclone_rules = touches_rules touches_requestRPC touches_sprintf touches_case_option

lemma rclone_copyfile_touches: "keeps (touches {r}) (rclone_copyfile E r text)"
  unfolding rclone_copyfile_def by (intro rclone_rules)

interpretation rclone: transfer_protocol rclone_upload_file rclone_download_file rclone_pause_file
  rclone_resume_file rclone_hash_file rclone_cancel_file
proof
  show "keeps (touches {r}) (rclone_upload_file E r)" for E r
    unfolding rclone_upload_file_def by (intro rclone_rules) simp_all
  show "keeps (touches {r}) (rclone_download_file E r dest)" for E r dest
    unfolding rclone_download_file_def Let_def
    by (intro rclone_rules rclone_copyfile_touches) simp_all
  show "keeps (touches {r}) (rclone_pause_file E r)" for E r
    unfolding rclone_pause_file_def by (intro rclone_rules)
  show "keeps (touches {r}) (rclone_resume_file E r)" for E r
    unfolding rclone_resume_file_def by (intro rclone_rules)
  show "keeps (touches {r}) (rclone_hash_file E r)" for E r
    unfolding rclone_hash_file_def by (intro rclone_rules)
  show "keeps (touches {r}) (rclone_cancel_file E r)" for E r
    unfolding rclone_cancel_file_def by (intro rclone_rules)
qed

section \<open>Properties\<close>

text \<open>
  A job the library reports as finished stays in the job table, so every later round of the
  polling thread marks its transfer finished again and adds the time since the start once more to
  its duration: after two such rounds the duration counts the transfer twice.
\<close>

theorem rclone_poll_counts_duration_again:
  assumes "\<And>t. rclone_rpc E t ''job/status'' (object_text [(''jobid'', to_string n)]) = (200, out)"
    and "json_parse E out = Some (JObj [(''finished'', JBool True), (''success'', JBool True)])"
    and "length (object_text [(''jobid'', to_string n)]) < 100"
    and "rclone_job_status E (r, n) (i, w) = (o1, s1)" "rclone_job_status E (r, n) s1 = (o2, s2)"
  shows "\<exists>t1 t2. tm_duration (w_cells (snd s2) r)
           = tm_duration (w_cells w r) + (t1 - tm_start_time (w_cells w r)) + (t2 - tm_start_time (w_cells w r))
         \<and> EvClock t1 \<in> set (w_trace (snd s2)) \<and> EvClock t2 \<in> set (w_trace (snd s2))
         \<and> rc_jobs_id (fst s2) = rc_jobs_id i"
proof -
  have one: "\<exists>v'. rclone_job_status E (r, n) (k, v) = (Ret (), (k, v'))
      \<and> tm_duration (w_cells v' r) = tm_duration (w_cells v r)
          + (clock_ms E (w_trace v @ [EvRpc ''job/status'' (object_text [(''jobid'', to_string n)]) 200 out])
             - tm_start_time (w_cells v r))
      \<and> tm_start_time (w_cells v' r) = tm_start_time (w_cells v r)
      \<and> w_trace v' = w_trace v @ [EvRpc ''job/status'' (object_text [(''jobid'', to_string n)]) 200 out,
          EvClock (clock_ms E (w_trace v @ [EvRpc ''job/status'' (object_text [(''jobid'', to_string n)]) 200 out]))]"
    for k v
    using assms(1-3)
    by (simp add: rclone_job_status_def sprintf_into_def requestRPC_def ask_def parse_json_def
        jindex_def run_set_status_at timed_def run_try_update_cell_Inr set_progress_def)
      (simp add: set_status_def setter_defs Let_def)
  obtain w1 where w1: "s1 = (i, w1)"
      "\<exists>c. tm_duration (w_cells w1 r) = tm_duration (w_cells w r) + (c - tm_start_time (w_cells w r))
           \<and> EvClock c \<in> set (w_trace w1)"
      "tm_start_time (w_cells w1 r) = tm_start_time (w_cells w r)"
    using one[of i w] assms(4) by force
  obtain w2 where w2: "s2 = (i, w2)"
      "\<exists>c. tm_duration (w_cells w2 r) = tm_duration (w_cells w1 r) + (c - tm_start_time (w_cells w1 r))
           \<and> EvClock c \<in> set (w_trace w2)"
      "set (w_trace w1) \<subseteq> set (w_trace w2)"
    using one[of i w1] assms(5) w1(1) by force
  show ?thesis using w1 w2 by (metis fst_conv snd_conv subsetD)
qed

definition polled_env :: env where
  "polled_env = quiet_env\<lparr>json_parse :=
     (\<lambda>_. Some (JObj [(''finished'', JBool True), (''success'', JBool True)]))\<rparr>"

theorem rclone_poll_counts_duration_again_witness:
  "\<exists>o1 s1 o2 s2 t1 t2.
     rclone_job_status polled_env (0, 7) (rclone_defaults ''/w'', world_init) = (o1, s1)
     \<and> rclone_job_status polled_env (0, 7) s1 = (o2, s2)
     \<and> tm_duration (w_cells (snd s2) 0) = 0 + (t1 - 0) + (t2 - 0)"
proof -
  obtain o1 s1 where 1: "rclone_job_status polled_env (0, 7) (rclone_defaults ''/w'', world_init) = (o1, s1)"
    by (metis prod.exhaust)
  obtain o2 s2 where 2: "rclone_job_status polled_env (0, 7) s1 = (o2, s2)" by (metis prod.exhaust)
  have rpc: "\<And>t. rclone_rpc polled_env t ''job/status'' (object_text [(''jobid'', to_string 7)]) = (200, [])"
    by (simp add: polled_env_def quiet_env_def)
  have js: "json_parse polled_env [] = Some (JObj [(''finished'', JBool True), (''success'', JBool True)])"
    by (simp add: polled_env_def)
  have len: "length (object_text [(''jobid'', to_string 7)]) < 100" by code_simp
  have init: "tm_duration (w_cells world_init 0) = 0" "tm_start_time (w_cells world_init 0) = 0"
    by (simp_all add: world_init_def default_tm_def)
  show ?thesis
    using rclone_poll_counts_duration_again[OF rpc js len 1 2] 1 2 unfolding init by blast
qed

end
