(* ===== verification/Bittorrent_Interface.thy ===== *)
theory Bittorrent_Interface
  imports Rclone_Interface
begin

text \<open>
  \<open>src/common/transfer_interface_bittorrent.cpp\<close>: the operations the session calls, the table
  from file names to transfers, and the two path helpers. libtorrent (parsing links and torrent
  files, the torrents of a session) is a parameter; a request to it is an event.
\<close>

section \<open>Path helpers\<close>

definition is_sep :: "char \<Rightarrow> bool" where
  "is_sep c \<longleftrightarrow> c = CHR ''/'' \<or> c = CHR 0x5C"

text \<open>The loop of \<open>branch_path\<close>: step back until a separator or the start of the string.\<close>

fun branch_len :: "string \<Rightarrow> nat \<Rightarrow> nat" where
  "branch_len f 0 = 0"
| "branch_len f (Suc n) = (if is_sep (f ! n) then n else branch_len f n)"

definition branch_path :: "string \<Rightarrow> string" where
  "branch_path f =
     (if f = [] then f
      else if f = ''/'' then []
      else let len = (if is_sep (last f) then length f - 1 else length f);
               len1 = branch_len f len;
               len2 = (if is_sep (f ! len1) then Suc len1 else len1)
           in take len2 f)"

definition file_filter :: "string \<Rightarrow> bool" where
  "file_filter f =
     (if f = [] then False
      else case filename (c_str f) of [] \<Rightarrow> True | c # _ \<Rightarrow> c \<noteq> CHR ''.'')"

section \<open>State\<close>

record TransferInterfaceBittorrent =
  bt_is_client :: bool
  bt_torrent_num :: int
  bt_peer_num :: int
  bt_paused :: int
  bt_work_dir :: string
  bt_listening_ip :: IPFormat
  bt_filename_to_metadata :: "(string \<times> tm_ref) list"
  bt_rate_limit :: int

type_synonym bt_world = "TransferInterfaceBittorrent \<times> world"

definition TransferInterfaceBittorrent_new ::
  "json \<Rightarrow> bool \<Rightarrow> string \<Rightarrow> IPFormat \<Rightarrow> (world, TransferInterfaceBittorrent) action" where
  "TransferInterfaceBittorrent_new opts is_client work_dir listening_ip =
     bind (of_result (rbind (jindex opts ''port'') jget_string)) (\<lambda>port.
     seq (log_event (EvTorrent ''session'' (m_ip listening_ip @ '':'' @ port)))
     (bind (of_result (opt_int opts ''rate_limit'' (- 1))) (\<lambda>rate_limit.
      return \<lparr>bt_is_client = is_client, bt_torrent_num = 0, bt_peer_num = 0, bt_paused = 0,
              bt_work_dir = work_dir, bt_listening_ip = listening_ip,
              bt_filename_to_metadata = [], bt_rate_limit = rate_limit\<rparr>)))"

definition bt_add_magnet :: "env \<Rightarrow> string \<Rightarrow> string \<Rightarrow> (bt_world, bool) action" where
  "bt_add_magnet E uri dest =
     bind (on_world (ask (\<lambda>t. lt_magnet E t uri) (\<lambda>_. EvTorrent ''parse_magnet'' uri))) (\<lambda>res.
       case res of
         MagnetErrorCode _ \<Rightarrow> seq (on_world (ers_error (BittorrentInvalidMagnetLinkError uri))) (return False)
       | MagnetSystemError e \<Rightarrow> seq (on_world (ers_error (BittorrentInvalidMagnetLinkError e))) (return False)
       | MagnetOk \<Rightarrow> seq (on_world (log_event (EvTorrent ''add'' dest))) (return True))"

definition bt_add_torrent :: "env \<Rightarrow> string \<Rightarrow> string \<Rightarrow> (bt_world, string) action" where
  "bt_add_torrent E torrent dest =
     bind (on_world (ask (\<lambda>t. lt_torrent E t torrent) (\<lambda>_. EvTorrent ''load_torrent'' torrent))) (\<lambda>res.
       case res of
         Inl e \<Rightarrow> seq (on_world (ers_error (BittorrentInvalidTorrentFileError e))) (return [])
       | Inr magnet \<Rightarrow> seq (on_world (log_event (EvTorrent ''add'' dest))) (return magnet))"

text \<open>
  The search through the torrents of the session: \<open>torrent_file()\<close> is null until the metadata of
  a torrent has arrived, and its name is then undefined.
\<close>

fun find_torrent :: "string \<Rightarrow> string option list \<Rightarrow> exn + bool" where
  "find_torrent name [] = Inr False"
| "find_torrent name (None # hs) = Inl (UndefinedBehaviour ''torrent_file()'')"
| "find_torrent name (Some n # hs) = (if n = name then Inr True else find_torrent name hs)"

definition bt_find :: "env \<Rightarrow> string \<Rightarrow> (bt_world, bool) action" where
  "bt_find E name =
     bind (on_world (ask (lt_names E) (\<lambda>_. EvTorrent ''get_torrents'' []))) (\<lambda>hs. of_result (find_torrent name hs))"

section \<open>Operations\<close>

definition bt_upload_file :: "env \<Rightarrow> tm_ref \<Rightarrow> (bt_world, bool) action" where
  "bt_upload_file E f_meta =
     bind self (\<lambda>i. bind (on_world (cell f_meta)) (\<lambda>m.
     bind (bt_add_torrent E (path_append (bt_work_dir i) (get_file_name m @ ''.torrent''))
             (remove_filename (tm_file_path m))) (\<lambda>magnet.
       if magnet = [] then
         seq (on_world (update_cell f_meta (set_error_code ''failed to add torrent to session'')))
         (return False)
       else
         seq (on_self (\<lambda>i. i\<lparr>bt_filename_to_metadata :=
                smap_put (get_file_name m) f_meta (bt_filename_to_metadata i)\<rparr>))
         (return True))))"

definition bt_download_file :: "env \<Rightarrow> tm_ref \<Rightarrow> string \<Rightarrow> (bt_world, bool) action" where
  "bt_download_file E f_meta dest =
     bind (on_world (cell f_meta)) (\<lambda>m.
     seq (on_self (\<lambda>i. i\<lparr>bt_filename_to_metadata :=
            smap_put (get_file_name m) f_meta (bt_filename_to_metadata i)\<rparr>))
     (bind (bt_add_magnet E (tm_magnet_link m) dest) (\<lambda>added.
       if added then return True
       else
         seq (on_self (\<lambda>i. i\<lparr>bt_filename_to_metadata :=
                smap_del (get_file_name m) (bt_filename_to_metadata i)\<rparr>))
         (seq (on_world (update_cell f_meta (set_error_code ''failed to add magnet link to session'')))
         (return False)))))"

definition bt_pause_file :: "env \<Rightarrow> tm_ref \<Rightarrow> (bt_world, bool) action" where
  "bt_pause_file E f_meta =
     bind (on_world (cell f_meta)) (\<lambda>m.
     bind (bt_find E (get_file_name m)) (\<lambda>found.
     seq (if found then
            seq (on_self (\<lambda>i. i\<lparr>bt_paused := bt_paused i + 1\<rparr>))
              (on_world (log_event (EvTorrent ''pause'' (get_file_name m))))
          else return ())
     (return True)))"

text \<open>A torrent that is not in the session is added again from its resume data.\<close>

definition bt_resume_from_data :: "env \<Rightarrow> tm_ref \<Rightarrow> string \<Rightarrow> string \<Rightarrow> string \<Rightarrow> (bt_world, bool) action" where
  "bt_resume_from_data E f_meta name file buf =
     (if buf = [] then
        seq (on_world (ers_error (BittorrentLoadResumeFileError name)))
        (seq (on_world (update_cell f_meta (set_error_code ''failed to load resume data'')))
        (return False))
      else
        bind (on_world (ask (\<lambda>t. lt_resume E t buf) (\<lambda>_. EvTorrent ''read_resume_data'' file))) (\<lambda>r.
        seq (of_outcome r)
        (seq (on_self (\<lambda>i. i\<lparr>bt_filename_to_metadata := smap_put name f_meta (bt_filename_to_metadata i)\<rparr>))
        (seq (on_world (log_event (EvTorrent ''add'' file)))
        (return True)))))"

definition bt_resume_missing :: "env \<Rightarrow> tm_ref \<Rightarrow> string \<Rightarrow> (bt_world, bool) action" where
  "bt_resume_missing E f_meta name =
     bind self (\<lambda>i.
       let file = path_append (bt_work_dir i) (''.resume_file'' @ name) in
       bind (on_world (ask (\<lambda>t. fs_binary E t file) (\<lambda>_. EvFile ''load'' file))) (\<lambda>loaded.
       bind (of_outcome loaded) (bt_resume_from_data E f_meta name file)))"

definition bt_resume_file :: "env \<Rightarrow> tm_ref \<Rightarrow> (bt_world, bool) action" where
  "bt_resume_file E f_meta =
     bind (on_world (cell f_meta)) (\<lambda>m.
     bind (bt_find E (get_file_name m)) (\<lambda>found.
       if found then
         seq (on_self (\<lambda>i. i\<lparr>bt_paused := bt_paused i - 1\<rparr>))
         (seq (on_world (log_event (EvTorrent ''resume'' (get_file_name m))))
         (return True))
       else bt_resume_missing E f_meta (get_file_name m)))"

definition bt_remove :: "env \<Rightarrow> string \<Rightarrow> (bt_world, unit) action" where
  "bt_remove E file =
     bind (on_world (ask (\<lambda>t. fs_remove E t file) (\<lambda>_. EvFile ''remove'' file))) of_outcome"

definition bt_cancel_file :: "env \<Rightarrow> tm_ref \<Rightarrow> (bt_world, bool) action" where
  "bt_cancel_file E f_meta =
     bind (on_world (cell f_meta)) (\<lambda>m.
     bind (bt_find E (get_file_name m)) (\<lambda>found.
     seq (if found then on_world (log_event (EvTorrent ''remove'' (get_file_name m))) else return ())
     (seq (on_world (sleep_ms 1000))
     (seq (on_self (\<lambda>i. i\<lparr>bt_filename_to_metadata :=
             smap_del (get_file_name m) (bt_filename_to_metadata i)\<rparr>))
     (bind self (\<lambda>i.
      seq (bt_remove E (path_append (bt_work_dir i) (''.resume_file'' @ get_file_name m)))
      (seq (if \<not> bt_is_client i then bt_remove E (path_append (bt_work_dir i) (get_file_name m @ ''.torrent''))
            else bt_remove E (path_append (bt_work_dir i) (get_file_name m)))
      (return True))))))))"

definition bt_hash_file :: "env \<Rightarrow> tm_ref \<Rightarrow> (bt_world, bool) action" where
  "bt_hash_file E f_meta = return True"

text \<open>The resume data the worker thread writes for a torrent.\<close>

definition bt_save_resume_path :: "TransferInterfaceBittorrent \<Rightarrow> string \<Rightarrow> string" where
  "bt_save_resume_path i name = path_append (bt_work_dir i) (''.resume_file_'' @ name)"

text \<open>
  \<open>generate_torrents_files\<close>: one torrent file per transfer; \<open>make_torrent\<close> catches every
  exception of libtorrent and its result is not used.
\<close>

definition bt_generate_torrents_files :: "string \<Rightarrow> tm_ref list \<Rightarrow> (world, unit) action" where
  "bt_generate_torrents_files dest refs =
     for_each (\<lambda>r. bind (cell r) (\<lambda>m.
       log_event (EvTorrent ''make_torrent'' (path_append dest (get_file_name m @ ''.torrent''))))) refs"

section \<open>The contract\<close>

lemma touches_case_magnet:
  "keeps (touches S) f \<Longrightarrow> (\<And>e. keeps (touches S) (g e)) \<Longrightarrow> (\<And>e. keeps (touches S) (h e)) \<Longrightarrow>
     keeps (touches S) (case x of MagnetErrorCode e \<Rightarrow> g e | MagnetSystemError e \<Rightarrow> h e | MagnetOk \<Rightarrow> f)"
  by (cases x) simp_all

lemma touches_case_sum:
  "(\<And>e. keeps (touches S) (g e)) \<Longrightarrow> (\<And>e. keeps (touches S) (h e)) \<Longrightarrow>
     keeps (touches S) (case x of Inl e \<Rightarrow> g e | Inr e \<Rightarrow> h e)"
  by (cases x) simp_all

lemmas bt_rules = touches_rules touches_case_magnet touches_case_sum

lemma bt_helpers_touch:
  "keeps (touches S) (bt_add_magnet E uri dest)" "keeps (touches S) (bt_add_torrent E torrent dest)"
  "keeps (touches S) (bt_find E name)" "keeps (touches S) (bt_remove E file)"
  unfolding bt_add_magnet_def bt_add_torrent_def bt_find_def bt_remove_def
  by (intro bt_rules)+

interpretation bittorrent: transfer_protocol bt_upload_file bt_download_file bt_pause_file
  bt_resume_file bt_hash_file bt_cancel_file
proof
  show "keeps (touches {r}) (bt_upload_file E r)" for E r
    unfolding bt_upload_file_def by (intro bt_rules bt_helpers_touch) simp_all
  show "keeps (touches {r}) (bt_download_file E r dest)" for E r dest
    unfolding bt_download_file_def by (intro bt_rules bt_helpers_touch) simp_all
  show "keeps (touches {r}) (bt_pause_file E r)" for E r
    unfolding bt_pause_file_def by (intro bt_rules bt_helpers_touch)
  show "keeps (touches {r}) (bt_resume_file E r)" for E r
    unfolding bt_resume_file_def bt_resume_missing_def bt_resume_from_data_def Let_def
    by (intro bt_rules bt_helpers_touch) simp_all
  show "keeps (touches {r}) (bt_hash_file E r)" for E r
    unfolding bt_hash_file_def by (intro bt_rules)
  show "keeps (touches {r}) (bt_cancel_file E r)" for E r
    unfolding bt_cancel_file_def by (intro bt_rules bt_helpers_touch)
qed

section \<open>Lemmas\<close>

lemma branch_len_skip:
  "(\<And>k. k < m \<Longrightarrow> \<not> is_sep (f ! (n + k))) \<Longrightarrow> branch_len f (n + m) = branch_len f n"
  by (induction m) (auto simp: less_Suc_eq)

lemma is_sep_slash: "is_sep (CHR ''/'')"
  by (simp add: is_sep_def)

lemma path_append_relative_inj:
  "\<not> is_absolute a \<Longrightarrow> \<not> is_absolute b \<Longrightarrow> path_append d a = path_append d b \<Longrightarrow> a = b"
  by (auto simp: path_append_def split: if_splits)

lemma bt_find_run:
  "find_torrent name (lt_names E (w_trace w)) = Inr b \<Longrightarrow>
     bt_find E name (i, w) = (Ret b, (i, w\<lparr>w_trace := w_trace w @ [EvTorrent ''get_torrents'' []]\<rparr>))"
  by (simp add: bt_find_def ask_def)

lemma resume_from_data_grows:
  "\<exists>es. w_trace (snd (snd (bt_resume_from_data E r name file buf (i, w)))) = w_trace w @ es"
proof -
  have "keeps (touches {r}) (bt_resume_from_data E r name file buf)"
    unfolding bt_resume_from_data_def by (intro bt_rules) simp_all
  then show ?thesis
    using keepsD[of "touches {r}" "bt_resume_from_data E r name file buf" "(i, w)"] by (force simp: touches_def only_cells_def)
qed

lemma resume_missing_trace:
  fixes i name
  defines "file \<equiv> path_append (bt_work_dir i) (''.resume_file'' @ name)"
  shows "\<exists>es. w_trace (snd (snd (bt_resume_missing E r name (i, w)))) = w_trace w @ EvFile ''load'' file # es"
proof (cases "fs_binary E (w_trace w) file")
  case (Ret buf)
  define w1 where "w1 = w\<lparr>w_trace := w_trace w @ [EvFile ''load'' file]\<rparr>"
  have "bt_resume_missing E r name (i, w) = bt_resume_from_data E r name file buf (i, w1)"
    using Ret by (simp add: w1_def bt_resume_missing_def file_def ask_def Let_def)
  then show ?thesis using resume_from_data_grows[where i=i and w=w1] by (fastforce simp: w1_def)
next
  case (Raise e)
  then show ?thesis by (simp add: bt_resume_missing_def file_def ask_def Let_def)
qed

section \<open>Properties\<close>

text \<open>
  The branch path of a file, which libtorrent hashes from, is its directory with the trailing
  separator.
\<close>

lemma branch_path_is_directory:
  assumes "name \<noteq> []" "list_all (\<lambda>c. \<not> is_sep c) name"
  shows "branch_path (dir @ ''/'' @ name) = dir @ ''/''"
proof -
  let ?f = "dir @ ''/'' @ name"
  have nosep: "\<not> is_sep (?f ! (Suc (length dir) + k))" if "k < length name" for k
    using assms(2) that by (simp add: nth_append list_all_length)
  have last: "\<not> is_sep (last ?f)"
    using assms by (simp add: list_all_iff)
  have len: "branch_len ?f (length ?f) = length dir"
    using branch_len_skip[of "length name" ?f "Suc (length dir)", OF nosep] is_sep_slash
    by (simp add: nth_append)
  have "?f \<noteq> ''/''" using assms(1) by (cases dir) auto
  then show ?thesis
    using last len is_sep_slash by (simp add: branch_path_def Let_def nth_append)
qed

text \<open>
  Resuming a torrent that is no longer in the session loads a resume file whose name is not
  the one the worker thread saves the resume data under.
\<close>

theorem resume_reads_unsaved_file:
  assumes "lt_names E (w_trace w) = []" "bt_resume_file E r (i, w) = (out, (i', w'))"
  shows "\<exists>file es. w_trace w' = w_trace w @ EvTorrent ''get_torrents'' [] # EvFile ''load'' file # es
           \<and> file = path_append (bt_work_dir i) (''.resume_file'' @ get_file_name (w_cells w r))
           \<and> file \<noteq> bt_save_resume_path i (get_file_name (w_cells w r))"
proof -
  let ?name = "get_file_name (w_cells w r)"
  let ?file = "path_append (bt_work_dir i) (''.resume_file'' @ ?name)"
  let ?t = "w_trace w @ [EvTorrent ''get_torrents'' []]"
  have neq: "?file \<noteq> bt_save_resume_path i ?name"
    unfolding bt_save_resume_path_def
    by (rule notI, drule path_append_relative_inj[rotated 2]) (auto simp: is_absolute_iff)
  have "find_torrent ?name (lt_names E (w_trace w)) = Inr False" using assms(1) by simp
  note found = bt_find_run[OF this, of i]
  have run: "bt_resume_file E r (i, w) = bt_resume_missing E r ?name (i, w\<lparr>w_trace := ?t\<rparr>)"
    by (simp add: bt_resume_file_def cell_def found)
  have "\<exists>es. w_trace w' = ?t @ EvFile ''load'' ?file # es"
    using resume_missing_trace[of E r ?name i "w\<lparr>w_trace := ?t\<rparr>"]
    unfolding run[symmetric] assms(2) by simp
  with neq show ?thesis by auto
qed

definition sample_bt :: TransferInterfaceBittorrent where
  "sample_bt = \<lparr>bt_is_client = True, bt_torrent_num = 0, bt_peer_num = 0, bt_paused = 1,
     bt_work_dir = ''/work'', bt_listening_ip = default_ip, bt_filename_to_metadata = [], bt_rate_limit = - 1\<rparr>"

theorem resume_reads_unsaved_file_witness:
  "\<exists>out i' w' file. bt_resume_file quiet_env 0 (sample_bt, world_init\<lparr>w_cells := (\<lambda>_. sample_tm)\<rparr>) = (out, (i', w'))
     \<and> EvFile ''load'' file \<in> set (w_trace w') \<and> file \<noteq> bt_save_resume_path sample_bt ''run1.hdf5''"
proof -
  let ?w = "world_init\<lparr>w_cells := (\<lambda>_. sample_tm)\<rparr>"
  obtain out i' w' where run: "bt_resume_file quiet_env 0 (sample_bt, ?w) = (out, (i', w'))"
    by (metis prod.exhaust)
  have names: "lt_names quiet_env (w_trace ?w) = []" by (simp add: quiet_env_def)
  have "get_file_name sample_tm = ''run1.hdf5''" by code_simp
  then show ?thesis
    using resume_reads_unsaved_file[OF names run] run by (auto intro!: exI)
qed

end
