(* ===== verification/Notification_Interface.thy ===== *)
theory Notification_Interface
  imports Group_Metadata
begin

text \<open>
  \<open>include/snbmodules/notification_interface.hpp\<close> and \<open>src/common/notification_interface.cpp\<close>:
  the connections a component knows, sending a notification with retries, listening with a
  filter on the sender, and looking up the connections. The network itself is a parameter.
\<close>

section \<open>Model\<close>

record NotificationInterface =
  ni_bookkeepers_conn :: "string list"
  ni_clients_conn :: "string list"
  ni_timeout_send :: int
  ni_timeout_receive :: int
  ni_connection_prefix :: string
  ni_max_tries :: int

definition NotificationInterface_new :: "string \<Rightarrow> int \<Rightarrow> int \<Rightarrow> NotificationInterface" where
  "NotificationInterface_new connection_prefix timeout_send timeout_receive =
     \<lparr>ni_bookkeepers_conn = [], ni_clients_conn = [], ni_timeout_send = timeout_send,
      ni_timeout_receive = timeout_receive, ni_connection_prefix = connection_prefix, ni_max_tries = 3\<rparr>"

definition NotificationInterface_with_conns ::
  "string list \<Rightarrow> string list \<Rightarrow> string \<Rightarrow> int \<Rightarrow> int \<Rightarrow> NotificationInterface" where
  "NotificationInterface_with_conns bk_conn client_conn connection_prefix timeout_send timeout_receive =
     (NotificationInterface_new connection_prefix timeout_send timeout_receive)
       \<lparr>ni_bookkeepers_conn := bk_conn, ni_clients_conn := client_conn\<rparr>"

text \<open>The connection a message goes to: a client connection wins over a bookkeeper connection.\<close>

definition resolve_conn :: "NotificationInterface \<Rightarrow> string \<Rightarrow> string" where
  "resolve_conn ni id_conn =
     (let after_bk = (case List.find (\<lambda>c. str_contains c id_conn) (ni_bookkeepers_conn ni) of
                        Some c \<Rightarrow> c | None \<Rightarrow> id_conn)
      in case List.find (\<lambda>c. str_contains c id_conn) (ni_clients_conn ni) of
           Some c \<Rightarrow> c | None \<Rightarrow> after_bk)"

definition effective_tries :: "NotificationInterface \<Rightarrow> int \<Rightarrow> int" where
  "effective_tries ni tries = (if tries = - 1 then ni_max_tries ni else tries)"

function send_notification ::
  "env \<Rightarrow> NotificationInterface \<Rightarrow> e_notification_type \<Rightarrow> string \<Rightarrow> string \<Rightarrow> string \<Rightarrow> string \<Rightarrow> int
     \<Rightarrow> (world, bool) action" where
  "send_notification E ni notif src dst id_conn dat tries =
     (let n = effective_tries ni tries;
          real_conn_id = resolve_conn ni id_conn;
          notif_data = NotificationData_new src dst notif dat
      in bind (ask (\<lambda>t. io_try_send E t real_conn_id notif_data) (EvSend real_conn_id notif_data)) (\<lambda>sent.
         bind (of_outcome sent) (\<lambda>result.
           if \<not> result then
             seq (ers_error (NotificationSendError real_conn_id))
               (if n \<le> 1 then return False
                else seq (sleep_ms (nat (ni_timeout_send ni)))
                       (send_notification E ni notif src dst real_conn_id dat (n - 1)))
           else return result)))"
  by pat_completeness auto

termination
  by (relation "measure (\<lambda>(E, ni, _, _, _, _, _, tries). nat (max 0 (effective_tries ni tries)))")
    (auto simp: effective_tries_def)

function listen_for_notification ::
  "env \<Rightarrow> NotificationInterface \<Rightarrow> string \<Rightarrow> string \<Rightarrow> int \<Rightarrow> int \<Rightarrow> (world, NotificationData option) action" where
  "listen_for_notification E ni id_conn expected_from timeout tries =
     (let n = effective_tries ni tries;
          tmo = (if timeout = - 1 then ni_timeout_receive ni else timeout)
      in bind (ask (\<lambda>t. io_try_receive E t id_conn tmo) (EvReceive id_conn)) (\<lambda>received.
         bind (of_outcome received) (\<lambda>msg.
           case msg of
             None \<Rightarrow> return None
           | Some d \<Rightarrow>
               if expected_from \<noteq> [] \<and> \<not> str_contains expected_from (m_source_id d) then
                 (if n \<le> 1 then return None
                  else listen_for_notification E ni id_conn expected_from tmo (n - 1))
               else return (Some d))))"
  by pat_completeness auto

termination
  by (relation "measure (\<lambda>(E, ni, _, _, _, tries). nat (max 0 (effective_tries ni tries)))")
    (auto simp: effective_tries_def)

declare send_notification.simps [simp del] listen_for_notification.simps [simp del]

definition lookup_pattern ::
  "env \<Rightarrow> string \<Rightarrow> (string list \<Rightarrow> NotificationInterface \<Rightarrow> NotificationInterface)
     \<Rightarrow> (NotificationInterface \<times> world, unit) action" where
  "lookup_pattern E pat add =
     bind (on_world (ask (\<lambda>t. io_connections E t pat) (EvLookup pat))) (\<lambda>found.
       case found of Ret uids \<Rightarrow> on_self (add uids) | Raise _ \<Rightarrow> return ())"

definition lookups_connections :: "env \<Rightarrow> (NotificationInterface \<times> world, unit) action" where
  "lookups_connections E =
     bind self (\<lambda>ni.
       seq (lookup_pattern E (ni_connection_prefix ni @ ''.*bookkeeper.*'')
              (\<lambda>uids ni. ni\<lparr>ni_bookkeepers_conn := ni_bookkeepers_conn ni @ uids\<rparr>))
         (lookup_pattern E (ni_connection_prefix ni @ ''.*transfer.*'')
              (\<lambda>uids ni. ni\<lparr>ni_clients_conn := fold sset_insert uids (ni_clients_conn ni)\<rparr>)))"

section \<open>Lemmas\<close>

lemma str_contains_trans: "str_contains a b \<Longrightarrow> str_contains b c \<Longrightarrow> str_contains a c"
  unfolding str_contains_iff by (metis append.assoc)

lemma find_contains_again:
  assumes "List.find (\<lambda>c. str_contains c s) cs = Some d"
  shows "List.find (\<lambda>c. str_contains c d) cs = Some d"
proof -
  obtain i where i: "i < length cs" "str_contains (cs ! i) s" "d = cs ! i"
      "\<And>j. j < i \<Longrightarrow> \<not> str_contains (cs ! j) s"
    using assms by (auto simp: find_Some_iff)
  have "\<not> str_contains (cs ! j) d" if "j < i" for j
    using i(4)[OF that] i(2,3) str_contains_trans by blast
  then show ?thesis using i by (auto simp: find_Some_iff)
qed

lemma find_contains_none:
  assumes "List.find (\<lambda>c. str_contains c s) cs = None" "str_contains d s"
  shows "List.find (\<lambda>c. str_contains c d) cs = None"
  using assms str_contains_trans by (auto simp: find_None_iff)

lemma find_contains_sub: "List.find (\<lambda>c. str_contains c s) cs = Some d \<Longrightarrow> str_contains d s"
  by (auto simp: find_Some_iff)

text \<open>A retry, which resolves the connection again from the name it used, stays on it.\<close>

lemma resolve_conn_idem [simp]: "resolve_conn ni (resolve_conn ni s) = resolve_conn ni s"
proof (cases "List.find (\<lambda>c. str_contains c s) (ni_clients_conn ni)")
  case (Some c)
  then show ?thesis using find_contains_again[OF Some] by (simp add: resolve_conn_def)
next
  case cl: None
  show ?thesis
  proof (cases "List.find (\<lambda>c. str_contains c s) (ni_bookkeepers_conn ni)")
    case None
    then show ?thesis using cl by (simp add: resolve_conn_def)
  next
    case (Some b)
    then show ?thesis
      using cl find_contains_again[OF Some] find_contains_none[OF cl find_contains_sub[OF Some]]
      by (simp add: resolve_conn_def)
  qed
qed

fun sends :: "trace \<Rightarrow> (string \<times> NotificationData \<times> bool outcome) list" where
  "sends [] = []"
| "sends (EvSend c d r # es) = (c, d, r) # sends es"
| "sends (_ # es) = sends es"

fun receives :: "trace \<Rightarrow> NotificationData option outcome list" where
  "receives [] = []"
| "receives (EvReceive c r # es) = r # receives es"
| "receives (_ # es) = receives es"

lemma sends_append [simp]: "sends (a @ b) = sends a @ sends b"
  by (induction a rule: sends.induct) simp_all

lemma receives_append [simp]: "receives (a @ b) = receives a @ receives b"
  by (induction a rule: receives.induct) simp_all

text \<open>What one call of \<open>send_notification\<close> leaves in the trace.\<close>

definition send_run ::
  "string \<Rightarrow> NotificationData \<Rightarrow> nat \<Rightarrow> bool outcome \<Rightarrow> trace \<Rightarrow> bool" where
  "send_run conn msg n out es \<longleftrightarrow>
     sends es \<noteq> [] \<and> length (sends es) \<le> n
     \<and> list_all (\<lambda>(c, d, _). c = conn \<and> d = msg) (sends es)
     \<and> list_all (\<lambda>(_, _, r). r = Ret False) (butlast (sends es))
     \<and> snd (snd (last (sends es))) = out
     \<and> (out = Ret False \<longrightarrow> length (sends es) = n)"

lemma send_run_step:
  assumes "send_run conn msg n out es" "sends ev = []"
  shows "send_run conn msg (Suc n) out (EvSend conn msg (Ret False) # ev @ es)"
  using assms by (auto simp: send_run_def)

lemma send_notification_run:
  assumes "send_notification E ni notif src dst id_conn dat tries w = (out, w')"
  shows "\<exists>es. w' = w\<lparr>w_trace := w_trace w @ es\<rparr>
           \<and> send_run (resolve_conn ni id_conn) (NotificationData_new src dst notif dat)
               (nat (max 1 (effective_tries ni tries))) out es"
  using assms
proof (induction E ni notif src dst id_conn dat tries arbitrary: w rule: send_notification.induct)
  case (1 E ni notif src dst id_conn dat tries)
  let ?n = "effective_tries ni tries" and ?c = "resolve_conn ni id_conn"
  let ?d = "NotificationData_new src dst notif dat"
  let ?o = "io_try_send E (w_trace w) ?c ?d"
  note run = "1.prems"[unfolded send_notification.simps[of E ni notif src dst id_conn dat tries] Let_def]
  consider (throws) e where "?o = Raise e" | (sent) "?o = Ret True"
    | (last) "?o = Ret False" "?n \<le> 1" | (more) "?o = Ret False" "1 < ?n"
    by (metis (full_types) not_less outcome.exhaust)
  then show ?case
  proof cases
    case throws
    then have "out = Raise e" "w' = w\<lparr>w_trace := w_trace w @ [EvSend ?c ?d (Raise e)]\<rparr>"
      using run by (auto simp: ask_def)
    then show ?thesis by (intro exI[of _ "[EvSend ?c ?d (Raise e)]"]) (auto simp: send_run_def)
  next
    case sent
    then have "out = Ret True" "w' = w\<lparr>w_trace := w_trace w @ [EvSend ?c ?d (Ret True)]\<rparr>"
      using run by (auto simp: ask_def)
    then show ?thesis by (intro exI[of _ "[EvSend ?c ?d (Ret True)]"]) (auto simp: send_run_def)
  next
    case last
    let ?es = "[EvSend ?c ?d (Ret False), EvIssue Err (NotificationSendError ?c)]"
    have "out = Ret False" "w' = w\<lparr>w_trace := w_trace w @ ?es\<rparr>"
      using run last by (auto simp: ask_def ers_error_def log_event_def)
    then show ?thesis using last by (intro exI[of _ ?es]) (auto simp: send_run_def)
  next
    case more
    let ?ev = "[EvIssue Err (NotificationSendError ?c), EvSleep (nat (ni_timeout_send ni))]"
    let ?w = "w\<lparr>w_trace := w_trace w @ EvSend ?c ?d (Ret False) # ?ev\<rparr>"
    have rec: "send_notification E ni notif src dst ?c dat (?n - 1) ?w = (out, w')"
      using run more by (simp add: ask_def ers_error_def sleep_ms_def log_event_def)
    from "1.IH"[OF refl refl refl _ _ rec] more
    obtain es where es: "w' = ?w\<lparr>w_trace := w_trace ?w @ es\<rparr>"
        "send_run ?c ?d (nat (max 1 (effective_tries ni (?n - 1)))) out es"
      by auto
    have "effective_tries ni (?n - 1) = ?n - 1" using more by (simp add: effective_tries_def)
    then have "Suc (nat (max 1 (effective_tries ni (?n - 1)))) = nat (max 1 ?n)"
      using more by simp
    then have "send_run ?c ?d (nat (max 1 ?n)) out (EvSend ?c ?d (Ret False) # ?ev @ es)"
      using send_run_step[OF es(2), of ?ev] by simp
    then show ?thesis
      using es(1) by (intro exI[of _ "EvSend ?c ?d (Ret False) # ?ev @ es"]) simp
  qed
qed

text \<open>The notifications of a trace that got through, and what one call of \<open>send_notification\<close> adds to them.\<close>

definition delivered_notifications :: "trace \<Rightarrow> NotificationData list" where
  "delivered_notifications t = map (\<lambda>(c, d, r). d) (filter (\<lambda>(c, d, r). r = Ret True) (sends t))"

lemma delivered_notifications_append [simp]:
  "delivered_notifications (a @ b) = delivered_notifications a @ delivered_notifications b"
  by (simp add: delivered_notifications_def)

lemma send_run_delivers:
  assumes "send_run conn msg n out es"
  shows "delivered_notifications es = (if out = Ret True then [msg] else [])"
proof -
  have s: "sends es = butlast (sends es) @ [last (sends es)]" using assms by (simp add: send_run_def)
  obtain c d r where l: "last (sends es) = (c, d, r)" by (cases "last (sends es)")
  have "(c, d, r) \<in> set (sends es)" using assms l last_in_set[of "sends es"] by (simp add: send_run_def)
  then have "d = msg" "r = out"
    using assms l unfolding send_run_def list_all_iff by auto
  moreover have "filter (\<lambda>(c, d, r). r = Ret True) (butlast (sends es)) = []"
    using assms by (auto simp: send_run_def list_all_iff filter_empty_conv)
  ultimately show ?thesis
    unfolding delivered_notifications_def by (subst (1) s) (simp add: l)
qed

lemma send_delivers:
  assumes "send_notification E ni notif src dst id_conn dat tries w = (out, w')"
  shows "\<exists>es. w' = w\<lparr>w_trace := w_trace w @ es\<rparr>
           \<and> delivered_notifications es = (if out = Ret True then [NotificationData_new src dst notif dat] else [])"
  using send_notification_run[OF assms] send_run_delivers by blast

lemma send_works:
  assumes "\<And>t c d. io_try_send E t c d = Ret True"
  shows "fst (send_notification E ni notif src dst id_conn dat tries w) = Ret True"
  by (simp add: send_notification.simps[of E ni notif src dst id_conn dat tries] Let_def ask_Ret assms)

lemma send_through:
  assumes "\<And>t c d. io_try_send E t c d = Ret True"
  shows "\<exists>es. send_notification E ni notif src dst id_conn dat tries w = (Ret True, w\<lparr>w_trace := w_trace w @ es\<rparr>)
           \<and> delivered_notifications es = [NotificationData_new src dst notif dat]"
  using send_works[OF assms, of ni notif src dst id_conn dat tries w]
    send_delivers[of E ni notif src dst id_conn dat tries w "Ret True"] by (metis prod.collapse)

text \<open>Sending returns when the IOManager does not throw.\<close>

lemma send_returns:
  assumes "\<And>t c d e. io_try_send E t c d \<noteq> Raise e"
  shows "\<exists>sent. fst (send_notification E ni notif src dst id_conn dat tries w) = Ret sent"
  using assms
proof (induction E ni notif src dst id_conn dat tries arbitrary: w rule: send_notification.induct)
  case (1 E ni notif src dst id_conn dat tries)
  let ?n = "effective_tries ni tries" and ?c = "resolve_conn ni id_conn"
  let ?d = "NotificationData_new src dst notif dat"
  let ?o = "io_try_send E (w_trace w) ?c ?d"
  let ?w = "w\<lparr>w_trace := w_trace w @ [EvSend ?c ?d ?o, EvIssue Err (NotificationSendError ?c), EvSleep (nat (ni_timeout_send ni))]\<rparr>"
  note run = send_notification.simps[of E ni notif src dst id_conn dat tries, unfolded Let_def]
  consider "?o = Ret True" | "?o = Ret False" "?n \<le> 1" | "?o = Ret False" "1 < ?n"
    using 1(2) by (metis (full_types) not_less outcome.exhaust)
  then show ?case
  proof cases
    case 3
    have "\<exists>sent. fst (send_notification E ni notif src dst ?c dat (?n - 1) ?w) = Ret sent"
      using 1(1)[OF refl refl refl, of False ?w] 3 1(2) by auto
    then show ?thesis
      using 3 unfolding run by (simp add: ask_Ret ers_error_def log_event_def sleep_ms_def)
  qed (auto simp: run ask_Ret ers_error_def log_event_def)
qed

lemma keeps_send_notification:
  "keeps (only_cells S) (send_notification E ni notif src dst id_conn dat tries)"
proof
  fix w
  obtain out w' where run: "send_notification E ni notif src dst id_conn dat tries w = (out, w')"
    by (metis prod.exhaust)
  then show "only_cells S w (snd (send_notification E ni notif src dst id_conn dat tries w))"
    using send_notification_run[OF run] by (auto simp: only_cells_def)
qed

text \<open>What one call of \<open>listen_for_notification\<close> returns, and how often it received.\<close>

definition listen_run :: "string \<Rightarrow> nat \<Rightarrow> NotificationData option outcome \<Rightarrow> trace \<Rightarrow> bool" where
  "listen_run expected_from n out es \<longleftrightarrow>
     receives es \<noteq> [] \<and> length (receives es) \<le> n
     \<and> (\<forall>d. out = Ret (Some d) \<longrightarrow> last (receives es) = Ret (Some d)
              \<and> (expected_from = [] \<or> str_contains expected_from (m_source_id d)))
     \<and> list_all (\<lambda>r. \<exists>d. r = Ret (Some d) \<and> \<not> str_contains expected_from (m_source_id d))
         (butlast (receives es))"

lemma listen_run_step:
  assumes "listen_run expected_from n out es" "\<not> str_contains expected_from (m_source_id d)"
  shows "listen_run expected_from (Suc n) out (EvReceive c (Ret (Some d)) # es)"
  using assms by (auto simp: listen_run_def)

lemma listen_for_notification_run:
  assumes "listen_for_notification E ni id_conn expected_from timeout tries w = (out, w')"
  shows "\<exists>es. w' = w\<lparr>w_trace := w_trace w @ es\<rparr>
           \<and> listen_run expected_from (nat (max 1 (effective_tries ni tries))) out es"
  using assms
proof (induction E ni id_conn expected_from timeout tries arbitrary: w rule: listen_for_notification.induct)
  case (1 E ni id_conn expected_from timeout tries)
  let ?n = "effective_tries ni tries" and ?t = "if timeout = - 1 then ni_timeout_receive ni else timeout"
  let ?o = "io_try_receive E (w_trace w) id_conn ?t"
  let ?wrong = "\<lambda>d. expected_from \<noteq> [] \<and> \<not> str_contains expected_from (m_source_id d)"
  let ?w = "w\<lparr>w_trace := w_trace w @ [EvReceive id_conn ?o]\<rparr>"
  note run = "1.prems"[unfolded listen_for_notification.simps[of E ni id_conn expected_from timeout tries] Let_def]
  consider (ends) "\<And>d. ?o = Ret (Some d) \<Longrightarrow> \<not> ?wrong d"
    | (last) d where "?o = Ret (Some d)" "?wrong d" "?n \<le> 1"
    | (more) d where "?o = Ret (Some d)" "?wrong d" "1 < ?n"
    by (meson not_less)
  then show ?case
  proof cases
    case ends
    have "out = ?o \<and> w' = ?w"
    proof (cases ?o)
      case (Ret msg)
      then show ?thesis using run ends by (cases msg) (auto simp: ask_def)
    next
      case (Raise e)
      then show ?thesis using run by (auto simp: ask_def)
    qed
    then show ?thesis using ends by (intro exI[of _ "[EvReceive id_conn ?o]"]) (auto simp: listen_run_def)
  next
    case last
    then have "out = Ret None" "w' = ?w" using run by (auto simp: ask_def)
    then show ?thesis by (intro exI[of _ "[EvReceive id_conn ?o]"]) (auto simp: listen_run_def)
  next
    case more
    have rec: "listen_for_notification E ni id_conn expected_from ?t (?n - 1) ?w = (out, w')"
      using run more by (simp add: ask_def)
    from "1.IH"[OF refl refl more(2) _ rec] more
    obtain es where es: "w' = ?w\<lparr>w_trace := w_trace ?w @ es\<rparr>"
        "listen_run expected_from (nat (max 1 (effective_tries ni (?n - 1)))) out es"
      by auto
    have "effective_tries ni (?n - 1) = ?n - 1" using more by (simp add: effective_tries_def)
    then have "Suc (nat (max 1 (effective_tries ni (?n - 1)))) = nat (max 1 ?n)"
      using more by simp
    then have "listen_run expected_from (nat (max 1 ?n)) out (EvReceive id_conn ?o # es)"
      using listen_run_step[OF es(2), of d id_conn] more by simp
    then show ?thesis using es(1) by (intro exI[of _ "EvReceive id_conn ?o # es"]) simp
  qed
qed

section \<open>Properties\<close>

text \<open>
  C29: one call to send a notification makes between one and the requested number of attempts
  (three by default), all with the same message on the same connection although each retry
  resolves the connection again; every attempt but the last timed out; the call returns what the
  last attempt returned, and returns false only after the full number of attempts. Nothing but
  the trace changes.
\<close>

theorem send_notification_attempts:
  assumes "send_notification E ni notif src dst id_conn dat tries w = (out, w')"
  shows "\<exists>es. w' = w\<lparr>w_trace := w_trace w @ es\<rparr> \<and> sends es \<noteq> []
           \<and> length (sends es) \<le> nat (max 1 (effective_tries ni tries))
           \<and> list_all (\<lambda>(c, d, _). c = resolve_conn ni id_conn \<and> d = NotificationData_new src dst notif dat) (sends es)
           \<and> list_all (\<lambda>(_, _, r). r = Ret False) (butlast (sends es))
           \<and> snd (snd (last (sends es))) = out
           \<and> (out = Ret False \<longrightarrow> length (sends es) = nat (max 1 (effective_tries ni tries)))"
  using send_notification_run[OF assms] by (auto simp: send_run_def)

definition sample_ni :: NotificationInterface where
  "sample_ni = NotificationInterface_with_conns [''bookkeeper0''] [''client0'', ''client1''] ''snbmodules'' 10 100"

theorem send_notification_attempts_witness:
  "\<exists>out w' es. send_notification (quiet_env\<lparr>io_try_send := (\<lambda>t _ _. Ret (3 < length t))\<rparr>) sample_ni
        START_TRANSFER ''s'' ''client1_sesg1'' ''client1'' [] (- 1) world_init = (out, w')
     \<and> w' = world_init\<lparr>w_trace := es\<rparr> \<and> sends es \<noteq> [] \<and> length (sends es) \<le> 3
     \<and> snd (snd (last (sends es))) = out"
proof -
  let ?E = "quiet_env\<lparr>io_try_send := (\<lambda>t _ _. Ret (3 < length t))\<rparr>"
  obtain out w' where run: "send_notification ?E sample_ni START_TRANSFER ''s'' ''client1_sesg1''
      ''client1'' [] (- 1) world_init = (out, w')"
    by (metis prod.exhaust)
  have n: "effective_tries sample_ni (- 1) = 3" by code_simp
  show ?thesis
    using send_notification_attempts[OF run] run by (auto simp: n world_init_def)
qed

text \<open>
  C30: listening with a filter receives at most the allowed number of messages; a message it
  returns is the last one received and its sender occurs in the filter; every message received
  before that came from a sender outside the filter and is dropped.
\<close>

theorem listen_for_notification_filters:
  assumes "listen_for_notification E ni id_conn expected_from timeout tries w = (out, w')"
  shows "\<exists>es. w' = w\<lparr>w_trace := w_trace w @ es\<rparr> \<and> receives es \<noteq> []
           \<and> length (receives es) \<le> nat (max 1 (effective_tries ni tries))
           \<and> (\<forall>d. out = Ret (Some d) \<longrightarrow> last (receives es) = Ret (Some d)
                    \<and> (expected_from = [] \<or> str_contains expected_from (m_source_id d)))
           \<and> list_all (\<lambda>r. \<exists>d. r = Ret (Some d) \<and> \<not> str_contains expected_from (m_source_id d))
               (butlast (receives es))"
  using listen_for_notification_run[OF assms] by (auto simp: listen_run_def)

theorem listen_for_notification_filters_witness:
  "let d = NotificationData_new ''client0'' ''bookkeeper0'' TRANSFER_METADATA [] in
   \<exists>out w' es. listen_for_notification (quiet_env\<lparr>io_try_receive := (\<lambda>_ _ _. Ret (Some d))\<rparr>)
        sample_ni ''bookkeeper0'' ''client1'' (- 1) 2 world_init = (out, w')
     \<and> w' = world_init\<lparr>w_trace := es\<rparr> \<and> receives es \<noteq> [] \<and> length (receives es) \<le> 2"
proof -
  let ?d = "NotificationData_new ''client0'' ''bookkeeper0'' TRANSFER_METADATA []"
  let ?E = "quiet_env\<lparr>io_try_receive := (\<lambda>_ _ _. Ret (Some ?d))\<rparr>"
  obtain out w' where run: "listen_for_notification ?E sample_ni ''bookkeeper0'' ''client1'' (- 1) 2 world_init
      = (out, w')"
    by (metis prod.exhaust)
  have n: "effective_tries sample_ni 2 = 2" by code_simp
  show ?thesis
    using listen_for_notification_filters[OF run] run by (auto simp: n world_init_def Let_def)
qed

text \<open>
  Looking up the connections again, with the same answer of the connectivity service,
  leaves the set of client connections as it is but appends every bookkeeper connection once
  more.
\<close>

theorem lookups_repeat_bookkeepers:
  assumes "\<And>t. io_connections E t (ni_connection_prefix ni @ ''.*bookkeeper.*'') = Ret bks"
    and "\<And>t. io_connections E t (ni_connection_prefix ni @ ''.*transfer.*'') = Ret cls"
    and "lookups_connections E (ni, w) = (out1, (ni1, w1))" "lookups_connections E (ni1, w1) = (out2, (ni2, w2))"
  shows "ni_bookkeepers_conn ni2 = ni_bookkeepers_conn ni @ bks @ bks
         \<and> set (ni_clients_conn ni2) = set (ni_clients_conn ni) \<union> set cls
         \<and> ni_clients_conn ni2 = ni_clients_conn ni1"
proof -
  have idem: "fold sset_insert cls xs = xs" if "set cls \<subseteq> set xs" for xs :: "string list"
    using that by (induction cls arbitrary: xs) (auto simp: sset_insert_def)
  have run: "lookups_connections E (n, v) = (Ret (), (n\<lparr>ni_bookkeepers_conn := ni_bookkeepers_conn n @ bks,
        ni_clients_conn := fold sset_insert cls (ni_clients_conn n)\<rparr>,
        v\<lparr>w_trace := w_trace v @ [EvLookup (ni_connection_prefix ni @ ''.*bookkeeper.*'') (Ret bks),
           EvLookup (ni_connection_prefix ni @ ''.*transfer.*'') (Ret cls)]\<rparr>))"
    if "ni_connection_prefix n = ni_connection_prefix ni" for n v
    using that assms(1,2) by (simp add: lookups_connections_def lookup_pattern_def ask_def)
  have 1: "ni1 = ni\<lparr>ni_bookkeepers_conn := ni_bookkeepers_conn ni @ bks,
                    ni_clients_conn := fold sset_insert cls (ni_clients_conn ni)\<rparr>"
    using assms(3) run[of ni w] by simp
  then have "ni2 = ni1\<lparr>ni_bookkeepers_conn := ni_bookkeepers_conn ni1 @ bks,
                    ni_clients_conn := fold sset_insert cls (ni_clients_conn ni1)\<rparr>"
    using assms(4) run[of ni1 w1] by simp
  then show ?thesis using 1 idem by (simp add: set_fold_sset_insert Un_commute)
qed

theorem lookups_repeat_bookkeepers_witness:
  "let E = quiet_env\<lparr>io_connections := (\<lambda>_ _. Ret [''bookkeeper0''])\<rparr>;
       ni = NotificationInterface_new ''snbmodules'' 10 100;
       s1 = snd (lookups_connections E (ni, world_init)); s2 = snd (lookups_connections E s1)
   in ni_bookkeepers_conn (fst s2) = [''bookkeeper0'', ''bookkeeper0'']
      \<and> ni_clients_conn (fst s2) = ni_clients_conn (fst s1)"
proof -
  let ?E = "quiet_env\<lparr>io_connections := (\<lambda>_ _. Ret [''bookkeeper0''])\<rparr>"
  let ?ni = "NotificationInterface_new ''snbmodules'' 10 100"
  obtain o1 n1 w1 where 1: "lookups_connections ?E (?ni, world_init) = (o1, (n1, w1))"
    by (metis prod.exhaust)
  obtain o2 n2 w2 where 2: "lookups_connections ?E (n1, w1) = (o2, (n2, w2))"
    by (metis prod.exhaust)
  have "ni_bookkeepers_conn n2 = ni_bookkeepers_conn ?ni @ [''bookkeeper0''] @ [''bookkeeper0'']
      \<and> ni_clients_conn n2 = ni_clients_conn n1"
    using lookups_repeat_bookkeepers[of ?E ?ni "[''bookkeeper0'']" "[''bookkeeper0'']", OF _ _ 1 2] by simp
  then show ?thesis using 1 2 by (simp add: NotificationInterface_new_def Let_def)
qed

end
