(* ===== verification/Transfer_Session.thy ===== *)
theory Transfer_Session
  imports Bittorrent_Interface Notification_Interface
begin

text \<open>
  \<open>include/snbmodules/transfer_session.hpp\<close> and \<open>src/client/transfer_session.cpp\<close>: a session
  owns one group of transfers and one protocol object, guards the life cycle of each transfer,
  and notifies the bookkeepers and the target clients. The protocol is dispatched on as the
  virtual calls are; its contract \<open>transfer_protocol\<close> holds for the dispatcher too.
\<close>

section \<open>The protocol of a session\<close>

datatype transfer_interface =
    NoInterface
  | IfDummy
  | IfSCP TransferInterfaceSCP
  | IfRClone TransferInterfaceRClone
  | IfBittorrent TransferInterfaceBittorrent

text \<open>A virtual call; through the null pointer it is undefined.\<close>

definition dispatch ::
  "(unit \<times> world, 'a) action \<Rightarrow> (TransferInterfaceSCP \<times> world, 'a) action
     \<Rightarrow> (rclone_world, 'a) action \<Rightarrow> (bt_world, 'a) action \<Rightarrow> (transfer_interface \<times> world, 'a) action" where
  "dispatch fd fs fr fb = (\<lambda>(i, w).
     case i of
       NoInterface \<Rightarrow> (Raise (UndefinedBehaviour ''m_transfer_interface''), (i, w))
     | IfDummy \<Rightarrow> (case fd ((), w) of (r, (_, w')) \<Rightarrow> (r, (IfDummy, w')))
     | IfSCP x \<Rightarrow> (case fs (x, w) of (r, (x', w')) \<Rightarrow> (r, (IfSCP x', w')))
     | IfRClone x \<Rightarrow> (case fr (x, w) of (r, (x', w')) \<Rightarrow> (r, (IfRClone x', w')))
     | IfBittorrent x \<Rightarrow> (case fb (x, w) of (r, (x', w')) \<Rightarrow> (r, (IfBittorrent x', w'))))"

definition iface_upload_file :: "env \<Rightarrow> tm_ref \<Rightarrow> (transfer_interface \<times> world, bool) action" where
  "iface_upload_file E r =
     dispatch (dummy_op E r) (scp_upload_file E r) (rclone_upload_file E r) (bt_upload_file E r)"

definition iface_download_file :: "env \<Rightarrow> tm_ref \<Rightarrow> string \<Rightarrow> (transfer_interface \<times> world, bool) action" where
  "iface_download_file E r dest =
     dispatch (dummy_download_file E r dest) (scp_download_file E r dest)
       (rclone_download_file E r dest) (bt_download_file E r dest)"

definition iface_pause_file :: "env \<Rightarrow> tm_ref \<Rightarrow> (transfer_interface \<times> world, bool) action" where
  "iface_pause_file E r =
     dispatch (dummy_op E r) (scp_pause_file E r) (rclone_pause_file E r) (bt_pause_file E r)"

definition iface_resume_file :: "env \<Rightarrow> tm_ref \<Rightarrow> (transfer_interface \<times> world, bool) action" where
  "iface_resume_file E r =
     dispatch (dummy_op E r) (scp_resume_file E r) (rclone_resume_file E r) (bt_resume_file E r)"

definition iface_hash_file :: "env \<Rightarrow> tm_ref \<Rightarrow> (transfer_interface \<times> world, bool) action" where
  "iface_hash_file E r =
     dispatch (dummy_op E r) (scp_hash_file E r) (rclone_hash_file E r) (bt_hash_file E r)"

definition iface_cancel_file :: "env \<Rightarrow> tm_ref \<Rightarrow> (transfer_interface \<times> world, bool) action" where
  "iface_cancel_file E r =
     dispatch (dummy_op E r) (scp_cancel_file E r) (rclone_cancel_file E r) (bt_cancel_file E r)"

lemma dispatch_touches:
  assumes "keeps (touches S) fd" "keeps (touches S) fs" "keeps (touches S) fr" "keeps (touches S) fb"
  shows "keeps (touches S) (dispatch fd fs fr fb)"
proof
  fix s :: "transfer_interface \<times> world"
  obtain i w where s: "s = (i, w)" by (cases s)
  show "touches S s (snd (dispatch fd fs fr fb s))"
    using keepsD[OF assms(1), of "((), w)"]
      keepsD[OF assms(2)] keepsD[OF assms(3)] keepsD[OF assms(4)]
    by (cases i) (auto simp: s dispatch_def touches_def only_cells.frame_refl split: prod.splits,
        (metis snd_conv)+)
qed

interpretation iface: transfer_protocol iface_upload_file iface_download_file iface_pause_file
  iface_resume_file iface_hash_file iface_cancel_file
  by unfold_locales
    (simp_all add: iface_upload_file_def iface_download_file_def iface_pause_file_def
      iface_resume_file_def iface_hash_file_def iface_cancel_file_def dispatch_touches
      dummy.ops_touch scp.ops_touch rclone.ops_touch bittorrent.ops_touch)

section \<open>State\<close>

datatype e_session_type = Downloader | Uploader

definition session_type_to_string :: "e_session_type \<Rightarrow> string" where
  "session_type_to_string e = (case e of Downloader \<Rightarrow> ''Downloader'' | Uploader \<Rightarrow> ''Uploader'')"

record TransferSession =
  ses_type :: e_session_type
  ses_session_id :: string
  ses_ip :: IPFormat
  ses_interface :: transfer_interface
  ses_transfer_options :: GroupMetadata
  ses_work_dir :: string
  ses_target_clients :: "string list"
  ses_ni :: NotificationInterface

type_synonym session_world = "TransferSession \<times> world"

definition on_iface :: "(transfer_interface \<times> world, 'a) action \<Rightarrow> (session_world, 'a) action" where
  "on_iface f = (\<lambda>(s, w). case f (ses_interface s, w) of (r, (i, w')) \<Rightarrow> (r, (s\<lparr>ses_interface := i\<rparr>, w')))"

definition on_group :: "(group_world, 'a) action \<Rightarrow> (session_world, 'a) action" where
  "on_group f = (\<lambda>(s, w). case f (ses_transfer_options s, w) of
                            (r, (g, w')) \<Rightarrow> (r, (s\<lparr>ses_transfer_options := g\<rparr>, w')))"

definition ses_eq :: "TransferSession \<Rightarrow> TransferSession \<Rightarrow> bool" where
  "ses_eq a b \<longleftrightarrow> ses_session_id a = ses_session_id b"

definition ses_less :: "TransferSession \<Rightarrow> TransferSession \<Rightarrow> bool" where
  "ses_less a b \<longleftrightarrow> ses_session_id a \<noteq> ses_session_id b"

definition set_target_clients :: "string list \<Rightarrow> TransferSession \<Rightarrow> TransferSession" where
  "set_target_clients clients s = s\<lparr>ses_target_clients := clients\<rparr>"

definition ses_to_string :: "(tm_ref \<Rightarrow> TransferMetadata) \<Rightarrow> TransferSession \<Rightarrow> string" where
  "ses_to_string cells s =
     ''Session '' @ ses_session_id s @ '' '' @ ''type '' @ session_type_to_string (ses_type s) @ '' ''
     @ ''listening on '' @ get_ip_port (ses_ip s) @ newline @ gm_to_string cells (ses_transfer_options s)"

section \<open>Notifications\<close>

definition ses_send :: "env \<Rightarrow> e_notification_type \<Rightarrow> string \<Rightarrow> string \<Rightarrow> string \<Rightarrow> (session_world, bool) action" where
  "ses_send E notif dst id_conn dat =
     bind self (\<lambda>s. on_world (send_notification E (ses_ni s) notif (ses_session_id s) dst id_conn dat (- 1)))"

definition update_metadata_to_bookkeeper :: "env \<Rightarrow> tm_ref \<Rightarrow> (session_world, bool) action" where
  "update_metadata_to_bookkeeper E f_meta =
     bind self (\<lambda>s. and_loop (\<lambda>bk.
       bind (on_world (tm_export_partial E False f_meta)) (\<lambda>dat.
         ses_send E TRANSFER_METADATA bk bk dat)) True (ni_bookkeepers_conn (ses_ni s)))"

definition update_metadatas_to_bookkeeper :: "env \<Rightarrow> (session_world, bool) action" where
  "update_metadatas_to_bookkeeper E =
     bind self (\<lambda>s.
     bind (and_loop (\<lambda>bk.
       bind (on_world (reads w_cells)) (\<lambda>cells.
         ses_send E GROUP_METADATA bk bk (gm_export_to_string E cells (ses_transfer_options s))))
         True (ni_bookkeepers_conn (ses_ni s))) (\<lambda>result.
     and_loop (update_metadata_to_bookkeeper E) result (gm_transfers_meta (ses_transfer_options s))))"

definition send_notification_to_targets :: "env \<Rightarrow> e_notification_type \<Rightarrow> string \<Rightarrow> (session_world, bool) action" where
  "send_notification_to_targets E type dat =
     bind self (\<lambda>s. and_all_loop (\<lambda>client.
       ses_send E type (client @ ''_ses'' @ gm_group_id (ses_transfer_options s)) client dat)
       True (ses_target_clients s))"

section \<open>Operations on one file\<close>

definition wrong_state :: "tm_ref \<Rightarrow> string \<Rightarrow> (session_world, bool) action" where
  "wrong_state f_meta future_state =
     bind self (\<lambda>s. bind (on_world (cell f_meta)) (\<lambda>m.
       seq (on_world (ers_warning (SessionWrongStateTransitionError (ses_session_id s) (get_file_name m)
              (status_to_string (tm_status m)) future_state)))
         (return False)))"

text \<open>The common end of the operations: a failed protocol call marks the transfer as failed.\<close>

definition error_unless :: "env \<Rightarrow> tm_ref \<Rightarrow> bool \<Rightarrow> (session_world, unit) action" where
  "error_unless E f_meta res = (if \<not> res then on_world (set_status_at E f_meta ERROR) else return ())"

definition notify_single :: "env \<Rightarrow> bool \<Rightarrow> e_notification_type option \<Rightarrow> tm_ref \<Rightarrow> (session_world, unit) action" where
  "notify_single E is_multiple notif f_meta =
     (if \<not> is_multiple then
        bind (on_world (cell f_meta)) (\<lambda>m.
        seq (case notif of None \<Rightarrow> return True
             | Some n \<Rightarrow> send_notification_to_targets E n (tm_file_path m))
        (seq (update_metadata_to_bookkeeper E f_meta) (return ())))
      else return ())"

definition session_pause_file :: "env \<Rightarrow> tm_ref \<Rightarrow> bool \<Rightarrow> (session_world, bool) action" where
  "session_pause_file E f_meta is_multiple =
     bind (on_world (cell f_meta)) (\<lambda>m.
       if tm_status m \<noteq> DOWNLOADING \<and> tm_status m \<noteq> UPLOADING
       then wrong_state f_meta (status_to_string PAUSED)
       else seq (on_world (set_status_at E f_meta PAUSED))
            (bind (on_iface (iface_pause_file E f_meta)) (\<lambda>res.
             seq (error_unless E f_meta res)
             (seq (notify_single E is_multiple (Some PAUSE_TRANSFER) f_meta)
             (return res)))))"

definition session_resume_file :: "env \<Rightarrow> tm_ref \<Rightarrow> bool \<Rightarrow> (session_world, bool) action" where
  "session_resume_file E f_meta is_multiple =
     bind (on_world (cell f_meta)) (\<lambda>m.
       if tm_status m \<noteq> PAUSED then wrong_state f_meta ''RESUMING''
       else bind self (\<lambda>s.
            seq (if ses_type s = Downloader then on_world (set_status_at E f_meta DOWNLOADING)
                 else if ses_type s = Uploader then on_world (set_status_at E f_meta UPLOADING)
                 else return ())
            (bind (on_iface (iface_resume_file E f_meta)) (\<lambda>res.
             seq (error_unless E f_meta res)
             (seq (notify_single E is_multiple (Some RESUME_TRANSFER) f_meta)
             (return res))))))"

definition session_hash_file :: "env \<Rightarrow> tm_ref \<Rightarrow> bool \<Rightarrow> (session_world, bool) action" where
  "session_hash_file E f_meta is_multiple =
     bind (on_world (cell f_meta)) (\<lambda>m.
       if tm_status m \<noteq> FINISHED then wrong_state f_meta (status_to_string HASHING)
       else seq (on_world (set_status_at E f_meta HASHING))
            (bind (on_iface (iface_hash_file E f_meta)) (\<lambda>res.
             seq (error_unless E f_meta res)
             (seq (notify_single E is_multiple None f_meta)
             (return res)))))"

definition session_cancel_file :: "env \<Rightarrow> tm_ref \<Rightarrow> bool \<Rightarrow> (session_world, bool) action" where
  "session_cancel_file E f_meta is_multiple =
     bind (on_world (cell f_meta)) (\<lambda>m.
       if tm_status m = FINISHED \<or> tm_status m = CANCELLED
       then wrong_state f_meta (status_to_string CANCELLED)
       else seq (on_world (set_status_at E f_meta CANCELLED))
            (bind (on_iface (iface_cancel_file E f_meta)) (\<lambda>res.
             seq (error_unless E f_meta res)
             (seq (notify_single E is_multiple (Some CANCEL_TRANSFER) f_meta)
             (return res)))))"

definition warn_unless_type :: "e_session_type \<Rightarrow> string \<Rightarrow> (session_world, unit) action" where
  "warn_unless_type type action_name =
     bind self (\<lambda>s.
       if ses_type s \<noteq> type
       then on_world (ers_warning (SessionAccessToIncorrectActionError (ses_session_id s) action_name))
       else return ())"

definition session_upload_file :: "env \<Rightarrow> tm_ref \<Rightarrow> bool \<Rightarrow> (session_world, bool) action" where
  "session_upload_file E f_meta is_multiple =
     seq (warn_unless_type Uploader ''upload_file'')
     (bind (on_world (cell f_meta)) (\<lambda>m.
       if tm_status m \<noteq> WAITING then wrong_state f_meta (status_to_string UPLOADING)
       else seq (on_world (set_status_at E f_meta UPLOADING))
            (bind (on_iface (iface_upload_file E f_meta)) (\<lambda>res.
             seq (error_unless E f_meta res)
             (seq (notify_single E is_multiple (Some START_TRANSFER) f_meta)
             (return res))))))"

definition session_download_file :: "env \<Rightarrow> tm_ref \<Rightarrow> string \<Rightarrow> bool \<Rightarrow> (session_world, bool) action" where
  "session_download_file E f_meta dest is_multiple =
     seq (warn_unless_type Downloader ''download_file'')
     (bind (on_world (cell f_meta)) (\<lambda>m.
       if tm_status m \<noteq> WAITING then wrong_state f_meta (status_to_string DOWNLOADING)
       else seq (on_world (sleep_ms 1000))
            (seq (on_world (set_status_at E f_meta DOWNLOADING))
            (bind (on_iface (iface_download_file E f_meta dest)) (\<lambda>res.
             seq (error_unless E f_meta res)
             (seq (notify_single E is_multiple None f_meta)
             (return res)))))))"

definition session_start_file :: "env \<Rightarrow> tm_ref \<Rightarrow> (session_world, bool) action" where
  "session_start_file E f_meta =
     bind self (\<lambda>s.
       if ses_type s = Downloader then session_download_file E f_meta (ses_work_dir s) False
       else if ses_type s = Uploader then session_upload_file E f_meta False
       else seq (on_world (ers_error (SessionTypeNotSupportedError (ses_session_id s)))) (return False))"

section \<open>Operations on the whole group\<close>

definition all_files :: "(tm_ref \<Rightarrow> (session_world, bool) action) \<Rightarrow> (session_world, bool) action" where
  "all_files f = bind self (\<lambda>s. and_loop f True (gm_transfers_meta (ses_transfer_options s)))"

definition session_pause_all :: "env \<Rightarrow> (session_world, bool) action" where
  "session_pause_all E =
     seq (send_notification_to_targets E PAUSE_TRANSFER [])
     (seq (on_world (sleep_ms 1000))
     (bind (all_files (\<lambda>r. session_pause_file E r True)) (\<lambda>result.
      seq (update_metadatas_to_bookkeeper E)
      (return result))))"

definition session_resume_all :: "env \<Rightarrow> (session_world, bool) action" where
  "session_resume_all E =
     bind (all_files (\<lambda>r. session_resume_file E r True)) (\<lambda>result.
     seq (on_world (sleep_ms 1000))
     (seq (send_notification_to_targets E RESUME_TRANSFER [])
     (seq (update_metadatas_to_bookkeeper E)
     (return result))))"

definition session_cancel_all :: "env \<Rightarrow> (session_world, bool) action" where
  "session_cancel_all E =
     bind (all_files (\<lambda>r. session_cancel_file E r True)) (\<lambda>result.
     seq (send_notification_to_targets E CANCEL_TRANSFER [])
     (seq (update_metadatas_to_bookkeeper E)
     (return result)))"

definition session_download_all :: "env \<Rightarrow> string \<Rightarrow> (session_world, bool) action" where
  "session_download_all E dest =
     seq (warn_unless_type Downloader ''download_all'')
     (bind (all_files (\<lambda>r. session_download_file E r dest True)) (\<lambda>result.
      seq (update_metadatas_to_bookkeeper E)
      (return result)))"

definition session_upload_all :: "env \<Rightarrow> (session_world, bool) action" where
  "session_upload_all E =
     seq (warn_unless_type Uploader ''upload_all'')
     (bind (all_files (\<lambda>r. session_upload_file E r True)) (\<lambda>result.
      seq (send_notification_to_targets E START_TRANSFER [])
      (seq (update_metadatas_to_bookkeeper E)
      (return result))))"

definition session_start_all :: "env \<Rightarrow> (session_world, bool) action" where
  "session_start_all E =
     bind self (\<lambda>s.
       if ses_type s = Downloader then session_download_all E (ses_work_dir s)
       else if ses_type s = Uploader then session_upload_all E
       else seq (on_world (ers_error (SessionTypeNotSupportedError (ses_session_id s)))) (return False))"

definition session_add_file :: "env \<Rightarrow> tm_ref \<Rightarrow> (session_world, unit) action" where
  "session_add_file E fmeta =
     bind (on_group (add_file fmeta)) (\<lambda>moved_meta.
     seq (update_metadata_to_bookkeeper E moved_meta) (return ()))"

section \<open>Construction\<close>

text \<open>The magnet link of each torrent file, written into the transfers of an uploader.\<close>

definition write_magnet_links :: "env \<Rightarrow> (session_world, unit) action" where
  "write_magnet_links E =
     bind self (\<lambda>s. for_each (\<lambda>r.
       bind (on_world (cell r)) (\<lambda>m.
       let file = path_append (ses_work_dir s) (get_file_name m @ ''.torrent'') in
       bind (on_world (ask (\<lambda>t. lt_file_magnet E t file) (\<lambda>_. EvTorrent ''torrent_info'' file))) (\<lambda>(ec, uri).
       seq (case ec of None \<Rightarrow> return ()
            | Some e \<Rightarrow> on_world (ers_error (BittorrentInvalidTorrentFileError e)))
       (bind (of_result (rbind (jindex (gm_protocol_options (ses_transfer_options s)) ''port'') jget_string)) (\<lambda>port.
        on_world (update_cell r (set_magnet_link (uri @ ''&x.pe='' @ m_ip (ses_ip s) @ '':'' @ port))))))))
       (gm_transfers_meta (ses_transfer_options s)))"

definition set_interface :: "transfer_interface \<Rightarrow> (session_world, unit) action" where
  "set_interface i = on_self (\<lambda>s. s\<lparr>ses_interface := i\<rparr>)"

definition init_interface :: "env \<Rightarrow> bool \<Rightarrow> (session_world, unit) action" where
  "init_interface E uninit =
     bind self (\<lambda>s.
       let opts = gm_protocol_options (ses_transfer_options s) in
       case gm_protocol (ses_transfer_options s) of
         BITTORRENT \<Rightarrow>
           bind (on_world (TransferInterfaceBittorrent_new opts (ses_type s = Downloader) (ses_work_dir s) (ses_ip s)))
             (\<lambda>i. seq (set_interface (IfBittorrent i))
               (if ses_type s = Uploader then
                  seq (on_world (bt_generate_torrents_files (ses_work_dir s) (gm_transfers_meta (ses_transfer_options s))))
                    (write_magnet_links E)
                else return ()))
       | SCP \<Rightarrow>
           bind (on_world (TransferInterfaceSCP_new uninit opts (ses_type s = Uploader)))
             (\<lambda>i. set_interface (IfSCP i))
       | RCLONE \<Rightarrow>
           bind (on_world (TransferInterfaceRClone_new E opts (ses_work_dir s)))
             (\<lambda>i. set_interface (IfRClone i))
       | dummy \<Rightarrow> set_interface IfDummy)"

definition session_blank ::
  "GroupMetadata \<Rightarrow> e_session_type \<Rightarrow> string \<Rightarrow> IPFormat \<Rightarrow> string \<Rightarrow> string list \<Rightarrow> string list \<Rightarrow> TransferSession" where
  "session_blank transfer_options type ses_id ip work_dir bk_conn client_conn =
     \<lparr>ses_type = type, ses_session_id = ses_id, ses_ip = ip, ses_interface = NoInterface,
      ses_transfer_options = transfer_options, ses_work_dir = work_dir, ses_target_clients = [],
      ses_ni = NotificationInterface_with_conns bk_conn client_conn ''snbmodules'' 10 100\<rparr>"

definition session_ctor_body :: "env \<Rightarrow> bool \<Rightarrow> (session_world, unit) action" where
  "session_ctor_body E uninit =
     bind self (\<lambda>s.
     bind (on_world (ask (\<lambda>t. fs_make_dirs E t (ses_work_dir s)) (\<lambda>_. EvFile ''create_directories'' (ses_work_dir s)))) (\<lambda>made.
     seq (of_outcome made)
     (if gm_protocol (ses_transfer_options s) = BITTORRENT
         \<and> \<not> jcontains (gm_protocol_options (ses_transfer_options s)) ''port''
      then on_world (ers_fatal (ConfigError ''port is mandatory in Bittorrent protocol options''))
      else seq (init_interface E uninit)
             (seq (update_metadatas_to_bookkeeper E) (return ())))))"

definition TransferSession_new ::
  "env \<Rightarrow> bool \<Rightarrow> GroupMetadata \<Rightarrow> e_session_type \<Rightarrow> string \<Rightarrow> IPFormat \<Rightarrow> string \<Rightarrow> string list \<Rightarrow> string list
     \<Rightarrow> (world, TransferSession) action" where
  "TransferSession_new E uninit transfer_options type ses_id ip work_dir bk_conn client_conn w =
     (case session_ctor_body E uninit
             (session_blank transfer_options type ses_id ip work_dir bk_conn client_conn, w) of
        (Ret _, (s, w')) \<Rightarrow> (Ret s, w')
      | (Raise e, (s, w')) \<Rightarrow> (Raise e, w'))"

section \<open>Frames of the session operations\<close>

text \<open>
  \<open>ses_frame S\<close>: only transfers in \<open>S\<close> change, no transfer changes identity, and of the
  session only the state of its protocol changes. \<open>status_only T\<close>: only transfers in \<open>T\<close>
  change their status.
\<close>

definition ses_frame :: "tm_ref set \<Rightarrow> session_world \<Rightarrow> session_world \<Rightarrow> bool" where
  "ses_frame S s s' \<longleftrightarrow>
     only_cells S (snd s) (snd s') \<and> fst s' = (fst s)\<lparr>ses_interface := ses_interface (fst s')\<rparr>"

definition status_only :: "tm_ref set \<Rightarrow> 'x \<times> world \<Rightarrow> 'x \<times> world \<Rightarrow> bool" where
  "status_only T s s' \<longleftrightarrow> (\<forall>q. q \<notin> T \<longrightarrow> tm_status (w_cells (snd s') q) = tm_status (w_cells (snd s) q))"

interpretation ses_frame: frame_order "ses_frame S"
  by unfold_locales
    (auto simp: ses_frame_def only_cells.frame_refl intro: only_cells.frame_trans, metis TransferSession.surjective
      TransferSession.update_convs(4))

interpretation status_only: frame_order "status_only T"
  by unfold_locales (auto simp: status_only_def)

lemma ses_frame_on_world: "keeps (only_cells S) f \<Longrightarrow> keeps (ses_frame S) (on_world f)"
  by (auto simp: keeps_def ses_frame_def on_world_def split: prod.splits) (metis snd_conv)

lemma ses_frame_on_iface: "keeps (touches S) f \<Longrightarrow> keeps (ses_frame S) (on_iface f)"
  by (auto simp: keeps_def ses_frame_def touches_def on_iface_def split: prod.splits) (metis snd_conv)

lemma ses_frame_self: "keeps (ses_frame S) self"
  by (auto simp: keeps_def ses_frame_def self_def only_cells.frame_refl)

lemma status_only_mono: "keeps (status_only S) f \<Longrightarrow> S \<subseteq> T \<Longrightarrow> keeps (status_only T) f"
  by (auto simp: keeps_def status_only_def)

lemma status_only_on_world:
  "(\<And>w q. q \<notin> T \<Longrightarrow> tm_status (w_cells (snd (f w)) q) = tm_status (w_cells w q)) \<Longrightarrow>
     keeps (status_only T) (on_world f)"
  by (auto simp: keeps_def status_only_def on_world_def split: prod.splits) (metis snd_conv)

lemma status_only_of_only_cells: "keeps (only_cells T) f \<Longrightarrow> keeps (status_only T) (on_world f)"
  by (rule status_only_on_world) (simp add: keeps_def only_cells_def)

lemma status_only_on_iface: "keeps (touches T) f \<Longrightarrow> keeps (status_only T) (on_iface f)"
  by (auto simp: keeps_def status_only_def touches_def on_iface_def only_cells_def split: prod.splits)
    (metis snd_conv)

lemma status_only_self: "keeps (status_only T) self"
  by (auto simp: keeps_def status_only_def self_def)

lemma status_only_export: "keeps (status_only T) (on_world (tm_export_partial E b r))"
  by (rule status_only_on_world) (simp add: run_export_partial)

lemma status_only_issues:
  "keeps (status_only T) (on_world (ers_warning i))" "keeps (status_only T) (on_world (ers_error i))"
  "keeps (status_only T) (on_world (sleep_ms n))" "keeps (status_only T) (on_world (cell r))"
  "keeps (status_only T) (on_world (reads f))"
  "keeps (status_only T) (on_world (send_notification E ni n' src dst c dat tries))"
  by (intro status_only_of_only_cells keeps_issues keeps_cell keeps_send_notification
      only_cells.keeps_reads)+

lemmas status_rules = status_only.frame_rules status_only_self status_only_export status_only_issues

lemma ses_frame_issues:
  "keeps (ses_frame S) (on_world (ers_warning i))" "keeps (ses_frame S) (on_world (ers_error i))"
  "keeps (ses_frame S) (on_world (sleep_ms n))" "keeps (ses_frame S) (on_world (cell r))"
  "keeps (ses_frame S) (on_world (reads f))"
  "keeps (ses_frame S) (on_world (send_notification E ni n' src dst c dat tries))"
  by (intro ses_frame_on_world keeps_issues keeps_cell keeps_send_notification
      only_cells.keeps_reads)+

lemma ses_frame_at:
  "r \<in> S \<Longrightarrow> keeps (ses_frame S) (on_world (set_status_at E r st))"
  "r \<in> S \<Longrightarrow> keeps (ses_frame S) (on_world (tm_export_partial E b r))"
  by (intro ses_frame_on_world keeps_set_status_at keeps_export_partial; assumption)+

lemmas frame_step_rules =
  ses_frame.frame_rules ses_frame_self ses_frame_issues ses_frame_at

text \<open>Notifications change no status; those about one transfer touch that transfer only.\<close>

lemma ses_send_frames:
  "keeps (status_only T) (ses_send E n dst c dat)" "keeps (ses_frame S) (ses_send E n dst c dat)"
  unfolding ses_send_def by (intro status_rules frame_step_rules)+

lemma update_metadata_frames:
  "keeps (status_only T) (update_metadata_to_bookkeeper E r)"
  "r \<in> S \<Longrightarrow> keeps (ses_frame S) (update_metadata_to_bookkeeper E r)"
  unfolding update_metadata_to_bookkeeper_def
  by (intro status_rules ses_send_frames) (intro frame_step_rules ses_send_frames)

lemma update_metadatas_frames:
  "keeps (status_only T) (update_metadatas_to_bookkeeper E)"
  "keeps (ses_frame UNIV) (update_metadatas_to_bookkeeper E)"
  unfolding update_metadatas_to_bookkeeper_def
  by (intro status_rules ses_send_frames update_metadata_frames)
    (intro frame_step_rules ses_send_frames update_metadata_frames UNIV_I)

lemma send_to_targets_frames:
  "keeps (status_only T) (send_notification_to_targets E n dat)"
  "keeps (ses_frame S) (send_notification_to_targets E n dat)"
  unfolding send_notification_to_targets_def
  by (intro status_rules ses_send_frames) (intro frame_step_rules ses_send_frames)

lemma notify_single_frames:
  "keeps (status_only T) (notify_single E b n r)"
  "r \<in> S \<Longrightarrow> keeps (ses_frame S) (notify_single E b n r)"
  by (cases n; simp add: notify_single_def status_rules send_to_targets_frames update_metadata_frames)
    (cases n; simp add: notify_single_def frame_step_rules send_to_targets_frames update_metadata_frames)

section \<open>The life cycle of a transfer\<close>

text \<open>The six operations on one file, the states they are allowed in and the state they aim at.\<close>

datatype file_op = OpPause | OpResume | OpHash | OpCancel | OpUpload | OpDownload string

fun run_op :: "env \<Rightarrow> file_op \<Rightarrow> tm_ref \<Rightarrow> bool \<Rightarrow> (session_world, bool) action" where
  "run_op E OpPause r b = session_pause_file E r b"
| "run_op E OpResume r b = session_resume_file E r b"
| "run_op E OpHash r b = session_hash_file E r b"
| "run_op E OpCancel r b = session_cancel_file E r b"
| "run_op E OpUpload r b = session_upload_file E r b"
| "run_op E (OpDownload dest) r b = session_download_file E r dest b"

fun allowed :: "file_op \<Rightarrow> e_status \<Rightarrow> bool" where
  "allowed OpPause st \<longleftrightarrow> st = DOWNLOADING \<or> st = UPLOADING"
| "allowed OpResume st \<longleftrightarrow> st = PAUSED"
| "allowed OpHash st \<longleftrightarrow> st = FINISHED"
| "allowed OpCancel st \<longleftrightarrow> st \<noteq> FINISHED \<and> st \<noteq> CANCELLED"
| "allowed OpUpload st \<longleftrightarrow> st = WAITING"
| "allowed (OpDownload _) st \<longleftrightarrow> st = WAITING"

fun target_status :: "file_op \<Rightarrow> e_session_type \<Rightarrow> e_status" where
  "target_status OpPause _ = PAUSED"
| "target_status OpResume Downloader = DOWNLOADING"
| "target_status OpResume Uploader = UPLOADING"
| "target_status OpHash _ = HASHING"
| "target_status OpCancel _ = CANCELLED"
| "target_status OpUpload _ = UPLOADING"
| "target_status (OpDownload _) _ = DOWNLOADING"

fun is_warning :: "event \<Rightarrow> bool" where
  "is_warning (EvIssue Warn _) = True"
| "is_warning _ = False"

text \<open>Nothing happened but warnings.\<close>

definition only_warned :: "world \<Rightarrow> world \<Rightarrow> bool" where
  "only_warned w w' \<longleftrightarrow> w_cells w' = w_cells w \<and> w_next w' = w_next w
     \<and> (\<exists>es. w_trace w' = w_trace w @ es \<and> list_all is_warning es)"

lemma run_wrong_state:
  "wrong_state r future (s, w) =
     (Ret False, (s, w\<lparr>w_trace := w_trace w @ [EvIssue Warn (SessionWrongStateTransitionError (ses_session_id s)
        (get_file_name (w_cells w r)) (status_to_string (tm_status (w_cells w r))) future)]\<rparr>))"
  by (simp add: wrong_state_def cell_def ers_warning_def log_event_def)

lemma run_warn_unless_type:
  "\<exists>w'. warn_unless_type type name (s, w) = (Ret (), (s, w')) \<and> only_warned w w'"
  by (cases "ses_type s = type")
    (auto simp: warn_unless_type_def ers_warning_def log_event_def only_warned_def)

lemma only_warned_more: "only_warned w w1 \<Longrightarrow> only_warned w (w1\<lparr>w_trace := w_trace w1 @ [EvIssue Warn i]\<rparr>)"
  by (auto simp: only_warned_def)

lemma only_warned_once: "only_warned w (w\<lparr>w_trace := w_trace w @ [EvIssue Warn i]\<rparr>)"
  by (simp add: only_warned_def)

lemma error_unless_frames:
  "keeps (status_only {r}) (error_unless E r b)" "r \<in> S \<Longrightarrow> keeps (ses_frame S) (error_unless E r b)"
  unfolding error_unless_def
  by (intro status_rules status_only_of_only_cells keeps_set_status_at singletonI)
    (intro frame_step_rules)

lemma wrong_state_frames:
  "keeps (status_only T) (wrong_state r future)" "keeps (ses_frame S) (wrong_state r future)"
  unfolding wrong_state_def by (intro status_rules frame_step_rules)+

lemma warn_unless_type_frames:
  "keeps (status_only T) (warn_unless_type type name)" "keeps (ses_frame S) (warn_unless_type type name)"
  unfolding warn_unless_type_def by (intro status_rules frame_step_rules)+

lemma status_at_frame: "keeps (status_only {r}) (on_world (set_status_at E r st))"
  by (intro status_only_of_only_cells keeps_set_status_at singletonI)

lemmas op_frames =
  error_unless_frames wrong_state_frames warn_unless_type_frames notify_single_frames
  status_only_on_iface ses_frame_on_iface iface.ops_touch status_at_frame

lemmas session_op_defs =
  session_pause_file_def session_resume_file_def session_hash_file_def session_cancel_file_def
  session_upload_file_def session_download_file_def

text \<open>Whatever the protocol: an operation on a file changes the status of that file only.\<close>

lemma run_op_status_only: "keeps (status_only {r}) (run_op E op r b)"
  by (cases op; simp add: session_op_defs; intro status_rules op_frames)

lemma run_op_frame: "keeps (ses_frame {r}) (run_op E op r b)"
  by (cases op; simp add: session_op_defs; intro frame_step_rules op_frames singletonI)

text \<open>An operation in a state it is not allowed in.\<close>

lemma run_op_refused:
  assumes "\<not> allowed op (tm_status (w_cells w r))"
  shows "\<exists>w'. run_op E op r b (s, w) = (Ret False, (s, w')) \<and> only_warned w w'"
proof (cases op)
  case OpUpload
  obtain w1 where w1: "warn_unless_type Uploader ''upload_file'' (s, w) = (Ret (), (s, w1))" "only_warned w w1"
    using run_warn_unless_type by blast
  then have "w_cells w1 = w_cells w" by (simp add: only_warned_def)
  then show ?thesis
    using assms OpUpload w1
    by (simp add: session_upload_file_def cell_def run_wrong_state only_warned_more)
next
  case (OpDownload dest)
  obtain w1 where w1: "warn_unless_type Downloader ''download_file'' (s, w) = (Ret (), (s, w1))" "only_warned w w1"
    using run_warn_unless_type by blast
  then have "w_cells w1 = w_cells w" by (simp add: only_warned_def)
  then show ?thesis
    using assms OpDownload w1
    by (simp add: session_download_file_def cell_def run_wrong_state only_warned_more)
qed (use assms in \<open>auto simp: session_op_defs cell_def run_wrong_state only_warned_once\<close>)

text \<open>The common end of the operations, and what a false result means.\<close>

lemma op_tail_result:
  assumes "seq (error_unless E r res) (seq (notify_single E b n r) (return res)) st = (Ret x, st')"
  shows "x = res \<and> (\<not> res \<longrightarrow> tm_status (w_cells (snd st') r) = ERROR)"
proof -
  obtain st1 where 1: "error_unless E r res st = (Ret (), st1)"
      "seq (notify_single E b n r) (return res) st1 = (Ret x, st')"
    using assms by (auto simp: seq_eq_Ret)
  then have x: "x = res" "notify_single E b n r st1 = (Ret (), st')"
    by (auto simp: seq_eq_Ret)
  have "tm_status (w_cells (snd st') r) = tm_status (w_cells (snd st1) r)"
    using keeps_run[OF notify_single_frames(1)[of "{}"] x(2)] by (simp add: status_only_def)
  moreover have "\<not> res \<longrightarrow> tm_status (w_cells (snd st1) r) = ERROR"
    using 1(1) by (cases st) (auto simp: error_unless_def run_set_status_at)
  ultimately show ?thesis using x(1) by simp
qed

lemma op_failed:
  assumes "run_op E op r b (s, w) = (Ret False, st')" "allowed op (tm_status (w_cells w r))"
  shows "tm_status (w_cells (snd st') r) = ERROR"
proof -
  have tail: "tm_status (w_cells (snd st') r) = ERROR"
    if tl: "bind X (\<lambda>res. seq (error_unless E r res) (seq (notify_single E b n r) (return res))) st = (Ret False, st')"
    for X :: "(session_world, bool) action" and n st
  proof -
    obtain res st1 where
      "seq (error_unless E r res) (seq (notify_single E b n r) (return res)) st1 = (Ret False, st')"
      using tl unfolding bind_eq_Ret by blast
    from op_tail_result[OF this] show ?thesis by auto
  qed
  show ?thesis
  proof (cases op)
    case OpUpload
    obtain w1 where w1: "warn_unless_type Uploader ''upload_file'' (s, w) = (Ret (), (s, w1))" "only_warned w w1"
      using run_warn_unless_type by blast
    then have "w_cells w1 = w_cells w" by (simp add: only_warned_def)
    then show ?thesis
      using assms OpUpload w1(1) by (auto simp: session_upload_file_def cell_def seq_eq_Ret intro: tail)
  next
    case (OpDownload dest)
    obtain w1 where w1: "warn_unless_type Downloader ''download_file'' (s, w) = (Ret (), (s, w1))" "only_warned w w1"
      using run_warn_unless_type by blast
    then have "w_cells w1 = w_cells w" by (simp add: only_warned_def)
    then show ?thesis
      using assms OpDownload w1(1) by (auto simp: session_download_file_def cell_def seq_eq_Ret intro: tail)
  next
    case OpPause
    then show ?thesis using assms by (auto simp: session_pause_file_def cell_def seq_eq_Ret intro: tail)
  next
    case OpResume
    then show ?thesis using assms by (auto simp: session_resume_file_def cell_def seq_eq_Ret intro: tail)
  next
    case OpHash
    then show ?thesis using assms by (auto simp: session_hash_file_def cell_def seq_eq_Ret intro: tail)
  next
    case OpCancel
    then show ?thesis using assms by (auto simp: session_cancel_file_def cell_def seq_eq_Ret intro: tail)
  qed
qed

text \<open>Every operation of a session, as one step relation.\<close>

inductive session_step :: "env \<Rightarrow> session_world \<Rightarrow> session_world \<Rightarrow> bool" for E where
  step_file: "run_op E op r b st = (out, st') \<Longrightarrow> session_step E st st'"
| step_start_file: "session_start_file E r st = (out, st') \<Longrightarrow> session_step E st st'"
| step_pause_all: "session_pause_all E st = (out, st') \<Longrightarrow> session_step E st st'"
| step_resume_all: "session_resume_all E st = (out, st') \<Longrightarrow> session_step E st st'"
| step_cancel_all: "session_cancel_all E st = (out, st') \<Longrightarrow> session_step E st st'"
| step_start_all: "session_start_all E st = (out, st') \<Longrightarrow> session_step E st st'"
| step_add_file: "session_add_file E r st = (out, st') \<Longrightarrow> session_step E st st'"
| step_update: "update_metadatas_to_bookkeeper E st = (out, st') \<Longrightarrow> session_step E st st'"

lemma add_file_status: "keeps (status_only {}) (add_file r)"
proof
  fix st :: group_world
  obtain g w where st: "st = (g, w)" by (cases st)
  consider "tm_file_path (w_cells w r) \<in> set (gm_expected_files g)"
    | "tm_file_path (w_cells w r) \<notin> set (gm_expected_files g)" "tm_group_id (w_cells w r) = gm_group_id g"
    | "tm_file_path (w_cells w r) \<notin> set (gm_expected_files g)" "tm_group_id (w_cells w r) \<noteq> gm_group_id g"
    by blast
  then show "status_only {} st (snd (add_file r st))"
    by cases (simp_all add: st add_file_expected add_file_same_group add_file_foreign status_only_def)
qed

text \<open>
  What every step of a session preserves: to show it for a relation it is enough to look at the six
  operations on one file, and at changes of neither a status nor the protocol object.
\<close>

definition iface_kept :: "session_world \<Rightarrow> session_world \<Rightarrow> bool" where
  "iface_kept st st' \<longleftrightarrow> ses_interface (fst st') = ses_interface (fst st)"

interpretation iface_kept: frame_order iface_kept
  by unfold_locales (simp_all add: iface_kept_def)

lemma iface_kept_basic:
  "keeps iface_kept (on_world f)" "keeps iface_kept self" "keeps iface_kept (on_group g)"
  by (auto simp: keeps_def iface_kept_def on_world_def self_def on_group_def split: prod.split)

lemmas iface_kept_rules = iface_kept.frame_rules iface_kept_basic

lemma iface_kept_send: "keeps iface_kept (ses_send E n dst c dat)"
  unfolding ses_send_def by (intro iface_kept_rules)

lemma iface_kept_notifications:
  "keeps iface_kept (update_metadata_to_bookkeeper E r)" "keeps iface_kept (send_notification_to_targets E n dat)"
  "keeps iface_kept (warn_unless_type ty nm)" "keeps iface_kept (wrong_state r fut)" "keeps iface_kept (error_unless E r res)"
  unfolding update_metadata_to_bookkeeper_def send_notification_to_targets_def warn_unless_type_def wrong_state_def
    error_unless_def
  by (intro iface_kept_rules iface_kept_send)+

lemma iface_kept_all:
  "keeps iface_kept (update_metadatas_to_bookkeeper E)" "keeps iface_kept (notify_single E b n r)"
  unfolding update_metadatas_to_bookkeeper_def
  by (intro iface_kept_rules iface_kept_send iface_kept_notifications)
    (cases n; simp add: notify_single_def iface_kept_rules iface_kept_notifications)

locale session_frame = frame_order R for R :: "session_world \<Rightarrow> session_world \<Rightarrow> bool" +
  assumes quiet: "status_only {} st st' \<Longrightarrow> iface_kept st st' \<Longrightarrow> R st st'"
    and op: "keeps R (run_op E op r b)"
begin

lemma keeps_quiet: "keeps (status_only {}) f \<Longrightarrow> keeps iface_kept f \<Longrightarrow> keeps R f"
  by (simp add: keeps_def quiet)

lemmas quiet_rules =
  keeps_quiet[OF status_only_self iface_kept_basic(2)] status_only_issues[THEN keeps_quiet, OF iface_kept_basic(1)]
  keeps_quiet[OF update_metadata_frames(1) iface_kept_notifications(1)]
  keeps_quiet[OF send_to_targets_frames(1) iface_kept_notifications(2)]
  keeps_quiet[OF warn_unless_type_frames(1) iface_kept_notifications(3)]
  keeps_quiet[OF update_metadatas_frames(1) iface_kept_all(1)]

lemma keeps_files:
  "keeps R (all_files (\<lambda>r. session_pause_file E r b))" "keeps R (all_files (\<lambda>r. session_resume_file E r b))"
  "keeps R (all_files (\<lambda>r. session_cancel_file E r b))" "keeps R (all_files (\<lambda>r. session_upload_file E r b))"
  "keeps R (all_files (\<lambda>r. session_download_file E r dest b))"
  using op[of E OpPause] op[of E OpResume] op[of E OpCancel] op[of E OpUpload] op[of E "OpDownload dest"]
  unfolding all_files_def by (auto intro!: frame_rules quiet_rules)

lemma keeps_groups:
  "keeps R (session_pause_all E)" "keeps R (session_resume_all E)" "keeps R (session_cancel_all E)"
  "keeps R (session_start_all E)"
  unfolding session_pause_all_def session_resume_all_def session_cancel_all_def session_start_all_def
    session_download_all_def session_upload_all_def
  by (intro frame_rules quiet_rules keeps_files)+

lemma keeps_start_file: "keeps R (session_start_file E r)"
  unfolding session_start_file_def
  using op[of E OpUpload] op[of E "OpDownload dest" for dest]
  by (intro frame_rules quiet_rules) auto

lemma keeps_add_file: "keeps R (session_add_file E r)"
proof -
  have "keeps (status_only {}) (on_group (add_file r))"
    using add_file_status[of r] by (auto simp: keeps_def status_only_def on_group_def split: prod.splits) (metis snd_conv)
  then show ?thesis
    unfolding session_add_file_def by (intro frame_rules quiet_rules keeps_quiet[OF _ iface_kept_basic(3)])
qed

lemma session_step_kept: "session_step E st st' \<Longrightarrow> R st st'"
  by (induction rule: session_step.induct)
    (metis keeps_run op keeps_start_file keeps_groups keeps_add_file quiet_rules(11))+

end

text \<open>A cancelled transfer stays cancelled.\<close>

definition cancel_kept :: "session_world \<Rightarrow> session_world \<Rightarrow> bool" where
  "cancel_kept s s' \<longleftrightarrow>
     (\<forall>q. tm_status (w_cells (snd s) q) = CANCELLED \<longrightarrow> tm_status (w_cells (snd s') q) = CANCELLED)"

lemma cancel_kept_op: "keeps cancel_kept (run_op E op r b)"
proof
  fix st :: session_world
  obtain s w where st: "st = (s, w)" by (cases st)
  show "cancel_kept st (snd (run_op E op r b st))"
  proof (cases "tm_status (w_cells w r) = CANCELLED")
    case True
    then have "\<not> allowed op (tm_status (w_cells w r))" by (cases op) auto
    then obtain w' where "run_op E op r b (s, w) = (Ret False, (s, w'))" "only_warned w w'"
      using run_op_refused by blast
    then show ?thesis by (simp add: st cancel_kept_def only_warned_def)
  next
    case False
    then show ?thesis
      using keepsD[OF run_op_status_only[of r E op b], of st]
      by (auto simp: st cancel_kept_def status_only_def)
  qed
qed

interpretation cancel_kept: session_frame cancel_kept
  by unfold_locales (auto simp: cancel_kept_def status_only_def intro: cancel_kept_op)

lemma session_step_cancel_kept: "session_step E st st' \<Longrightarrow> cancel_kept st st'"
  by (rule cancel_kept.session_step_kept)

section \<open>Whole groups\<close>

lemma dummy_iface:
  "on_iface (iface_pause_file E r) (s, w) = (Ret True, (s, w))"
  "on_iface (iface_resume_file E r) (s, w) = (Ret True, (s, w))"
  "on_iface (iface_hash_file E r) (s, w) = (Ret True, (s, w))"
  "on_iface (iface_cancel_file E r) (s, w) = (Ret True, (s, w))"
  "on_iface (iface_upload_file E r) (s, w) = (Ret True, (s, w))"
  "on_iface (iface_download_file E r dest) (s, w) = (Ret True, (s, w))"
  if "ses_interface s = IfDummy"
  using that
  by (simp_all add: on_iface_def iface_pause_file_def iface_resume_file_def iface_hash_file_def
      iface_cancel_file_def iface_upload_file_def iface_download_file_def dispatch_def dummy_op_def
      dummy_download_file_def)

text \<open>With the dummy protocol an allowed operation reaches its target state.\<close>

lemma dummy_op_run:
  assumes "ses_interface s = IfDummy" "allowed op (tm_status (w_cells w r))"
  shows "\<exists>w'. run_op E op r True (s, w) = (Ret True, (s, w'))
           \<and> tm_status (w_cells w' r) = target_status op (ses_type s)"
proof (cases op)
  case OpUpload
  obtain w1 where w1: "warn_unless_type Uploader ''upload_file'' (s, w) = (Ret (), (s, w1))" "only_warned w w1"
    using run_warn_unless_type by blast
  then have "w_cells w1 = w_cells w" by (simp add: only_warned_def)
  then show ?thesis
    using assms OpUpload w1(1)
    by (simp add: session_upload_file_def cell_def run_set_status_at dummy_iface error_unless_def notify_single_def)
next
  case (OpDownload dest)
  obtain w1 where w1: "warn_unless_type Downloader ''download_file'' (s, w) = (Ret (), (s, w1))" "only_warned w w1"
    using run_warn_unless_type by blast
  then have "w_cells w1 = w_cells w" by (simp add: only_warned_def)
  then show ?thesis
    using assms OpDownload w1(1)
    by (simp add: session_download_file_def cell_def run_set_status_at dummy_iface error_unless_def
        notify_single_def sleep_ms_def log_event_def)
qed (use assms in \<open>cases "ses_type s"; auto simp: session_op_defs cell_def run_set_status_at
      dummy_iface error_unless_def notify_single_def\<close>)+

lemma dummy_loop_run:
  assumes "ses_interface s = IfDummy" "distinct rs" "\<And>r. r \<in> set rs \<Longrightarrow> allowed op (tm_status (w_cells w r))"
  shows "\<exists>w'. and_loop (\<lambda>r. run_op E op r True) True rs (s, w) = (Ret True, (s, w'))
           \<and> (\<forall>r\<in>set rs. tm_status (w_cells w' r) = target_status op (ses_type s))
           \<and> (\<forall>q. q \<notin> set rs \<longrightarrow> tm_status (w_cells w' q) = tm_status (w_cells w q))"
  using assms(2,3)
proof (induction rs arbitrary: w)
  case (Cons r rs)
  obtain w1 where w1: "run_op E op r True (s, w) = (Ret True, (s, w1))"
      "tm_status (w_cells w1 r) = target_status op (ses_type s)"
    using dummy_op_run[OF assms(1), of op w r E] Cons.prems by auto
  have other: "tm_status (w_cells w1 q) = tm_status (w_cells w q)" if "q \<noteq> r" for q
    using keeps_run[OF run_op_status_only w1(1)] that by (simp add: status_only_def)
  have "allowed op (tm_status (w_cells w1 q))" if "q \<in> set rs" for q
    using Cons.prems that other by (metis distinct.simps(2) list.set_intros(2))
  then obtain w2 where w2: "and_loop (\<lambda>r. run_op E op r True) True rs (s, w1) = (Ret True, (s, w2))"
      "\<forall>r\<in>set rs. tm_status (w_cells w2 r) = target_status op (ses_type s)"
      "\<forall>q. q \<notin> set rs \<longrightarrow> tm_status (w_cells w2 q) = tm_status (w_cells w1 q)"
    using Cons.IH[of w1] Cons.prems(1) by auto
  have "tm_status (w_cells w2 r) = target_status op (ses_type s)"
    using w2(3) w1(2) Cons.prems(1) by simp
  then show ?case using w1(1) w2 other by auto
qed simp

lemma quiet_run: "keeps (status_only {}) f \<Longrightarrow> f st = (out, st') \<Longrightarrow>
    tm_status (w_cells (snd st') q) = tm_status (w_cells (snd st) q)"
  using keeps_run[of "status_only {}" f] by (simp add: status_only_def)

lemmas quiet_frames =
  update_metadatas_frames(1)[of "{}"] send_to_targets_frames(1)[of "{}"]
  warn_unless_type_frames(1)[of "{}"] status_only_issues(3)[of "{}"]

text \<open>A group operation whose first file refuses: the loop makes no other call.\<close>

lemma all_files_first_refused:
  assumes "gm_transfers_meta (ses_transfer_options s) = r # rs"
    and "f r (s, w) = (Ret False, st1)"
  shows "all_files f (s, w) = (Ret False, st1)"
  using assms by (simp add: all_files_def)

section \<open>Properties\<close>

definition sample_session :: TransferSession where
  "sample_session = (session_blank (sample_group\<lparr>gm_transfers_meta := [0, 1]\<rparr>) Uploader ''client0_sesg1''
     \<lparr>m_ip = ''10.0.0.1'', m_port = 5000\<rparr> ''/work'' [''bookkeeper0''] [''client0'', ''client1''])
     \<lparr>ses_interface := IfDummy, ses_target_clients := [''client1'']\<rparr>"

definition sample_world :: "e_status \<Rightarrow> e_status \<Rightarrow> world" where
  "sample_world st0 st1 = world_init\<lparr>w_cells := (\<lambda>r. if r = 0 then sample_tm\<lparr>tm_status := st0\<rparr>
     else sample_tm\<lparr>tm_file_path := ''/data/run2.hdf5'', tm_status := st1\<rparr>)\<rparr>"

text \<open>
  C23: in a state in which an operation on a file is not allowed (pause: neither uploading nor
  downloading; resume: not paused; hash: not finished; cancel: finished or cancelled; upload and
  download: not waiting) it returns false and leaves only warnings: no transfer, nothing of the
  session and no protocol state changes, and nothing is sent.
\<close>

theorem session_operation_refused:
  assumes "\<not> allowed op (tm_status (w_cells w r))"
  shows "\<exists>w'. run_op E op r b (s, w) = (Ret False, (s, w')) \<and> w_cells w' = w_cells w
           \<and> (\<exists>es. w_trace w' = w_trace w @ es \<and> list_all is_warning es)"
  using run_op_refused[OF assms, of E b s] unfolding only_warned_def by blast

theorem session_operation_refused_witness:
  "\<exists>w'. session_pause_file quiet_env 0 False (sample_session, sample_world WAITING WAITING)
          = (Ret False, (sample_session, w')) \<and> w_cells w' = w_cells (sample_world WAITING WAITING)"
proof -
  have h: "\<not> allowed OpPause (tm_status (w_cells (sample_world WAITING WAITING) 0))"
    by (simp add: sample_world_def)
  show ?thesis using session_operation_refused[OF h, of quiet_env False sample_session] by auto
qed

text \<open>
  C25: whatever the protocol, an operation on one file changes no other transfer, changes the
  identity of none, allocates nothing, and of the session it changes only the state of the
  protocol object, whether it returns or throws.
\<close>

theorem session_operation_frame:
  assumes "run_op E op r b (s, w) = (out, (s', w'))"
  shows "(\<forall>q. q \<noteq> r \<longrightarrow> w_cells w' q = w_cells w q) \<and> (\<forall>q. same_identity (w_cells w q) (w_cells w' q))
         \<and> w_next w' = w_next w \<and> s' = s\<lparr>ses_interface := ses_interface s'\<rparr>"
  using keeps_run[OF run_op_frame assms] by (simp add: ses_frame_def only_cells_def)

theorem session_operation_frame_witness:
  "\<exists>out s' w'. session_upload_file quiet_env 0 False (sample_session, sample_world WAITING WAITING) = (out, (s', w'))
     \<and> w_cells w' 1 = w_cells (sample_world WAITING WAITING) 1
     \<and> s' = sample_session\<lparr>ses_interface := ses_interface s'\<rparr>"
proof -
  obtain out s' w' where run: "run_op quiet_env OpUpload 0 False (sample_session, sample_world WAITING WAITING)
      = (out, (s', w'))"
    by (metis prod.exhaust)
  show ?thesis using session_operation_frame[OF run] run by auto
qed

text \<open>
  C24: when an allowed operation returns false, the protocol has failed and the transfer is
  marked as failed, whatever the protocol did to its status before.
\<close>

theorem session_failure_marks_error:
  assumes "run_op E op r b (s, w) = (Ret False, (s', w'))" "allowed op (tm_status (w_cells w r))"
  shows "tm_status (w_cells w' r) = ERROR"
  using op_failed[OF assms] by simp

theorem session_failure_marks_error_witness:
  "\<exists>s' w'. session_cancel_file quiet_env 0 True
       (sample_session\<lparr>ses_interface := IfRClone (rclone_defaults ''/work'')\<rparr>, sample_world WAITING WAITING)
         = (Ret False, (s', w'))
     \<and> tm_status (w_cells w' 0) = ERROR"
proof -
  let ?w = "sample_world WAITING WAITING"
  let ?s = "sample_session\<lparr>ses_interface := IfRClone (rclone_defaults ''/work'')\<rparr>"
  have al: "allowed OpCancel (tm_status (w_cells ?w 0))" by (simp add: sample_world_def)
  obtain out s' w' where run: "run_op quiet_env OpCancel 0 True (?s, ?w) = (out, (s', w'))"
    by (metis prod.exhaust)
  have "rclone_cancel_file quiet_env 0 (rclone_defaults ''/work'', v) = (Ret False, (rclone_defaults ''/work'', v))" for v
    by (simp add: rclone_cancel_file_def rclone_defaults_def)
  then have "fst (run_op quiet_env OpCancel 0 True (?s, ?w)) = Ret False"
    using al by (simp add: session_cancel_file_def cell_def run_set_status_at on_iface_def
        iface_cancel_file_def dispatch_def error_unless_def notify_single_def)
  then have "out = Ret False" using run by simp
  then show ?thesis using session_failure_marks_error[OF _ al, of quiet_env True ?s s' w'] run by auto
qed

text \<open>
  C22: a cancelled transfer stays cancelled under every sequence of session operations, single
  or on the whole group, whatever the protocol and whether the operations return or throw.
\<close>

theorem cancelled_is_terminal:
  assumes "(session_step E)\<^sup>*\<^sup>* st st'" "tm_status (w_cells (snd st) q) = CANCELLED"
  shows "tm_status (w_cells (snd st') q) = CANCELLED"
proof -
  have "cancel_kept st st'"
    using assms(1)
    by (induction rule: rtranclp_induct)
      (auto intro: cancel_kept.frame_refl cancel_kept.frame_trans session_step_cancel_kept)
  then show ?thesis using assms(2) by (simp add: cancel_kept_def)
qed

theorem cancelled_is_terminal_witness:
  "tm_status (w_cells (snd (snd (session_start_all quiet_env
     (snd (session_resume_all quiet_env (sample_session, sample_world CANCELLED PAUSED)))))) 0) = CANCELLED"
proof -
  let ?st = "(sample_session, sample_world CANCELLED PAUSED)"
  obtain o1 st1 where 1: "session_resume_all quiet_env ?st = (o1, st1)" by (metis prod.exhaust)
  obtain o2 st2 where 2: "session_start_all quiet_env st1 = (o2, st2)" by (metis prod.exhaust)
  have "session_step quiet_env ?st st1" "session_step quiet_env st1 st2"
    using 1 2 by (auto intro: session_step.intros)
  then have steps: "(session_step quiet_env)\<^sup>*\<^sup>* ?st st2" by simp
  show ?thesis using cancelled_is_terminal[OF steps, of 0] 1 2 by (simp add: sample_world_def)
qed

text \<open>
  Starting a group whose transfers are all waiting, with the dummy protocol: when the call
  returns, it returns true and every transfer of the group is uploading or downloading, by the
  type of the session; no other transfer changes its status.
\<close>

theorem start_all_starts_every_file:
  assumes "ses_interface s = IfDummy" "distinct (gm_transfers_meta (ses_transfer_options s))"
    and "\<And>r. r \<in> set (gm_transfers_meta (ses_transfer_options s)) \<Longrightarrow> tm_status (w_cells w r) = WAITING"
    and "session_start_all E (s, w) = (Ret res, (s', w'))"
  shows "res \<and> (\<forall>q. tm_status (w_cells w' q) =
           (if q \<in> set (gm_transfers_meta (ses_transfer_options s))
            then (if ses_type s = Uploader then UPLOADING else DOWNLOADING)
            else tm_status (w_cells w q)))"
proof -
  let ?rs = "gm_transfers_meta (ses_transfer_options s)"
  define op where "op = (if ses_type s = Uploader then OpUpload else OpDownload (ses_work_dir s))"
  obtain ty nm w1 where warn: "warn_unless_type ty nm (s, w) = (Ret (), (s, w1))" "only_warned w w1"
      "ty = ses_type s" "nm = (if ses_type s = Uploader then ''upload_all'' else ''download_all'')"
    using run_warn_unless_type by metis
  have cells: "w_cells w1 = w_cells w" using warn(2) by (simp add: only_warned_def)
  have "allowed op (tm_status (w_cells w1 r))" if "r \<in> set ?rs" for r
    using assms(3)[OF that] by (simp add: op_def cells)
  then obtain w2 where w2: "and_loop (\<lambda>r. run_op E op r True) True ?rs (s, w1) = (Ret True, (s, w2))"
      "\<forall>r\<in>set ?rs. tm_status (w_cells w2 r) = target_status op (ses_type s)"
      "\<forall>q. q \<notin> set ?rs \<longrightarrow> tm_status (w_cells w2 q) = tm_status (w_cells w1 q)"
    using dummy_loop_run[OF assms(1,2), of op w1 E] by blast
  have all: "all_files (\<lambda>r. run_op E op r True) (s, w1) = (Ret True, (s, w2))"
    using w2(1) by (simp add: all_files_def)
  have "res \<and> (\<forall>q. tm_status (w_cells w' q) = tm_status (w_cells w2 q))"
  proof (cases "ses_type s")
    case Uploader
    then obtain b st3 b' where up: "send_notification_to_targets E START_TRANSFER [] (s, w2) = (Ret b, st3)"
        "update_metadatas_to_bookkeeper E st3 = (Ret b', (s', w'))" "res"
      using assms(4) warn all by (auto simp: session_start_all_def session_upload_all_def op_def seq_eq_Ret)
    then show ?thesis
      using quiet_run[OF quiet_frames(1) up(2)] quiet_run[OF quiet_frames(2) up(1)] by simp
  next
    case Downloader
    then obtain b' where dn: "update_metadatas_to_bookkeeper E (s, w2) = (Ret b', (s', w'))" "res"
      using assms(4) warn all by (auto simp: session_start_all_def session_download_all_def op_def seq_eq_Ret)
    then show ?thesis using quiet_run[OF quiet_frames(1) dn(1)] by simp
  qed
  then show ?thesis using w2(2,3) cells by (cases "ses_type s") (auto simp: op_def)
qed

theorem start_all_starts_every_file_witness:
  "\<exists>res s' w'. session_start_all quiet_env (sample_session, sample_world WAITING WAITING) = (Ret res, (s', w'))
     \<and> res \<and> tm_status (w_cells w' 1) = UPLOADING"
proof -
  let ?w = "sample_world WAITING WAITING"
  obtain out s' w' where run: "session_start_all quiet_env (sample_session, ?w) = (out, (s', w'))"
    by (metis prod.exhaust)
  have "fst (session_start_all quiet_env (sample_session, ?w)) = Ret True" by code_simp
  then have ret: "session_start_all quiet_env (sample_session, ?w) = (Ret True, (s', w'))" using run by simp
  have h: "ses_interface sample_session = IfDummy"
    "gm_transfers_meta (ses_transfer_options sample_session) = [0, 1]" "ses_type sample_session = Uploader"
    by (simp_all add: sample_session_def session_blank_def)
  have "\<And>r. tm_status (w_cells ?w r) = WAITING" by (simp add: sample_world_def)
  then have "True \<and> (\<forall>q. tm_status (w_cells w' q) = (if q \<in> set [0, 1] then UPLOADING else tm_status (w_cells ?w q)))"
    using start_all_starts_every_file[OF h(1) _ _ ret] by (simp add: h)
  then show ?thesis using ret by auto
qed

text \<open>
  Pausing a group stops at the first file that cannot be paused: when the first transfer of
  the group is not running, the call returns false and no transfer is paused, however many of
  the others are running.
\<close>

theorem pause_all_stops_at_first_refusal:
  assumes "gm_transfers_meta (ses_transfer_options s) = r # rs"
    and "tm_status (w_cells w r) \<noteq> DOWNLOADING" "tm_status (w_cells w r) \<noteq> UPLOADING"
    and "session_pause_all E (s, w) = (Ret res, (s', w'))"
  shows "\<not> res \<and> (\<forall>q. tm_status (w_cells w' q) = tm_status (w_cells w q))"
proof -
  obtain b st1 st2 where 1: "send_notification_to_targets E PAUSE_TRANSFER [] (s, w) = (Ret b, st1)"
      "on_world (sleep_ms 1000) st1 = (Ret (), st2)"
      "bind (all_files (\<lambda>r. session_pause_file E r True)) (\<lambda>result.
         seq (update_metadatas_to_bookkeeper E) (return result)) st2 = (Ret res, (s', w'))"
    using assms(4) unfolding session_pause_all_def seq_eq_Ret by auto
  have st: "tm_status (w_cells (snd st2) q) = tm_status (w_cells w q)" for q
    using quiet_run[OF quiet_frames(2) 1(1)] quiet_run[OF quiet_frames(4) 1(2)] by simp
  have "ses_frame {} (s, w) st2"
    using keeps_run[OF send_to_targets_frames(2) 1(1)] keeps_run[OF ses_frame_issues(3) 1(2)]
    by (rule ses_frame.frame_trans)
  then have g: "gm_transfers_meta (ses_transfer_options (fst st2)) = r # rs"
    using assms(1) by (auto simp: ses_frame_def) (metis TransferSession.ext_inject TransferSession.surjective TransferSession.update_convs(4))
  obtain w3 where "run_op E OpPause r True (fst st2, snd st2) = (Ret False, (fst st2, w3))" "only_warned (snd st2) w3"
    using run_op_refused[of OpPause "snd st2" r E True "fst st2"] st assms(2,3) by auto
  then have "all_files (\<lambda>r. session_pause_file E r True) st2 = (Ret False, (fst st2, w3))" "w_cells w3 = w_cells (snd st2)"
    using all_files_first_refused[OF g, of "\<lambda>r. session_pause_file E r True" "snd st2"]
    by (simp_all add: only_warned_def)
  then obtain b' where up: "update_metadatas_to_bookkeeper E (fst st2, w3) = (Ret b', (s', w'))" "\<not> res"
    using 1(3) by (auto simp: seq_eq_Ret)
  then show ?thesis
    using quiet_run[OF quiet_frames(1) up(1)] st \<open>w_cells w3 = w_cells (snd st2)\<close> by simp
qed

theorem pause_all_stops_at_first_refusal_witness:
  "\<exists>res s' w'. session_pause_all quiet_env (sample_session, sample_world WAITING UPLOADING) = (Ret res, (s', w'))
     \<and> \<not> res \<and> tm_status (w_cells w' 1) = UPLOADING"
proof -
  let ?w = "sample_world WAITING UPLOADING"
  obtain out s' w' where run: "session_pause_all quiet_env (sample_session, ?w) = (out, (s', w'))"
    by (metis prod.exhaust)
  have "fst (session_pause_all quiet_env (sample_session, ?w)) = Ret False" by code_simp
  then have ret: "session_pause_all quiet_env (sample_session, ?w) = (Ret False, (s', w'))" using run by simp
  have g: "gm_transfers_meta (ses_transfer_options sample_session) = 0 # [1]"
    by (simp add: sample_session_def session_blank_def)
  have st: "tm_status (w_cells ?w 0) \<noteq> DOWNLOADING" "tm_status (w_cells ?w 0) \<noteq> UPLOADING"
    "tm_status (w_cells ?w 1) = UPLOADING"
    by (simp_all add: sample_world_def)
  show ?thesis
    using pause_all_stops_at_first_refusal[OF g st(1,2) ret] ret st(3) by auto
qed

end
