(* ===== verification/Transfer_Client.thy ===== *)
theory Transfer_Client
  imports Transfer_Session
begin

text \<open>
  \<open>include/snbmodules/transfer_client.hpp\<close> and \<open>src/client/transfer_client.cpp\<close>: the client
  owns the sessions, routes notifications to them, creates transfers and scans its directory.
  The recursion of the scan over directories and the two service loops take fuel, since the
  sources do not bound them.
\<close>

section \<open>State\<close>

record TransferClient =
  cl_listening_ip :: IPFormat
  cl_client_id :: string
  cl_listening_dir :: string
  cl_sessions :: "TransferSession list"
  cl_available_files :: "(string \<times> tm_ref) list"
  cl_my_conn :: string
  cl_ni :: NotificationInterface

type_synonym client_world = "TransferClient \<times> world"

text \<open>Running a session operation on the session at an index.\<close>

definition on_session :: "nat \<Rightarrow> (session_world, 'a) action \<Rightarrow> (client_world, 'a) action" where
  "on_session i f = (\<lambda>(c, w). case f (cl_sessions c ! i, w) of
     (r, (s, w')) \<Rightarrow> (r, (c\<lparr>cl_sessions := (cl_sessions c)[i := s]\<rparr>, w')))"

definition cl_send :: "env \<Rightarrow> e_notification_type \<Rightarrow> string \<Rightarrow> string \<Rightarrow> string \<Rightarrow> string \<Rightarrow> (client_world, bool) action" where
  "cl_send E notif src dst id_conn dat =
     bind self (\<lambda>c. on_world (send_notification E (cl_ni c) notif src dst id_conn dat (- 1)))"

definition make_directories :: "env \<Rightarrow> string \<Rightarrow> (world, unit) action" where
  "make_directories E d =
     bind (ask (\<lambda>t. fs_make_dirs E t d) (\<lambda>_. EvFile ''create_directories'' d)) of_outcome"

definition TransferClient_new ::
  "env \<Rightarrow> IPFormat \<Rightarrow> string \<Rightarrow> string \<Rightarrow> string \<Rightarrow> int \<Rightarrow> int \<Rightarrow> (world, TransferClient) action" where
  "TransferClient_new E listening_ip client_id listening_dir connection_prefix timeout_send timeout_receive =
     (let cleaned = remove_dot_slash listening_dir; dir = (if cleaned = [] then ''blah'' else cleaned)
      in bind (of_result (path_absolute (env_cwd E) dir)) (\<lambda>d.
         seq (make_directories E d)
         (return \<lparr>cl_listening_ip = listening_ip, cl_client_id = client_id, cl_listening_dir = d,
                  cl_sessions = [], cl_available_files = [], cl_my_conn = [],
                  cl_ni = NotificationInterface_new connection_prefix timeout_send timeout_receive\<rparr>)))"

definition set_listening_dir :: "env \<Rightarrow> string \<Rightarrow> (client_world, unit) action" where
  "set_listening_dir E d =
     bind (of_result (clean_path (env_cwd E) d)) (\<lambda>p. on_self (\<lambda>c. c\<lparr>cl_listening_dir := p\<rparr>))"

section \<open>Sessions\<close>

definition generate_session_id :: "TransferClient \<Rightarrow> string \<Rightarrow> string \<Rightarrow> string" where
  "generate_session_id c transferid dest_id =
     (if dest_id = [] then cl_client_id c else dest_id) @ ''_ses'' @ transferid"

fun index_of :: "('a \<Rightarrow> bool) \<Rightarrow> 'a list \<Rightarrow> nat option" where
  "index_of P [] = None"
| "index_of P (x # xs) = (if P x then Some 0 else map_option Suc (index_of P xs))"

definition get_session :: "TransferClient \<Rightarrow> string \<Rightarrow> nat option" where
  "get_session c transfer_id =
     (let wanted = (if \<not> str_contains transfer_id ''ses'' then generate_session_id c transfer_id []
                    else transfer_id)
      in index_of (\<lambda>s. ses_session_id s = wanted) (cl_sessions c))"

definition create_session ::
  "env \<Rightarrow> GroupMetadata \<Rightarrow> e_session_type \<Rightarrow> string \<Rightarrow> string \<Rightarrow> IPFormat \<Rightarrow> string list \<Rightarrow> (client_world, nat) action" where
  "create_session E transfer_options type ses_id work_dir ip dest_clients =
     bind self (\<lambda>c.
       let ip' = (if is_default ip then cl_listening_ip c else ip) in
       bind (on_world (TransferSession_new E (uninit_bool E) transfer_options type ses_id ip' work_dir
               (ni_bookkeepers_conn (cl_ni c)) (ni_clients_conn (cl_ni c)))) (\<lambda>s.
       seq (on_self (\<lambda>c. c\<lparr>cl_sessions := cl_sessions c @ [set_target_clients dest_clients s]\<rparr>))
       (return (length (cl_sessions c)))))"

text \<open>
  \<open>remove_session\<close>: the loop tests the identifier of the session it found, not the one at the
  index, so it either erases the first session or none.
\<close>

definition remove_session :: "string \<Rightarrow> (client_world, unit) action" where
  "remove_session session_id =
     bind self (\<lambda>c.
       case get_session c session_id of
         None \<Rightarrow> on_world (ers_warning (SessionIDNotFoundInClientError (cl_client_id c) session_id))
       | Some i \<Rightarrow>
           (case index_of (\<lambda>_. ses_session_id (cl_sessions c ! i) = session_id) (cl_sessions c) of
              None \<Rightarrow> return ()
            | Some k \<Rightarrow> on_self (\<lambda>c. c\<lparr>cl_sessions := take k (cl_sessions c) @ drop (Suc k) (cl_sessions c)\<rparr>)))"

definition with_session :: "string \<Rightarrow> (session_world, bool) action \<Rightarrow> (client_world, unit) action" where
  "with_session transfer_id f =
     bind self (\<lambda>c.
       case get_session c transfer_id of
         None \<Rightarrow> on_world (ers_warning (SessionIDNotFoundInClientError (cl_client_id c) transfer_id))
       | Some i \<Rightarrow> seq (on_session i f) (return ()))"

definition start_transfer :: "env \<Rightarrow> string \<Rightarrow> (client_world, unit) action" where
  "start_transfer E transfer_id = with_session transfer_id (session_start_all E)"

definition pause_transfer :: "env \<Rightarrow> string \<Rightarrow> (client_world, unit) action" where
  "pause_transfer E transfer_id = with_session transfer_id (session_pause_all E)"

definition resume_transfer :: "env \<Rightarrow> string \<Rightarrow> (client_world, unit) action" where
  "resume_transfer E transfer_id = with_session transfer_id (session_resume_all E)"

definition cancel_transfer :: "env \<Rightarrow> string \<Rightarrow> (client_world, unit) action" where
  "cancel_transfer E transfer_id = with_session transfer_id (session_cancel_all E)"

section \<open>Creating a transfer\<close>

definition create_metadata_from_file :: "env \<Rightarrow> IPFormat \<Rightarrow> string \<Rightarrow> (world, tm_ref) action" where
  "create_metadata_from_file E ip src =
     bind (ask (\<lambda>t. fs_size E t src) (\<lambda>_. EvFile ''file_size'' src)) (\<lambda>sz.
     bind (of_outcome sz) (\<lambda>n.
     bind (of_result (TransferMetadata_new (env_cwd E) src n ip [] default_ip [] 0 WAITING)) alloc))"

text \<open>The loop over the files of a new transfer, on the local group.\<close>

fun add_existing_files :: "env \<Rightarrow> TransferClient \<Rightarrow> string list \<Rightarrow> (group_world, unit) action" where
  "add_existing_files E c [] = return ()"
| "add_existing_files E c (file # files) =
     bind (on_world (ask (\<lambda>t. fs_exists E t file) (\<lambda>_. EvFile ''exists'' file))) (\<lambda>ex.
     bind (of_outcome ex) (\<lambda>found.
       seq (if \<not> found then on_world (ers_warning (FileForTransferNotExistError (cl_client_id c) file))
            else seq (add_expected_file E file)
                   (bind (on_world (create_metadata_from_file E (cl_listening_ip c) file)) (\<lambda>r.
                    seq (add_file r) (return ()))))
         (add_existing_files E c files)))"

definition build_group :: "env \<Rightarrow> TransferClient \<Rightarrow> string list \<Rightarrow> GroupMetadata \<Rightarrow> (world, GroupMetadata) action" where
  "build_group E c files g w =
     (case add_existing_files E c files (g, w) of
        (Ret _, (g', w')) \<Rightarrow> (Ret g', w')
      | (Raise e, (g', w')) \<Rightarrow> (Raise e, w'))"

definition announce_group :: "env \<Rightarrow> string \<Rightarrow> GroupMetadata \<Rightarrow> (client_world, unit) action" where
  "announce_group E session_name g =
     bind self (\<lambda>c. for_each (\<lambda>bk.
       bind (on_world (reads w_cells)) (\<lambda>cells.
       seq (cl_send E GROUP_METADATA session_name bk bk (gm_export_to_string E cells g)) (return ())))
       (ni_bookkeepers_conn (cl_ni c)))"

text \<open>What each destination client is sent: the group, then every transfer in full.\<close>

definition invite_client :: "env \<Rightarrow> string \<Rightarrow> nat \<Rightarrow> string \<Rightarrow> (client_world, unit) action" where
  "invite_client E transfer_id i client =
     bind self (\<lambda>c.
       let new_session_name = generate_session_id c transfer_id client;
           g = ses_transfer_options (cl_sessions c ! i)
       in bind (on_world (reads w_cells)) (\<lambda>cells.
          seq (cl_send E NEW_TRANSFER (cl_client_id c) new_session_name client (gm_export_to_string E cells g))
          (for_each (\<lambda>r.
             bind (on_world (tm_export_partial E True r)) (\<lambda>dat.
             seq (cl_send E TRANSFER_METADATA (cl_client_id c) new_session_name client dat) (return ())))
             (gm_transfers_meta g))))"

definition create_new_transfer ::
  "env \<Rightarrow> string \<Rightarrow> string \<Rightarrow> string list \<Rightarrow> string list \<Rightarrow> json \<Rightarrow> (client_world, unit) action" where
  "create_new_transfer E transfer_id protocol dest_clients files protocol_options =
     bind self (\<lambda>c.
       let session_name = generate_session_id c transfer_id [] in
       case get_session c session_name of
         Some _ \<Rightarrow> return ()
       | None \<Rightarrow>
         (case string_to_protocols protocol of
            None \<Rightarrow> on_world (ers_error (InvalidProtocolError (cl_client_id c) protocol))
          | Some p \<Rightarrow>
            bind (on_world (build_group E c files
                    (GroupMetadata_new transfer_id session_name (cl_listening_ip c) p protocol_options []))) (\<lambda>g.
              if gm_transfers_meta g = [] then
                on_world (ers_error (FileForTransferNotExistError (cl_client_id c) ''All files''))
              else
                seq (announce_group E session_name g)
                (bind (create_session E g Uploader session_name
                        (path_append (cl_listening_dir c) transfer_id) (cl_listening_ip c) dest_clients) (\<lambda>i.
                 for_each (invite_client E transfer_id i) dest_clients)))))"

section \<open>Sharing files\<close>

definition share_available_files :: "env \<Rightarrow> string list \<Rightarrow> string \<Rightarrow> (client_world, unit) action" where
  "share_available_files E to_share dest =
     for_each (\<lambda>f.
       bind self (\<lambda>c.
       bind (on_world (create_metadata_from_file E (cl_listening_ip c) f)) (\<lambda>fmeta.
       seq (on_self (\<lambda>c. if map_of (cl_available_files c) f = None
              then c\<lparr>cl_available_files := smap_put f fmeta (cl_available_files c)\<rparr> else c))
       (bind (on_world (tm_export_partial E True fmeta)) (\<lambda>dat.
        seq (cl_send E TRANSFER_METADATA (cl_client_id c) dest dest dat) (return ())))))) to_share"

definition list_directory :: "env \<Rightarrow> string \<Rightarrow> (client_world, dir_entry list) action" where
  "list_directory E folder =
     bind (on_world (ask (\<lambda>t. fs_entries E t folder) (\<lambda>_. EvFile ''directory'' folder))) of_outcome"

text \<open>
  The two loops of the scan thread the set of paths seen so far. The first handles the group
  metadata files: a group without an active session gets one.
\<close>

definition scan_group_entry :: "env \<Rightarrow> string list \<Rightarrow> dir_entry \<Rightarrow> (client_world, string list) action" where
  "scan_group_entry E seen entry =
     (case entry of
        RegularFile p \<Rightarrow>
          if extension p = gm_file_extension \<and> p \<notin> set seen then
            bind (on_world (GroupMetadata_of_file E (uninit_protocol E) p)) (\<lambda>metadata.
            bind self (\<lambda>c.
              if list_ex (\<lambda>s. gm_eq (ses_transfer_options s) metadata) (cl_sessions c)
              then return (sset_insert p seen)
              else seq (create_session E metadata Uploader (generate_session_id c (gm_group_id metadata) [])
                         (path_append (cl_listening_dir c) (''ses'' @ show_nat (length (cl_sessions c)))) default_ip [])
                   (return (sset_insert p seen))))
          else return seen
      | _ \<Rightarrow> return seen)"

fun fold_entries ::
  "(string list \<Rightarrow> dir_entry \<Rightarrow> (client_world, string list) action) \<Rightarrow> dir_entry list \<Rightarrow> string list
     \<Rightarrow> (client_world, string list) action" where
  "fold_entries f [] seen = return seen"
| "fold_entries f (e # es) seen = bind (f seen e) (fold_entries f es)"

text \<open>A transfer metadata file goes to the first session that expects its file name.\<close>

definition offer_metadata :: "env \<Rightarrow> tm_ref \<Rightarrow> (client_world, bool) action" where
  "offer_metadata E r =
     bind self (\<lambda>c. bind (on_world (cell r)) (\<lambda>m.
       case index_of (\<lambda>s. get_file_name m \<in> set (gm_expected_files (ses_transfer_options s))) (cl_sessions c) of
         None \<Rightarrow> return False
       | Some i \<Rightarrow> seq (on_session i (session_add_file E r)) (return True)))"

fun scan_available_files ::
  "nat \<Rightarrow> env \<Rightarrow> bool \<Rightarrow> string \<Rightarrow> string list \<Rightarrow> (client_world, string list) action" where
  "scan_available_files 0 E nested folder seen = throw FuelExhausted"
| "scan_available_files (Suc fuel) E nested folder seen =
     bind self (\<lambda>c.
       let dir = (if folder = [] then cl_listening_dir c else folder) in
       bind (list_directory E dir) (\<lambda>entries.
       bind (fold_entries (scan_group_entry E) entries seen) (\<lambda>seen1.
       bind (list_directory E dir) (\<lambda>entries2.
         fold_entries (\<lambda>seen entry.
           case entry of
             RegularFile p \<Rightarrow>
               if extension p \<noteq> gm_file_extension \<and> p \<notin> set seen then
                 (if extension p = tm_file_extension then
                    bind (on_world (TransferMetadata_of_file E p)) (\<lambda>r.
                    bind (offer_metadata E r) (\<lambda>wanted.
                      return (if wanted then sset_insert p seen else seen)))
                  else return (sset_insert p seen))
               else return seen
           | Directory p \<Rightarrow>
               if nested then scan_available_files fuel E nested p seen else return seen
           | OtherEntry _ \<Rightarrow> return seen) entries2 seen1))))"

section \<open>Notifications\<close>

text \<open>A request for a session: for the whole group, or for the file named in the data.\<close>

definition session_request ::
  "NotificationData \<Rightarrow> (session_world, bool) action \<Rightarrow> (tm_ref \<Rightarrow> (session_world, bool) action)
     \<Rightarrow> (client_world, unit) action" where
  "session_request notif all single =
     with_session (m_target_id notif)
       (if m_data notif = [] then all
        else bind (on_group (get_transfer_meta_from_file_path (m_data notif))) single)"

definition receive_transfer_metadata :: "env \<Rightarrow> NotificationData \<Rightarrow> (client_world, unit) action" where
  "receive_transfer_metadata E notif =
     bind (on_world (TransferMetadata_of_string E (m_data notif))) (\<lambda>fmeta.
     bind self (\<lambda>c.
       case index_of (\<lambda>s. str_contains (ses_session_id s) (m_target_id notif)) (cl_sessions c) of
         None \<Rightarrow> on_world (ers_warning (SessionIDNotFoundInClientError (cl_client_id c) (m_target_id notif)))
       | Some i \<Rightarrow>
           seq (on_world (try_update_cell fmeta (set_dest (ses_ip (cl_sessions c ! i)))))
           (on_session i (session_add_file E fmeta))))"

definition receive_new_transfer :: "env \<Rightarrow> NotificationData \<Rightarrow> (client_world, unit) action" where
  "receive_new_transfer E notif =
     bind (on_world (GroupMetadata_of_string E (uninit_protocol E) (m_data notif))) (\<lambda>metadata.
     bind self (\<lambda>c.
       let type = (if list_ex (\<lambda>f. map_of (cl_available_files c) f \<noteq> None) (gm_expected_files metadata)
                   then Uploader else Downloader)
       in seq (create_session E metadata type (m_target_id notif)
                 (path_append (cl_listening_dir c) (gm_group_id metadata)) default_ip [])
            (return ())))"

definition receive_connection_request :: "nat \<Rightarrow> env \<Rightarrow> NotificationData \<Rightarrow> (client_world, unit) action" where
  "receive_connection_request fuel E notif =
     bind (scan_available_files fuel E True [] []) (\<lambda>to_share.
     seq (share_available_files E to_share (m_source_id notif))
     (bind self (\<lambda>c.
      seq (cl_send E TRANSFER_METADATA (cl_client_id c) (m_source_id notif) (m_source_id notif) ''end'')
      (return ()))))"

definition handle_notification :: "nat \<Rightarrow> env \<Rightarrow> e_notification_type \<Rightarrow> NotificationData \<Rightarrow> (client_world, unit) action" where
  "handle_notification fuel E act notif =
     (case act of
        CONNECTION_REQUEST \<Rightarrow> receive_connection_request fuel E notif
      | NEW_TRANSFER \<Rightarrow> receive_new_transfer E notif
      | TRANSFER_METADATA \<Rightarrow> receive_transfer_metadata E notif
      | START_TRANSFER \<Rightarrow> session_request notif (session_start_all E) (session_start_file E)
      | PAUSE_TRANSFER \<Rightarrow> session_request notif (session_pause_all E) (\<lambda>r. session_pause_file E r False)
      | RESUME_TRANSFER \<Rightarrow> session_request notif (session_resume_all E) (\<lambda>r. session_resume_file E r False)
      | CANCEL_TRANSFER \<Rightarrow> session_request notif (session_cancel_all E) (\<lambda>r. session_cancel_file E r False)
      | UPDATE_REQUEST \<Rightarrow> session_request notif (update_metadatas_to_bookkeeper E) (update_metadata_to_bookkeeper E)
      | _ \<Rightarrow> bind self (\<lambda>c. on_world (ers_warning
               (NotHandledNotificationError (cl_client_id c) (m_source_id notif) (m_notification notif)))))"

definition client_action_on_receive :: "nat \<Rightarrow> env \<Rightarrow> NotificationData \<Rightarrow> (client_world, bool) action" where
  "client_action_on_receive fuel E notif =
     bind self (\<lambda>c.
       if \<not> str_contains (m_target_id notif) (cl_client_id c) \<and> m_target_id notif \<noteq> ''all'' then
         seq (on_world (ers_warning
                (NotificationWrongDestinationError (cl_client_id c) (m_source_id notif) (m_target_id notif))))
           (return False)
       else
         (case string_to_notification (m_notification notif) of
            None \<Rightarrow> seq (on_world (ers_warning
                       (InvalidNotificationReceivedError (cl_client_id c) (m_source_id notif) (m_notification notif))))
                     (throw BadOptionalAccess)
          | Some act \<Rightarrow> seq (handle_notification fuel E act notif) (return True)))"

section \<open>Connections and service loops\<close>

definition strip_prefix :: "string \<Rightarrow> string \<Rightarrow> string" where
  "strip_prefix p s = (if starts_with s p then drop (length p) s else s)"

definition short_name :: "string \<Rightarrow> string" where
  "short_name s = strip_prefix ''snb-sample-config-'' (strip_prefix ''snbmodules_'' s)"

definition get_my_conn :: "(client_world, string) action" where
  "get_my_conn =
     bind self (\<lambda>c.
       if cl_my_conn c \<noteq> [] then return (cl_my_conn c)
       else (case List.find (\<lambda>k. short_name k = short_name (cl_client_id c)) (ni_clients_conn (cl_ni c)) of
               Some k \<Rightarrow>
                 seq (on_self (\<lambda>c. c\<lparr>cl_my_conn := k\<rparr>))
                 (if k = [] then seq (on_world (ers_warning (ConnectionNotFoundError (cl_client_id c)))) (return k)
                  else return k)
             | None \<Rightarrow> seq (on_world (ers_warning (ConnectionNotFoundError (cl_client_id c)))) (return [])))"

definition on_ni :: "(NotificationInterface \<times> world, 'a) action \<Rightarrow> (client_world, 'a) action" where
  "on_ni f = (\<lambda>(c, w). case f (cl_ni c, w) of (r, (n, w')) \<Rightarrow> (r, (c\<lparr>cl_ni := n\<rparr>, w')))"

text \<open>One round of \<open>start\<close>: false when no notification came, and the client stops.\<close>

definition client_start_round :: "nat \<Rightarrow> env \<Rightarrow> int \<Rightarrow> (client_world, bool) action" where
  "client_start_round fuel E timeout =
     bind get_my_conn (\<lambda>conn.
     bind self (\<lambda>c.
     bind (on_world (listen_for_notification E (cl_ni c) conn [] timeout (- 1))) (\<lambda>msg.
       case msg of
         None \<Rightarrow> return False
       | Some d \<Rightarrow> seq (client_action_on_receive fuel E d) (return True))))"

fun client_start :: "nat \<Rightarrow> env \<Rightarrow> int \<Rightarrow> (client_world, bool) action" where
  "client_start 0 E timeout = throw FuelExhausted"
| "client_start (Suc n) E timeout =
     bind (client_start_round n E timeout) (\<lambda>more. if more then client_start n E timeout else return False)"

text \<open>One round of \<open>do_work\<close>, run as long as the running flag is set.\<close>

definition client_work_round :: "nat \<Rightarrow> env \<Rightarrow> (client_world, unit) action" where
  "client_work_round fuel E =
     bind self (\<lambda>c.
     seq (if ni_bookkeepers_conn (cl_ni c) = [] then on_ni (lookups_connections E) else return ())
     (bind get_my_conn (\<lambda>conn.
      bind self (\<lambda>c.
      bind (on_world (listen_for_notification E (cl_ni c) conn [] (- 1) (- 1))) (\<lambda>msg.
        case msg of
          None \<Rightarrow> return ()
        | Some d \<Rightarrow> seq (client_action_on_receive fuel E d) (return ()))))))"

section \<open>The contract of a notification endpoint\<close>

text \<open>
  What the client and the bookkeeper promise about the notifications they receive: one for
  somebody else, or of an unknown kind, changes nothing but the trace.
\<close>

locale notification_endpoint =
  fixes receive :: "NotificationData \<Rightarrow> ('c \<times> world, bool) action"
    and my_id :: "'c \<Rightarrow> string"
  assumes foreign: "\<not> str_contains (m_target_id d) (my_id c) \<Longrightarrow> m_target_id d \<noteq> ''all'' \<Longrightarrow>
      receive d (c, w) = (Ret False, (c, w\<lparr>w_trace := w_trace w @
        [EvIssue Warn (NotificationWrongDestinationError (my_id c) (m_source_id d) (m_target_id d))]\<rparr>))"
    and unknown: "str_contains (m_target_id d) (my_id c) \<or> m_target_id d = ''all'' \<Longrightarrow>
      string_to_notification (m_notification d) = None \<Longrightarrow>
      receive d (c, w) = (Raise BadOptionalAccess, (c, w\<lparr>w_trace := w_trace w @
        [EvIssue Warn (InvalidNotificationReceivedError (my_id c) (m_source_id d) (m_notification d))]\<rparr>))"
begin

lemma handled_is_addressed:
  assumes "receive d (c, w) = (Ret True, st)"
  shows "(str_contains (m_target_id d) (my_id c) \<or> m_target_id d = ''all'')
    \<and> (\<exists>n. m_notification d = notification_to_string n)"
proof -
  have "str_contains (m_target_id d) (my_id c) \<or> m_target_id d = ''all''"
    using assms foreign[of d c w] by auto
  moreover have "string_to_notification (m_notification d) \<noteq> None"
    using assms unknown[of d c w] calculation by auto
  ultimately show ?thesis using notif.decode_iff by auto
qed

lemma unhandled_keeps_state:
  assumes "\<not> (str_contains (m_target_id d) (my_id c) \<or> m_target_id d = ''all'')
      \<or> string_to_notification (m_notification d) = None"
  shows "\<exists>i. snd (receive d (c, w)) = (c, w\<lparr>w_trace := w_trace w @ [EvIssue Warn i]\<rparr>)"
  using assms foreign[of d c w] unknown[of d c w] by fastforce

end

interpretation client: notification_endpoint "client_action_on_receive fuel E" cl_client_id
  by unfold_locales
    (auto simp: client_action_on_receive_def ers_warning_def log_event_def)

section \<open>Lemmas\<close>

lemma index_of_Some:
  "index_of P xs = Some i \<Longrightarrow> i < length xs \<and> P (xs ! i) \<and> (\<forall>j<i. \<not> P (xs ! j))"
proof (induction xs arbitrary: i)
  case (Cons x xs)
  show ?case
  proof (cases "P x")
    case True
    then show ?thesis using Cons.prems by auto
  next
    case False
    then obtain k where "index_of P xs = Some k" "i = Suc k" using Cons.prems by auto
    then show ?thesis using Cons.IH[of k] False by (auto simp: less_Suc_eq_0_disj)
  qed
qed simp

lemma index_of_None: "index_of P xs = None \<longleftrightarrow> (\<forall>x\<in>set xs. \<not> P x)"
  by (induction xs) auto

lemma generate_session_id_ses: "str_contains (generate_session_id c tid dest) ''ses''"
  unfolding generate_session_id_def str_contains_iff
  by (metis append.assoc append_Cons append_Nil)

lemma get_session_generated:
  "get_session c (generate_session_id c tid []) =
     index_of (\<lambda>s. ses_session_id s = generate_session_id c tid []) (cl_sessions c)"
  by (simp add: get_session_def generate_session_id_ses)

text \<open>One existing file of a new transfer: it is expected, created, and moved to the transfers.\<close>

lemma run_create_metadata:
  assumes "fs_size E (w_trace w) f = Ret n" "clean_abs f"
  shows "create_metadata_from_file E ip f w =
     (Ret (w_next w), w\<lparr>w_cells := (w_cells w)(w_next w := default_tm\<lparr>tm_file_path := f, tm_bytes_size := n,
         tm_src := ip, tm_modified_fields := ctor_modified\<rparr>),
       w_next := Suc (w_next w), w_trace := w_trace w @ [EvFile ''file_size'' f]\<rparr>)"
  using assms
  by (simp add: create_metadata_from_file_def ask_def TransferMetadata_new_def alloc_def default_tm_def)

lemma add_one_existing_file:
  assumes "gm_expected_files g = []" "clean_abs f" "fs_size E (w_trace w) f = Ret n"
  shows "\<exists>w'. seq (add_expected_file E f)
             (bind (on_world (create_metadata_from_file E ip f)) (\<lambda>r. seq (add_file r) (return ()))) (g, w)
           = (Ret (), (g\<lparr>gm_transfers_meta := gm_transfers_meta g @ [w_next w]\<rparr>, w'))
         \<and> w_next w' = Suc (w_next w) \<and> (\<forall>q. q \<noteq> w_next w \<longrightarrow> w_cells w' q = w_cells w q)
         \<and> w_cells w' (w_next w) = default_tm\<lparr>tm_file_path := f, tm_bytes_size := n, tm_src := ip,
              tm_group_id := gm_group_id g, tm_modified_fields := ctor_modified\<rparr>"
proof -
  let ?g = "g\<lparr>gm_expected_files := [f]\<rparr>"
  let ?w = "w\<lparr>w_cells := (w_cells w)(w_next w := default_tm\<lparr>tm_file_path := f, tm_bytes_size := n,
         tm_src := ip, tm_modified_fields := ctor_modified\<rparr>),
       w_next := Suc (w_next w), w_trace := w_trace w @ [EvFile ''file_size'' f]\<rparr>"
  have 1: "add_expected_file E f (g, w) = (Ret (), (?g, w))"
    using run_add_expected_file[OF assms(2), of E g w] assms(1) by (simp add: sset_insert_def)
  have "tm_file_path (w_cells ?w (w_next w)) \<in> set (gm_expected_files ?g)" by simp
  note 2 = add_file_expected[OF this]
  have 3: "g\<lparr>gm_expected_files := [], gm_transfers_meta := gm_transfers_meta g @ [w_next w]\<rparr>
      = g\<lparr>gm_transfers_meta := gm_transfers_meta g @ [w_next w]\<rparr>"
    using assms(1) by (cases g) simp
  show ?thesis
    using 1 2 3 run_create_metadata[OF assms(3,2), of ip]
    by (simp add: sset_erase_def set_group_id_def)
qed

definition files_added ::
  "TransferClient \<Rightarrow> string list \<Rightarrow> GroupMetadata \<Rightarrow> world \<Rightarrow> GroupMetadata \<Rightarrow> world \<Rightarrow> bool" where
  "files_added c paths g w g' w' \<longleftrightarrow>
     w_next w \<le> w_next w'
     \<and> g' = g\<lparr>gm_transfers_meta := gm_transfers_meta g @ [w_next w..<w_next w']\<rparr>
     \<and> map (\<lambda>r. tm_file_path (w_cells w' r)) [w_next w..<w_next w'] = paths
     \<and> (\<forall>r. w_next w \<le> r \<longrightarrow> r < w_next w' \<longrightarrow> tm_src (w_cells w' r) = cl_listening_ip c
          \<and> tm_status (w_cells w' r) = WAITING \<and> tm_group_id (w_cells w' r) = gm_group_id g)
     \<and> (\<forall>q. q < w_next w \<longrightarrow> w_cells w' q = w_cells w q)"

lemma files_added_skip:
  "files_added c paths g (w\<lparr>w_trace := t\<rparr>) g' w' \<Longrightarrow> files_added c paths g w g' w'"
  by (simp add: files_added_def)

lemma files_added_one:
  assumes "files_added c paths (g\<lparr>gm_transfers_meta := gm_transfers_meta g @ [w_next w]\<rparr>) w1 g' w'"
    and "w_next w1 = Suc (w_next w)" "\<And>q. q \<noteq> w_next w \<Longrightarrow> w_cells w1 q = w_cells w q"
    and "tm_file_path (w_cells w1 (w_next w)) = f" "tm_src (w_cells w1 (w_next w)) = cl_listening_ip c"
    "tm_status (w_cells w1 (w_next w)) = WAITING" "tm_group_id (w_cells w1 (w_next w)) = gm_group_id g"
  shows "files_added c (f # paths) g w g' w'"
proof -
  have le: "Suc (w_next w) \<le> w_next w'" using assms(1,2) by (simp add: files_added_def)
  have old: "w_cells w' q = w_cells w1 q" if "q \<le> w_next w" for q
    using assms(1,2) that by (simp add: files_added_def)
  have upt: "[w_next w..<w_next w'] = w_next w # [Suc (w_next w)..<w_next w']"
    using le by (simp add: upt_conv_Cons)
  have grp: "g' = g\<lparr>gm_transfers_meta := gm_transfers_meta g @ [w_next w..<w_next w']\<rparr>"
    "map (\<lambda>r. tm_file_path (w_cells w' r)) [w_next w..<w_next w'] = f # paths"
    using assms(1,2,4) old[of "w_next w"] unfolding files_added_def upt by simp_all
  have "tm_src (w_cells w' r) = cl_listening_ip c \<and> tm_status (w_cells w' r) = WAITING
      \<and> tm_group_id (w_cells w' r) = gm_group_id g" if "w_next w \<le> r" "r < w_next w'" for r
  proof (cases "r = w_next w")
    case True
    then show ?thesis using old[of r] assms(5-7) by simp
  next
    case False
    then show ?thesis using assms(1,2) that by (simp add: files_added_def)
  qed
  moreover have "w_cells w' q = w_cells w q" if "q < w_next w" for q
    using old[of q] assms(3)[of q] that by simp
  ultimately show ?thesis using le grp by (simp add: files_added_def)
qed

lemma add_existing_files_run:
  assumes "\<And>t f. f \<in> set files \<Longrightarrow> fs_exists E t f = Ret (ex f)"
    and "\<And>t f. f \<in> set files \<Longrightarrow> ex f \<Longrightarrow> \<exists>n. fs_size E t f = Ret n"
    and "list_all clean_abs files" "gm_expected_files g = []"
  shows "\<exists>g' w'. add_existing_files E c files (g, w) = (Ret (), (g', w'))
           \<and> files_added c (filter ex files) g w g' w'"
  using assms
proof (induction files arbitrary: g w)
  case Nil
  then show ?case by (cases g) (simp add: files_added_def)
next
  case (Cons f files)
  let ?t = "w_trace w @ [EvFile ''exists'' f]"
  show ?case
  proof (cases "ex f")
    case False
    let ?w = "w\<lparr>w_trace := ?t @ [EvIssue Warn (FileForTransferNotExistError (cl_client_id c) f)]\<rparr>"
    obtain g' w' where "add_existing_files E c files (g, ?w) = (Ret (), (g', w'))"
        "files_added c (filter ex files) g ?w g' w'"
      using Cons.IH[of g ?w] Cons.prems by auto
    then show ?thesis
      using Cons.prems(1)[of f] False
      by (simp add: ask_def ers_warning_def log_event_def files_added_skip)
  next
    case True
    let ?w = "w\<lparr>w_trace := ?t\<rparr>"
    obtain n where n: "fs_size E (w_trace ?w) f = Ret n" using Cons.prems(2)[of f ?t] True by auto
    have cl: "clean_abs f" using Cons.prems(3) by simp
    obtain w1 where w1: "seq (add_expected_file E f)
             (bind (on_world (create_metadata_from_file E (cl_listening_ip c) f)) (\<lambda>r. seq (add_file r) (return ()))) (g, ?w)
           = (Ret (), (g\<lparr>gm_transfers_meta := gm_transfers_meta g @ [w_next w]\<rparr>, w1))"
        "w_next w1 = Suc (w_next w)" "\<And>q. q \<noteq> w_next w \<Longrightarrow> w_cells w1 q = w_cells w q"
        "w_cells w1 (w_next w) = default_tm\<lparr>tm_file_path := f, tm_bytes_size := n, tm_src := cl_listening_ip c,
              tm_group_id := gm_group_id g, tm_modified_fields := ctor_modified\<rparr>"
      using add_one_existing_file[OF Cons.prems(4) cl n, of "cl_listening_ip c"] by auto
    let ?g = "g\<lparr>gm_transfers_meta := gm_transfers_meta g @ [w_next w]\<rparr>"
    obtain g' w' where r: "add_existing_files E c files (?g, w1) = (Ret (), (g', w'))"
        "files_added c (filter ex files) ?g w1 g' w'"
      using Cons.IH[of ?g w1] Cons.prems by auto
    have "files_added c (f # filter ex files) g w g' w'"
      by (rule files_added_one[OF r(2) w1(2,3)]) (simp_all add: w1(4) default_tm_def)
    then show ?thesis
      using Cons.prems(1)[of f] True r(1) w1(1) by (simp add: ask_def)
  qed
qed

lemma filename_no_slash: "CHR ''/'' \<notin> set (filename p)"
proof -
  have "CHR ''/'' \<notin> set (takeWhile (\<lambda>c. c \<noteq> slash) (rev p))"
    by (auto simp: slash_def dest: set_takeWhileD)
  then show ?thesis by (simp add: filename_def)
qed

text \<open>What construction and messages leave alone: \<open>same_self\<close> is the state beside the world.\<close>

definition same_self :: "'x \<times> world \<Rightarrow> 'x \<times> world \<Rightarrow> bool" where
  "same_self s s' \<longleftrightarrow> fst s' = fst s"

definition ses_static :: "session_world \<Rightarrow> session_world \<Rightarrow> bool" where
  "ses_static s s' \<longleftrightarrow> fst s' = (fst s)\<lparr>ses_interface := ses_interface (fst s')\<rparr>"

interpretation same_self: frame_order same_self
  by unfold_locales (simp_all add: same_self_def)

interpretation ses_static: frame_order ses_static
proof
  show "ses_static s s" for s by (cases "fst s") (simp add: ses_static_def)
  show "ses_static s u" if "ses_static s t" "ses_static t u" for s t u
    using that by (cases "fst s"; cases "fst t"; cases "fst u") (simp add: ses_static_def)
qed

lemma same_self_on_world: "keeps same_self (on_world f)"
  by (auto simp: keeps_def same_self_def on_world_def split: prod.splits)

lemma same_self_self: "keeps same_self self"
  by (auto simp: keeps_def same_self_def self_def)

lemmas same_self_rules = same_self.frame_rules same_self_on_world same_self_self

lemma ses_static_of_same_self: "keeps same_self f \<Longrightarrow> keeps ses_static f"
  by (auto simp: keeps_def same_self_def ses_static_def)

lemma same_self_update: "keeps same_self (update_metadatas_to_bookkeeper E)"
  unfolding update_metadatas_to_bookkeeper_def update_metadata_to_bookkeeper_def ses_send_def
  by (intro same_self_rules)

lemma ses_static_set_interface: "keeps ses_static (set_interface i)"
  by (auto simp: keeps_def ses_static_def set_interface_def on_self_def)

lemma ses_static_init: "keeps ses_static (init_interface E b)"
proof -
  have "keeps ses_static (write_magnet_links E)"
    unfolding write_magnet_links_def Let_def
    by (intro ses_static_of_same_self same_self_rules)
      (auto intro!: same_self_rules split: option.splits)
  then show ?thesis
    unfolding init_interface_def Let_def
    by (intro ses_static.frame_rules ses_static_of_same_self[OF same_self_self])
      (auto intro!: ses_static.frame_rules ses_static_of_same_self[OF same_self_on_world]
        ses_static_set_interface split: e_protocol_type.splits)
qed

lemma ses_static_ctor: "keeps ses_static (session_ctor_body E b)"
  unfolding session_ctor_body_def
  by (intro ses_static.frame_rules ses_static_init ses_static_of_same_self[OF same_self_self]
      ses_static_of_same_self[OF same_self_on_world] ses_static_of_same_self[OF same_self_update])

lemma TransferSession_new_fields:
  assumes "TransferSession_new E b g ty sid ip dir bks cls w = (Ret s, w')"
  shows "ses_session_id s = sid \<and> ses_type s = ty \<and> ses_transfer_options s = g \<and> ses_ip s = ip
         \<and> ses_work_dir s = dir \<and> ni_bookkeepers_conn (ses_ni s) = bks \<and> ni_clients_conn (ses_ni s) = cls"
proof -
  obtain u where "session_ctor_body E b (session_blank g ty sid ip dir bks cls, w) = (Ret u, (s, w'))"
    using assms by (auto simp: TransferSession_new_def split: prod.splits outcome.splits)
  from keeps_run[OF ses_static_ctor this]
  have "s = (session_blank g ty sid ip dir bks cls)\<lparr>ses_interface := ses_interface s\<rparr>"
    by (simp add: ses_static_def)
  then obtain i where "s = (session_blank g ty sid ip dir bks cls)\<lparr>ses_interface := i\<rparr>" by blast
  then show ?thesis
    by (simp add: session_blank_def NotificationInterface_with_conns_def)
qed

text \<open>Creating a session appends one session with the given name, or throws and appends none.\<close>

definition session_appended :: "(TransferSession \<Rightarrow> bool) \<Rightarrow> TransferClient \<Rightarrow> TransferClient \<Rightarrow> bool" where
  "session_appended P c c' \<longleftrightarrow> c' = c \<or> (\<exists>s. c' = c\<lparr>cl_sessions := cl_sessions c @ [s]\<rparr> \<and> P s)"

lemma create_session_appends:
  assumes "create_session E g ty sid dir ip dests (c, w) = (out, (c', w'))"
  shows "session_appended (\<lambda>s. ses_session_id s = sid \<and> ses_type s = ty \<and> ses_target_clients s = dests
           \<and> ses_transfer_options s = g) c c'"
proof -
  let ?ip = "if is_default ip then cl_listening_ip c else ip"
  obtain o1 w1 where new: "TransferSession_new E (uninit_bool E) g ty sid ?ip dir
      (ni_bookkeepers_conn (cl_ni c)) (ni_clients_conn (cl_ni c)) w = (o1, w1)"
    by (metis prod.exhaust)
  show ?thesis
  proof (cases o1)
    case (Ret s)
    then have "c' = c\<lparr>cl_sessions := cl_sessions c @ [set_target_clients dests s]\<rparr>"
      using assms new by (simp add: create_session_def Let_def)
    then show ?thesis
      using TransferSession_new_fields[OF new[unfolded Ret]]
      by (auto simp: session_appended_def set_target_clients_def)
  next
    case (Raise e)
    then show ?thesis
      using assms new by (simp add: create_session_def Let_def session_appended_def)
  qed
qed

lemma same_self_send: "keeps same_self (cl_send E n src dst conn dat)"
  unfolding cl_send_def by (intro same_self_rules)

lemma same_self_announce: "keeps same_self (announce_group E nm g)"
  unfolding announce_group_def by (intro same_self_rules same_self_send)

lemma same_self_invite: "keeps same_self (for_each (invite_client E tid i) dests)"
  unfolding invite_client_def Let_def by (intro same_self_rules same_self_send)

lemma create_new_transfer_noop:
  "get_session c (generate_session_id c tid []) \<noteq> None \<or> string_to_protocols protocol = None \<Longrightarrow>
     fst (snd (create_new_transfer E tid protocol dests files opts (c, w))) = c"
  by (cases "get_session c (generate_session_id c tid [])")
    (simp_all add: create_new_transfer_def ers_error_def log_event_def)

lemma create_new_transfer_sessions:
  assumes "create_new_transfer E tid protocol dests files opts (c, w) = (out, (c', w'))"
  shows "session_appended (\<lambda>s. ses_session_id s = generate_session_id c tid [] \<and> ses_type s = Uploader
           \<and> ses_target_clients s = dests) c c'"
proof -
  let ?name = "generate_session_id c tid []"
  define goal where "goal = session_appended (\<lambda>s. ses_session_id s = ?name \<and> ses_type s = Uploader
           \<and> ses_target_clients s = dests) c"
  have stay: "goal c" by (simp add: goal_def session_appended_def)
  show ?thesis
  proof (cases "get_session c ?name = None \<and> string_to_protocols protocol \<noteq> None")
    case False
    then have "c' = c"
      using create_new_transfer_noop[of c tid protocol E dests files opts w] assms by auto
    then show ?thesis using stay by (simp add: goal_def)
  next
    case True
    then obtain p where p: "get_session c ?name = None" "string_to_protocols protocol = Some p" by auto
    let ?g = "GroupMetadata_new tid ?name (cl_listening_ip c) p opts []"
    obtain ob wb where b: "build_group E c files ?g w = (ob, wb)" by (metis prod.exhaust)
    show ?thesis
    proof (cases "\<exists>g. ob = Ret g \<and> gm_transfers_meta g \<noteq> []")
      case False
      then have "c' = c"
        using assms p b
        by (cases ob) (auto simp: create_new_transfer_def Let_def ers_error_def log_event_def)
      then show ?thesis using stay by (simp add: goal_def)
    next
      case True
      then obtain g where g: "ob = Ret g" "gm_transfers_meta g \<noteq> []" by blast
      obtain oa ca wa where a: "announce_group E ?name g (c, wb) = (oa, (ca, wa))" by (metis prod.exhaust)
      have ca: "ca = c" using keeps_run[OF same_self_announce a] by (simp add: same_self_def)
      obtain os cs ws where s: "create_session E g Uploader ?name (path_append (cl_listening_dir c) tid)
          (cl_listening_ip c) dests (c, wa) = (os, (cs, ws))"
        by (metis prod.exhaust)
      have gs: "goal cs"
        using create_session_appends[OF s] unfolding goal_def session_appended_def by blast
      have "c' = c \<or> c' = cs"
      proof (cases "oa")
        case (Raise e)
        then show ?thesis
          using assms p b g a ca by (simp add: create_new_transfer_def Let_def)
      next
        case oa: (Ret u)
        show ?thesis
        proof (cases os)
          case (Raise e)
          then show ?thesis
            using assms p b g a ca oa s by (simp add: create_new_transfer_def Let_def)
        next
          case (Ret i)
          then have "for_each (invite_client E tid i) dests (cs, ws) = (out, (c', w'))"
            using assms p b g a ca oa s by (simp add: create_new_transfer_def Let_def)
          from keeps_run[OF same_self_invite this] show ?thesis by (simp add: same_self_def)
        qed
      qed
      then show ?thesis using gs stay by (auto simp: goal_def)
    qed
  qed
qed

section \<open>Properties\<close>

definition sample_client :: TransferClient where
  "sample_client = \<lparr>cl_listening_ip = \<lparr>m_ip = ''10.0.0.1'', m_port = 5000\<rparr>, cl_client_id = ''client0'',
     cl_listening_dir = ''/work'', cl_sessions = [], cl_available_files = [], cl_my_conn = [],
     cl_ni = sample_ni\<rparr>"

text \<open>
  C31: creating a transfer, whether it returns or throws, leaves the client as it was or appends
  exactly one session, an uploader named after the client and the transfer with the given target
  clients; a transfer whose session exists already or whose protocol is unknown appends none.
\<close>

theorem create_new_transfer_appends_one_session:
  assumes "create_new_transfer E tid protocol dests files opts (c, w) = (out, (c', w'))"
  shows "(c' = c \<or> (\<exists>s. c' = c\<lparr>cl_sessions := cl_sessions c @ [s]\<rparr>
            \<and> ses_session_id s = generate_session_id c tid [] \<and> ses_type s = Uploader
            \<and> ses_target_clients s = dests))
         \<and> ((\<exists>s\<in>set (cl_sessions c). ses_session_id s = generate_session_id c tid [])
              \<or> string_to_protocols protocol = None \<longrightarrow> c' = c)"
proof -
  have "c' = c" if "get_session c (generate_session_id c tid []) \<noteq> None \<or> string_to_protocols protocol = None"
    using create_new_transfer_noop[OF that, of E dests files opts w] assms by simp
  moreover have "get_session c (generate_session_id c tid []) \<noteq> None \<longleftrightarrow>
      (\<exists>s\<in>set (cl_sessions c). ses_session_id s = generate_session_id c tid [])"
    unfolding get_session_generated index_of_None by simp
  ultimately have "(\<exists>s\<in>set (cl_sessions c). ses_session_id s = generate_session_id c tid [])
      \<or> string_to_protocols protocol = None \<longrightarrow> c' = c"
    by auto
  then show ?thesis
    using create_new_transfer_sessions[OF assms] unfolding session_appended_def by simp
qed

theorem create_new_transfer_appends_one_session_witness:
  "\<exists>out c' w'. create_new_transfer (quiet_env\<lparr>fs_exists := (\<lambda>_ _. Ret True)\<rparr>) ''g1'' ''FTP'' [''client1'']
       [''/data/run1.hdf5''] JNull (sample_client, world_init) = (out, (c', w')) \<and> c' = sample_client"
proof -
  obtain out c' w' where run: "create_new_transfer (quiet_env\<lparr>fs_exists := (\<lambda>_ _. Ret True)\<rparr>) ''g1'' ''FTP'' [''client1'']
       [''/data/run1.hdf5''] JNull (sample_client, world_init) = (out, (c', w'))"
    by (metis prod.exhaust)
  have "string_to_protocols ''FTP'' = None" by code_simp
  then show ?thesis using create_new_transfer_appends_one_session[OF run] run by blast
qed

text \<open>
  The group of a new transfer lists exactly the files that exist, in order, each as a fresh
  waiting transfer from the client's address that carries the group's identifier; nothing stays
  expected and no earlier transfer changes.
\<close>

theorem build_group_lists_existing_files:
  assumes "\<And>t f. f \<in> set files \<Longrightarrow> fs_exists E t f = Ret (ex f)"
    and "\<And>t f. f \<in> set files \<Longrightarrow> ex f \<Longrightarrow> \<exists>n. fs_size E t f = Ret n"
    and "list_all clean_abs files"
  shows "\<exists>g w'. build_group E c files (GroupMetadata_new tid name ip p opts []) w = (Ret g, w')
           \<and> map (\<lambda>r. tm_file_path (w_cells w' r)) (gm_transfers_meta g) = filter ex files
           \<and> distinct (gm_transfers_meta g) \<and> gm_expected_files g = [] \<and> gm_group_id g = tid
           \<and> (\<forall>r\<in>set (gm_transfers_meta g). w_next w \<le> r \<and> tm_src (w_cells w' r) = cl_listening_ip c
                \<and> tm_status (w_cells w' r) = WAITING \<and> tm_group_id (w_cells w' r) = tid)
           \<and> (\<forall>q. q < w_next w \<longrightarrow> w_cells w' q = w_cells w q)"
proof -
  let ?g = "GroupMetadata_new tid name ip p opts []"
  have "gm_expected_files ?g = []" by (simp add: GroupMetadata_new_def)
  then obtain g w' where run: "add_existing_files E c files (?g, w) = (Ret (), (g, w'))"
      "files_added c (filter ex files) ?g w g w'"
    using add_existing_files_run[OF assms, where g = ?g and c = c and w = w] by blast
  then have "build_group E c files ?g w = (Ret g, w')" by (simp add: build_group_def)
  moreover have "gm_transfers_meta g = [w_next w..<w_next w']" "gm_expected_files g = []" "gm_group_id g = tid"
    using run(2) by (simp_all add: files_added_def GroupMetadata_new_def)
  ultimately show ?thesis
    using run(2) by (auto simp: files_added_def GroupMetadata_new_def)
qed

theorem build_group_lists_existing_files_witness:
  "let E = quiet_env\<lparr>fs_exists := (\<lambda>_ f. Ret (f = ''/data/run1.hdf5''))\<rparr> in
   \<exists>g w'. build_group E sample_client [''/data/run0.hdf5'', ''/data/run1.hdf5'']
        (GroupMetadata_new ''g1'' ''client0_sesg1'' default_ip SCP JNull []) world_init = (Ret g, w')
     \<and> map (\<lambda>r. tm_file_path (w_cells w' r)) (gm_transfers_meta g) = [''/data/run1.hdf5'']
     \<and> gm_expected_files g = []"
proof -
  let ?E = "quiet_env\<lparr>fs_exists := (\<lambda>_ f. Ret (f = ''/data/run1.hdf5''))\<rparr>"
  let ?fs = "[''/data/run0.hdf5'', ''/data/run1.hdf5'']"
  have ex: "\<And>t f. f \<in> set ?fs \<Longrightarrow> fs_exists ?E t f = Ret (f = ''/data/run1.hdf5'')" by simp
  have sz: "\<And>t f. f \<in> set ?fs \<Longrightarrow> f = ''/data/run1.hdf5'' \<Longrightarrow> \<exists>n. fs_size ?E t f = Ret n"
    by (simp add: quiet_env_def)
  have cl: "list_all clean_abs ?fs" by code_simp
  have fl: "filter (\<lambda>f. f = ''/data/run1.hdf5'') ?fs = [''/data/run1.hdf5'']" by simp
  have "\<exists>g w'. build_group ?E sample_client ?fs
        (GroupMetadata_new ''g1'' ''client0_sesg1'' default_ip SCP JNull []) world_init = (Ret g, w')
      \<and> map (\<lambda>r. tm_file_path (w_cells w' r)) (gm_transfers_meta g) = filter (\<lambda>f. f = ''/data/run1.hdf5'') ?fs
      \<and> gm_expected_files g = []"
    using build_group_lists_existing_files[of ?fs ?E "\<lambda>f. f = ''/data/run1.hdf5''" sample_client
        "''g1''" "''client0_sesg1''" default_ip SCP JNull world_init] ex sz cl by blast
  then show ?thesis unfolding fl Let_def .
qed

text \<open>
  A notification for another client is refused with a warning; one of an unknown kind is
  reported and then ends in an exception, since the empty result of the lookup is read anyway.
  In both cases neither the client nor any transfer changes.
\<close>

theorem client_unhandled_notifications:
  "(\<not> str_contains (m_target_id d) (cl_client_id c) \<and> m_target_id d \<noteq> ''all'' \<longrightarrow>
      client_action_on_receive fuel E d (c, w) = (Ret False, (c, w\<lparr>w_trace := w_trace w @
        [EvIssue Warn (NotificationWrongDestinationError (cl_client_id c) (m_source_id d) (m_target_id d))]\<rparr>)))
   \<and> ((str_contains (m_target_id d) (cl_client_id c) \<or> m_target_id d = ''all'')
      \<and> string_to_notification (m_notification d) = None \<longrightarrow>
      client_action_on_receive fuel E d (c, w) = (Raise BadOptionalAccess, (c, w\<lparr>w_trace := w_trace w @
        [EvIssue Warn (InvalidNotificationReceivedError (cl_client_id c) (m_source_id d) (m_notification d))]\<rparr>)))"
  using client.foreign[of d c fuel E w] client.unknown[of d c fuel E w] by blast

theorem client_unhandled_notifications_witness:
  "fst (client_action_on_receive 9 quiet_env
      \<lparr>m_source_id = ''bookkeeper0'', m_target_id = ''client0'', m_notification = ''HELLO'', m_data = []\<rparr>
      (sample_client, world_init)) = Raise BadOptionalAccess"
proof -
  let ?d = "\<lparr>m_source_id = ''bookkeeper0'', m_target_id = ''client0'', m_notification = ''HELLO'', m_data = []\<rparr>"
  have "str_contains (m_target_id ?d) (cl_client_id sample_client)" by code_simp
  moreover have "string_to_notification (m_notification ?d) = None" by code_simp
  ultimately show ?thesis
    using client_unhandled_notifications[of ?d sample_client 9 quiet_env world_init] by simp
qed

text \<open>
  Removing a session that exists does not remove that session: named by its full identifier,
  the first session of the client is erased whichever was asked for; named by its transfer
  identifier alone, none is.
\<close>

theorem remove_session_erases_first:
  assumes "get_session c sid = Some i" "remove_session sid (c, w) = (out, (c', w'))"
  shows "cl_sessions c' = (if str_contains sid ''ses'' then tl (cl_sessions c) else cl_sessions c)"
proof -
  let ?wanted = "if \<not> str_contains sid ''ses'' then generate_session_id c sid [] else sid"
  have i: "i < length (cl_sessions c)" "ses_session_id (cl_sessions c ! i) = ?wanted"
    using assms(1) index_of_Some by (fastforce simp: get_session_def Let_def)+
  have len: "length (generate_session_id c sid []) > length sid" by (simp add: generate_session_id_def)
  show ?thesis
  proof (cases "str_contains sid ''ses''")
    case True
    then have "index_of (\<lambda>_. ses_session_id (cl_sessions c ! i) = sid) (cl_sessions c) = Some 0"
      using i by (cases "cl_sessions c") auto
    then show ?thesis
      using assms True by (cases "cl_sessions c") (auto simp: remove_session_def)
  next
    case False
    then have "ses_session_id (cl_sessions c ! i) \<noteq> sid" using i(2) len by auto
    then have "index_of (\<lambda>_. ses_session_id (cl_sessions c ! i) = sid) (cl_sessions c) = None"
      by (simp add: index_of_None)
    then show ?thesis using assms False by (simp add: remove_session_def)
  qed
qed

theorem remove_session_erases_first_witness:
  "let s0 = sample_session; s1 = sample_session\<lparr>ses_session_id := ''client0_sesg2''\<rparr>
   in cl_sessions (fst (snd (remove_session ''client0_sesg2'' (sample_client\<lparr>cl_sessions := [s0, s1]\<rparr>, world_init)))) = [s1]"
proof -
  let ?c = "sample_client\<lparr>cl_sessions := [sample_session, sample_session\<lparr>ses_session_id := ''client0_sesg2''\<rparr>]\<rparr>"
  have ses: "str_contains ''client0_sesg2'' ''ses''" by code_simp
  have "get_session ?c ''client0_sesg2'' = Some 1"
    using ses by (simp add: get_session_def sample_session_def session_blank_def)
  moreover obtain out c' w' where run: "remove_session ''client0_sesg2'' (?c, world_init) = (out, (c', w'))"
    by (metis prod.exhaust)
  ultimately have "cl_sessions c' = [sample_session\<lparr>ses_session_id := ''client0_sesg2''\<rparr>]"
    using remove_session_erases_first[of ?c "''client0_sesg2''"] ses by simp
  then show ?thesis using run by (simp add: Let_def)
qed

text \<open>
  A transfer whose identifier contains the letters \<open>ses\<close> cannot be addressed by it: its
  session exists under the generated name, but starting the transfer reports that no session was
  found and changes nothing.
\<close>

theorem transfer_id_with_ses_not_found:
  assumes "str_contains tid ''ses''" "\<And>s. s \<in> set (cl_sessions c) \<Longrightarrow> ses_session_id s \<noteq> tid"
  shows "start_transfer E tid (c, w) = (Ret (), (c, w\<lparr>w_trace := w_trace w @
           [EvIssue Warn (SessionIDNotFoundInClientError (cl_client_id c) tid)]\<rparr>))"
proof -
  have "get_session c tid = None"
    using assms by (auto simp: get_session_def index_of_None)
  then show ?thesis
    by (simp add: start_transfer_def with_session_def ers_warning_def log_event_def)
qed

theorem transfer_id_with_ses_not_found_witness:
  "fst (start_transfer quiet_env ''session1''
     (sample_client\<lparr>cl_sessions := [sample_session\<lparr>ses_session_id := ''client0_sessession1''\<rparr>]\<rparr>, world_init)) = Ret ()"
proof -
  have ses: "str_contains ''session1'' ''ses''" by code_simp
  show ?thesis
    by (subst transfer_id_with_ses_not_found[OF ses]) (simp_all)
qed

text \<open>
  A transfer metadata file found by the scan is never handed to a session: the expected
  files are absolute paths, and the scan looks for the bare file name among them.
\<close>

theorem scanned_metadata_never_wanted:
  assumes "\<And>s f. s \<in> set (cl_sessions c) \<Longrightarrow> f \<in> set (gm_expected_files (ses_transfer_options s)) \<Longrightarrow> is_absolute f"
  shows "offer_metadata E r (c, w) = (Ret False, (c, w))"
proof -
  have "get_file_name (w_cells w r) \<notin> set (gm_expected_files (ses_transfer_options s))"
    if "s \<in> set (cl_sessions c)" for s
    using assms[OF that] filename_no_slash[of "tm_file_path (w_cells w r)"]
    by (metis get_file_name_def is_absolute_iff list.set_intros(1))
  then have "index_of (\<lambda>s. get_file_name (w_cells w r) \<in> set (gm_expected_files (ses_transfer_options s)))
      (cl_sessions c) = None"
    by (simp add: index_of_None)
  then show ?thesis by (simp add: offer_metadata_def cell_def)
qed

theorem scanned_metadata_never_wanted_witness:
  "offer_metadata quiet_env 0 (sample_client\<lparr>cl_sessions :=
       [sample_session\<lparr>ses_transfer_options := sample_group\<lparr>gm_expected_files := [''/data/run1.hdf5'']\<rparr>\<rparr>]\<rparr>,
     world_init\<lparr>w_cells := (\<lambda>_. sample_tm)\<rparr>)
   = (Ret False, (sample_client\<lparr>cl_sessions :=
       [sample_session\<lparr>ses_transfer_options := sample_group\<lparr>gm_expected_files := [''/data/run1.hdf5'']\<rparr>\<rparr>]\<rparr>,
     world_init\<lparr>w_cells := (\<lambda>_. sample_tm)\<rparr>))"
  by (rule scanned_metadata_never_wanted) (auto simp: is_absolute_iff)

end
