(* ===== verification/Bookkeeper.thy ===== *)
theory Bookkeeper
  imports Transfer_Client
begin

text \<open>
  \<open>include/snbmodules/bookkeeper.hpp\<close> and \<open>src/bookkeeper/bookkeeper.cpp\<close>: the bookkeeper
  keeps, per client or session, the transfers it was told about, per group the group's metadata
  (which shares the transfers), and per group the sessions that take part. What it shows, its
  console and its loops are in \<open>Bookkeeper_Service\<close>.
\<close>

section \<open>State\<close>

record Bookkeeper =
  bk_bookkeeper_id :: string
  bk_ip :: IPFormat
  bk_grp_transfers :: "(string \<times> GroupMetadata) list"
  bk_clients_per_grp_transfer :: "(string \<times> string list) list"
  bk_transfers :: "(string \<times> tm_ref list) list"
  bk_file_log_path :: string
  bk_refresh_rate :: int
  bk_ni :: NotificationInterface

type_synonym bk_world = "Bookkeeper \<times> world"

text \<open>The members as the constructor initialises them.\<close>

definition Bookkeeper_blank :: "IPFormat \<Rightarrow> string \<Rightarrow> string \<Rightarrow> int \<Rightarrow> string \<Rightarrow> int \<Rightarrow> int \<Rightarrow> Bookkeeper" where
  "Bookkeeper_blank listening_ip bookkeeper_id file_log_path refresh_rate connection_prefix timeout_send timeout_receive =
     \<lparr>bk_bookkeeper_id = bookkeeper_id, bk_ip = listening_ip, bk_grp_transfers = [],
      bk_clients_per_grp_transfer = [], bk_transfers = [], bk_file_log_path = file_log_path,
      bk_refresh_rate = refresh_rate,
      bk_ni = NotificationInterface_new connection_prefix timeout_send timeout_receive\<rparr>"

definition get_client_name_from_session_name :: "string \<Rightarrow> string" where
  "get_client_name_from_session_name session_name =
     (case find_sub ''_'' session_name of None \<Rightarrow> session_name | Some p \<Rightarrow> take p session_name)"

definition bk_send ::
  "env \<Rightarrow> e_notification_type \<Rightarrow> string \<Rightarrow> string \<Rightarrow> string \<Rightarrow> int \<Rightarrow> (bk_world, bool) action" where
  "bk_send E notif dst id_conn dat tries =
     bind self (\<lambda>b. on_world (send_notification E (bk_ni b) notif (bk_bookkeeper_id b) dst id_conn dat tries))"

section \<open>Operations\<close>

text \<open>The transfers of a client; \<open>operator[]\<close> creates the entry when it is missing.\<close>

definition transfers_of :: "Bookkeeper \<Rightarrow> string \<Rightarrow> tm_ref list" where
  "transfers_of b client = smap_at [] (bk_transfers b) client"

definition touch_client :: "string \<Rightarrow> Bookkeeper \<Rightarrow> Bookkeeper" where
  "touch_client client b = b\<lparr>bk_transfers := smap_put client (transfers_of b client) (bk_transfers b)\<rparr>"

definition on_grp :: "string \<Rightarrow> GroupMetadata \<Rightarrow> (group_world, 'a) action \<Rightarrow> (bk_world, 'a) action" where
  "on_grp gid g f = (\<lambda>(b, w). case f (g, w) of
     (r, (g', w')) \<Rightarrow> (r, (b\<lparr>bk_grp_transfers := smap_put gid g' (bk_grp_transfers b)\<rparr>, w')))"

definition add_update_transfer :: "env \<Rightarrow> string \<Rightarrow> string \<Rightarrow> (bk_world, unit) action" where
  "add_update_transfer E client_id dat =
     bind (on_world (TransferMetadata_of_string E dat)) (\<lambda>file.
     bind (on_world (reads w_cells)) (\<lambda>cells.
     seq (on_self (touch_client client_id))
     (bind self (\<lambda>b.
       case List.find (\<lambda>tr. tm_eq (cells tr) (cells file)) (transfers_of b client_id) of
         Some tr \<Rightarrow> on_world (tm_from_string E tr dat)
       | None \<Rightarrow>
           seq (let gid = tm_group_id (cells file) in
                case (if gid \<noteq> [] then map_of (bk_grp_transfers b) gid else None) of
                  Some g \<Rightarrow> seq (on_grp gid g (add_file file)) (return ())
                | None \<Rightarrow> return ())
             (on_self (\<lambda>b. b\<lparr>bk_transfers :=
                smap_put client_id (transfers_of b client_id @ [file]) (bk_transfers b)\<rparr>))))))"

definition add_update_grp_transfer :: "GroupMetadata \<Rightarrow> Bookkeeper \<Rightarrow> Bookkeeper" where
  "add_update_grp_transfer g b =
     (let gid = gm_group_id g in
      case map_of (bk_grp_transfers b) gid of
        Some old \<Rightarrow>
          b\<lparr>bk_grp_transfers := smap_put gid
              (set_expected_files (gm_expected_files old) (set_transfers_meta (gm_transfers_meta old) g))
              (smap_del gid (bk_grp_transfers b))\<rparr>
      | None \<Rightarrow> b\<lparr>bk_grp_transfers := smap_put gid g (bk_grp_transfers b)\<rparr>)"

definition sessions_of :: "Bookkeeper \<Rightarrow> string \<Rightarrow> string list" where
  "sessions_of b gid = smap_at [] (bk_clients_per_grp_transfer b) gid"

definition request_connection_and_available_files :: "env \<Rightarrow> string \<Rightarrow> (bk_world, unit) action" where
  "request_connection_and_available_files E client =
     bind self (\<lambda>b. seq (bk_send E CONNECTION_REQUEST client client (bk_bookkeeper_id b) 1) (return ()))"

definition is_dynamic :: "e_status \<Rightarrow> bool" where
  "is_dynamic st \<longleftrightarrow> st = DOWNLOADING \<or> st = CHECKING \<or> st = UPLOADING \<or> st = HASHING"

definition request_update_metadata :: "env \<Rightarrow> bool \<Rightarrow> (bk_world, unit) action" where
  "request_update_metadata E force =
     bind self (\<lambda>b. for_each (\<lambda>(_, g).
       bind (on_world (reads w_cells)) (\<lambda>cells.
         if is_dynamic (get_group_status cells g) \<or> force then
           seq (on_self (\<lambda>b. b\<lparr>bk_clients_per_grp_transfer :=
                  smap_put (gm_group_id g) (sessions_of b (gm_group_id g)) (bk_clients_per_grp_transfer b)\<rparr>))
             (for_each (\<lambda>session.
                seq (bk_send E UPDATE_REQUEST session (get_client_name_from_session_name session) [] (- 1))
                  (return ())) (sessions_of b (gm_group_id g)))
         else return ())) (bk_grp_transfers b))"

definition start_transfers :: "env \<Rightarrow> string \<Rightarrow> (bk_world, unit) action" where
  "start_transfers E transfer_id =
     bind self (\<lambda>b.
       case map_of (bk_clients_per_grp_transfer b) transfer_id of
         Some clients \<Rightarrow>
           for_each (\<lambda>client.
             seq (bk_send E START_TRANSFER (client @ ''_ses'' @ transfer_id) client [] (- 1)) (return ())) clients
       | None \<Rightarrow> on_world (ers_warning (InvalidGroupTransferIDError transfer_id (bk_bookkeeper_id b))))"

section \<open>Notifications\<close>

definition receive_group_metadata :: "env \<Rightarrow> NotificationData \<Rightarrow> (bk_world, unit) action" where
  "receive_group_metadata E notif =
     bind (on_world (GroupMetadata_of_string E (uninit_protocol E) (m_data notif))) (\<lambda>g.
     seq (on_self (\<lambda>b. b\<lparr>bk_clients_per_grp_transfer :=
            smap_put (gm_group_id g) (sset_insert (m_source_id notif) (sessions_of b (gm_group_id g)))
              (bk_clients_per_grp_transfer b)\<rparr>))
       (on_self (add_update_grp_transfer g)))"

definition bk_handle_notification :: "env \<Rightarrow> e_notification_type \<Rightarrow> NotificationData \<Rightarrow> (bk_world, unit) action" where
  "bk_handle_notification E act notif =
     (case act of
        TRANSFER_METADATA \<Rightarrow>
          if m_data notif = ''end'' then on_self (touch_client (m_source_id notif))
          else add_update_transfer E (m_source_id notif) (m_data notif)
      | TRANSFER_ERROR \<Rightarrow> receive_group_metadata E notif
      | GROUP_METADATA \<Rightarrow> receive_group_metadata E notif
      | _ \<Rightarrow> bind self (\<lambda>b. on_world (ers_warning
               (NotHandledNotificationError (bk_bookkeeper_id b) (m_source_id notif) (m_notification notif)))))"

definition bk_action_on_receive :: "env \<Rightarrow> NotificationData \<Rightarrow> (bk_world, bool) action" where
  "bk_action_on_receive E notif =
     bind self (\<lambda>b.
       if \<not> str_contains (m_target_id notif) (bk_bookkeeper_id b) \<and> m_target_id notif \<noteq> ''all'' then
         seq (on_world (ers_warning
                (NotificationWrongDestinationError (bk_bookkeeper_id b) (m_source_id notif) (m_target_id notif))))
           (return False)
       else
         (case string_to_notification (m_notification notif) of
            None \<Rightarrow> seq (on_world (ers_warning
                       (InvalidNotificationReceivedError (bk_bookkeeper_id b) (m_source_id notif) (m_notification notif))))
                     (throw BadOptionalAccess)
          | Some act \<Rightarrow> seq (bk_handle_notification E act notif) (return True)))"

section \<open>The endpoint contract\<close>

interpretation bookkeeper: notification_endpoint "bk_action_on_receive E" bk_bookkeeper_id
  by unfold_locales (auto simp: bk_action_on_receive_def ers_warning_def log_event_def)

section \<open>Lemmas\<close>

lemma find_underscore:
  "CHR ''_'' \<notin> set s \<Longrightarrow> find_sub ''_'' (s @ CHR ''_'' # t) = Some (length s)"
  by (induction s) auto

lemma transfers_of_touch [simp]: "transfers_of (touch_client c b) c' = transfers_of b c'"
  by (simp add: transfers_of_def touch_client_def smap_at_def)

lemma tm_eq_data: "tm_data a = tm_data b \<Longrightarrow> tm_eq m a \<longleftrightarrow> tm_eq m b"
  by (cases a; cases b) (simp add: tm_data_def tm_eq_def)

text \<open>A message about a transfer: the entry it finds is updated in place, or one is appended.\<close>

lemma add_update_transfer_known:
  assumes "TransferMetadata_of_string E dat w = (Ret file, w1)"
    and "List.find (\<lambda>tr. tm_eq (w_cells w1 tr) (w_cells w1 file)) (transfers_of b client) = Some q"
  shows "add_update_transfer E client dat (b, w) = on_world (tm_from_string E q dat) (touch_client client b, w1)"
  using assms by (simp add: add_update_transfer_def)

lemma quiet_request_update:
  assumes "\<And>gid g. (gid, g) \<in> set gs \<Longrightarrow> \<not> is_dynamic (get_group_status (w_cells w) g)"
  shows "for_each (\<lambda>(_, g). bind (on_world (reads w_cells)) (\<lambda>cells.
           if is_dynamic (get_group_status cells g) then f g else return ())) gs (b, w) = (Ret (), (b, w))"
  using assms
proof (induction gs)
  case (Cons p gs)
  obtain gid g where p: "p = (gid, g)" by (cases p)
  have "\<not> is_dynamic (get_group_status (w_cells w) g)" using Cons.prems[of gid g] p by simp
  moreover note ih = Cons.IH[OF Cons.prems[OF list.set_intros(2)]]
  ultimately show ?case unfolding p for_each.simps by (simp add: ih del: for_each.simps)
qed simp

section \<open>Properties\<close>

text \<open>
  The client name the bookkeeper extracts from a session name, to choose the connection for
  an update request, is the client's identifier for every identifier without an underscore; with
  one, it is only the part before the first underscore.
\<close>

theorem client_name_of_session_name:
  "get_client_name_from_session_name (generate_session_id c tid []) =
     takeWhile (\<lambda>x. x \<noteq> CHR ''_'') (cl_client_id c)"
proof -
  let ?n = "takeWhile (\<lambda>x. x \<noteq> CHR ''_'') (cl_client_id c)"
  have "\<exists>t. generate_session_id c tid [] = ?n @ CHR ''_'' # t"
  proof (cases "CHR ''_'' \<in> set (cl_client_id c)")
    case True
    then have "dropWhile (\<lambda>x. x \<noteq> CHR ''_'') (cl_client_id c) \<noteq> []" by (simp add: dropWhile_eq_Nil_conv)
    then obtain x t where xt: "dropWhile (\<lambda>x. x \<noteq> CHR ''_'') (cl_client_id c) = x # t" by (meson neq_Nil_conv)
    then have "cl_client_id c = ?n @ CHR ''_'' # t"
      unfolding dropWhile_eq_Cons_conv by blast
    then have "generate_session_id c tid [] = ?n @ CHR ''_'' # t @ ''_ses'' @ tid"
      unfolding generate_session_id_def by simp
    then show ?thesis by blast
  next
    case False
    then show ?thesis by (simp add: generate_session_id_def takeWhile_neq_id)
  qed
  then obtain t where t: "generate_session_id c tid [] = ?n @ CHR ''_'' # t" by blast
  have "CHR ''_'' \<notin> set ?n" by (auto dest: set_takeWhileD)
  then show ?thesis using find_underscore[of ?n t] by (simp add: get_client_name_from_session_name_def t)
qed

text \<open>
  C35: a group that arrives again replaces its old description but keeps the transfers and the
  expected files the bookkeeper knows; a new group is stored as it came; every other group is
  unchanged and the table stays sorted without duplicates.
\<close>

theorem group_update_keeps_transfers:
  assumes "smap_inv (bk_grp_transfers b)"
  shows "let b' = add_update_grp_transfer g b; stored = map_of (bk_grp_transfers b') (gm_group_id g);
             old = map_of (bk_grp_transfers b) (gm_group_id g)
         in stored = Some (case old of None \<Rightarrow> g
              | Some h \<Rightarrow> g\<lparr>gm_transfers_meta := gm_transfers_meta h, gm_expected_files := gm_expected_files h\<rparr>)
            \<and> (\<forall>gid. gid \<noteq> gm_group_id g \<longrightarrow> map_of (bk_grp_transfers b') gid = map_of (bk_grp_transfers b) gid)
            \<and> smap_inv (bk_grp_transfers b')"
  using assms
  by (auto simp: add_update_grp_transfer_def Let_def set_expected_files_def set_transfers_meta_def
      smap.replace_inv smap.inv_put split: option.splits)

definition sample_bookkeeper :: Bookkeeper where
  "sample_bookkeeper = (Bookkeeper_blank default_ip ''bookkeeper0'' [] 5 ''snbmodules'' 10 100)
     \<lparr>bk_grp_transfers := [(''g1'', sample_group)], bk_transfers := [(''client0_sesg1'', [0])],
      bk_clients_per_grp_transfer := [(''g1'', [''client0_sesg1''])]\<rparr>"

theorem group_update_keeps_transfers_witness:
  "map_of (bk_grp_transfers (add_update_grp_transfer (sample_group\<lparr>gm_transfers_meta := [], gm_protocol := RCLONE\<rparr>)
      sample_bookkeeper)) ''g1'' = Some (sample_group\<lparr>gm_protocol := RCLONE\<rparr>)"
proof -
  have "smap_inv (bk_grp_transfers sample_bookkeeper)" by (simp add: sample_bookkeeper_def smap_inv_def)
  from group_update_keeps_transfers[OF this, of "sample_group\<lparr>gm_transfers_meta := [], gm_protocol := RCLONE\<rparr>"]
  show ?thesis by (simp add: Let_def sample_bookkeeper_def sample_group_def GroupMetadata_new_def)
qed

text \<open>
  C36: when the complete metadata of a well-formed transfer arrives that the bookkeeper already
  lists for that sender, the listed object itself takes over the received data, so every group
  that shares it shows the new state; no entry is added, no group changes and no other object the
  bookkeeper may hold changes.
\<close>

theorem known_transfer_updated_in_place:
  assumes "tm_wf m" "json_text_ok E (jobject (export_fields True m))"
    and "q < w_next w" "List.find (\<lambda>tr. tm_eq (w_cells w tr) m) (transfers_of b client) = Some q"
    and "\<And>tr. tr \<in> set (transfers_of b client) \<Longrightarrow> tr < w_next w"
  shows "\<exists>w'. add_update_transfer E client (json_dump E (jobject (export_fields True m))) (b, w)
             = (Ret (), (touch_client client b, w'))
           \<and> tm_data (w_cells w' q) = tm_data m
           \<and> (\<forall>r. r < w_next w \<longrightarrow> r \<noteq> q \<longrightarrow> w_cells w' r = w_cells w r)"
proof -
  let ?dat = "json_dump E (jobject (export_fields True m))"
  obtain w1 where w1: "TransferMetadata_of_string E ?dat w = (Ret (w_next w), w1)"
      "tm_data (w_cells w1 (w_next w)) = tm_data m" "\<And>r. r \<noteq> w_next w \<Longrightarrow> w_cells w1 r = w_cells w r"
    using text_builds_object[OF assms(1,2), of w] by blast
  have "tm_eq (w_cells w1 tr) (w_cells w1 (w_next w)) \<longleftrightarrow> tm_eq (w_cells w tr) m"
    if "tr \<in> set (transfers_of b client)" for tr
    using tm_eq_data[OF w1(2)] w1(3)[of tr] assms(5)[OF that] by simp
  then have "List.find (\<lambda>tr. tm_eq (w_cells w1 tr) (w_cells w1 (w_next w))) (transfers_of b client) = Some q"
    using assms(4) find_cong[OF refl] by (metis (no_types, lifting))
  note run = add_update_transfer_known[OF w1(1) this]
  have "tm_eq (w_cells w q) m" using assms(4) by (auto simp: find_Some_iff)
  then have "tm_src m \<noteq> tm_dest (w_cells w1 q)"
    using assms(1,3) w1(3)[of q] by (auto simp: tm_eq_def tm_wf_def)
  then obtain w2 where w2: "tm_load_json E q (jobject (export_fields True m)) w1 = (Ret (), w2)"
      "w_cells w2 = (w_cells w1)(q := w_cells w2 q)" "tm_data (w_cells w2 q) = tm_data m"
    using load_full_export[OF assms(1), of w1 q E] by blast
  have "tm_from_string E q ?dat w1 = (Ret (), w2)"
    using w2(1) parse_dump[OF assms(2)] by (simp add: tm_from_string_def)
  moreover have "w_cells w2 r = w_cells w r" if "r < w_next w" "r \<noteq> q" for r
    using fun_cong[OF w2(2), of r] w1(3)[of r] that by simp
  ultimately show ?thesis using run w2(3) by auto
qed

theorem known_transfer_updated_in_place_witness:
  "let j = jobject (export_fields True sample_tm); E = json_env ''txt'' j
   in \<exists>w'. add_update_transfer E ''client0_sesg1'' (json_dump E j)
        (sample_bookkeeper, world_init\<lparr>w_cells := (\<lambda>_. sample_tm\<lparr>tm_status := WAITING\<rparr>), w_next := 1\<rparr>)
        = (Ret (), (touch_client ''client0_sesg1'' sample_bookkeeper, w'))
      \<and> tm_data (w_cells w' 0) = tm_data sample_tm"
proof -
  let ?j = "jobject (export_fields True sample_tm)" and ?b = sample_bookkeeper
  let ?w = "world_init\<lparr>w_cells := (\<lambda>_. sample_tm\<lparr>tm_status := WAITING\<rparr>), w_next := 1\<rparr>"
  have j: "json_text_ok (json_env ''txt'' ?j) ?j" by (simp add: json_text_ok_def json_env_def)
  have tr: "transfers_of ?b ''client0_sesg1'' = [0]"
    by (simp add: transfers_of_def sample_bookkeeper_def smap_at_def)
  have eq: "tm_eq (sample_tm\<lparr>tm_status := WAITING\<rparr>) sample_tm" by (simp add: tm_eq_def)
  show ?thesis
    using known_transfer_updated_in_place[OF sample_tm_wf j, of 0 ?w ?b "''client0_sesg1''"] tr eq
    by (auto simp: Let_def)
qed

text \<open>
  While no group has a transfer that is downloading, checking, uploading or hashing as its
  highest status, the periodic update request sends nothing and changes nothing.
\<close>

theorem no_update_request_for_static_groups:
  assumes "\<And>gid g. (gid, g) \<in> set (bk_grp_transfers b) \<Longrightarrow>
             get_group_status (w_cells w) g \<notin> {DOWNLOADING, CHECKING, UPLOADING, HASHING}"
  shows "request_update_metadata E False (b, w) = (Ret (), (b, w))"
proof -
  have "\<not> is_dynamic (get_group_status (w_cells w) g)" if "(gid, g) \<in> set (bk_grp_transfers b)" for gid g
    using assms[OF that] by (auto simp: is_dynamic_def)
  then show ?thesis
    using quiet_request_update[of "bk_grp_transfers b" w] by (simp add: request_update_metadata_def)
qed

theorem no_update_request_for_static_groups_witness:
  "request_update_metadata quiet_env False (sample_bookkeeper, world_init\<lparr>w_cells := (\<lambda>_. sample_tm)\<rparr>)
     = (Ret (), (sample_bookkeeper, world_init\<lparr>w_cells := (\<lambda>_. sample_tm)\<rparr>))"
proof (rule no_update_request_for_static_groups)
  fix gid g
  assume "(gid, g) \<in> set (bk_grp_transfers sample_bookkeeper)"
  then have g: "g = sample_group" by (simp add: sample_bookkeeper_def)
  have "get_group_status (\<lambda>_. sample_tm) sample_group = PAUSED" by code_simp
  then show "get_group_status (w_cells (world_init\<lparr>w_cells := (\<lambda>_. sample_tm)\<rparr>)) g
      \<notin> {DOWNLOADING, CHECKING, UPLOADING, HASHING}"
    using g by simp
qed

end
