(* ===== verification/Bookkeeper_Service.thy ===== *)
theory Bookkeeper_Service
  imports Bookkeeper "HOL-Library.Signed_Division"
begin

text \<open>
  \<open>src/bookkeeper/bookkeeper.cpp\<close>: what the bookkeeper shows of its tables, on the standard output
  or in a text file and a CSV file, its console for stand-alone use, and the rounds of its two
  service loops. The local time, the console input and the size of the CSV file are parameters.
  Output streams report no errors, so a write is an event. The prompts of the console, which go
  to the debug log, are left out.
\<close>

section \<open>The display\<close>

text \<open>
  \<open>csv_position\<close> is \<open>tellp\<close> on a file opened for appending. \<open>con_int\<close>, \<open>con_token\<close> and \<open>con_line\<close> are what
  a read from \<open>std::cin\<close> leaves in an integer that holds -1 and in an empty string; at the end of
  the input the string stays empty.
\<close>

record console_env =
  local_time :: "int \<Rightarrow> string"
  csv_position :: "trace \<Rightarrow> string \<Rightarrow> int"
  con_int :: "trace \<Rightarrow> int"
  con_token :: "trace \<Rightarrow> string"
  con_line :: "trace \<Rightarrow> string"

definition time_str :: "console_env \<Rightarrow> i64 \<Rightarrow> string" where
  "time_str K t = (if t = 0 then ''N/A'' else local_time K (sint t sdiv 1000))"

text \<open>\<open>operator<<\<close> of a path puts it in quotes and escapes quotes and backslashes.\<close>

definition path_quoted :: "string \<Rightarrow> string" where
  "path_quoted p =
     CHR 0x22 # concat (map (\<lambda>c. if c = CHR 0x22 \<or> c = CHR 0x5C then [CHR 0x5C, c] else [c]) p) @ [CHR 0x22]"

text \<open>\<open>get_total_duration_ms\<close> reads the clock only for a transfer that has started and not ended.\<close>

definition shown_duration :: "env \<Rightarrow> TransferMetadata \<Rightarrow> (world, i64) action" where
  "shown_duration E m =
     (if tm_start_time m \<noteq> 0 \<and> tm_end_time m = 0
      then bind (now_ms E) (\<lambda>t. return (get_total_duration_ms t m))
      else return (get_total_duration_ms 0 m))"

definition csv_line :: "string list \<Rightarrow> string" where
  "csv_line cols = concat (map (\<lambda>f. f @ '';'') cols) @ newline"

definition csv_header :: "string list" where
  "csv_header = [''time'', ''file_name'', ''file_full_path'', ''group_id'', ''src_ip'', ''size'', ''dest_ip'',
     ''start_time'', ''duration'', ''progress'', ''speed'', ''state'', ''end_time'', ''error'']"

definition csv_fields :: "console_env \<Rightarrow> int \<Rightarrow> i64 \<Rightarrow> TransferMetadata \<Rightarrow> string list" where
  "csv_fields K now duration m =
     [to_string now, get_file_name m, path_quoted (tm_file_path m), tm_group_id m, get_ip_port (tm_src m),
      to_string (uint (tm_bytes_size m)), get_ip_port (tm_dest m), time_str K (tm_start_time m),
      to_string (sint duration), to_string (get_progress m), to_string (sint (tm_transmission_speed m)),
      status_to_string (tm_status m), time_str K (tm_end_time m), tm_error_code m]"

definition tab :: string where
  "tab = [CHR 0x09]"

definition session_line :: "console_env \<Rightarrow> i64 \<Rightarrow> TransferMetadata \<Rightarrow> string" where
  "session_line K duration m =
     tab @ tab @ '' - '' @ get_file_name m @ tab @ to_string (uint (tm_bytes_size m)) @ '' bytes'' @ tab @ ''from ''
     @ get_ip_port (tm_src m) @ tab @ status_to_string (tm_status m) @ tab @ to_string (get_progress m) @ ''%'' @ tab
     @ (if tm_transmission_speed m = 0 then ''-'' else to_string (sint (tm_transmission_speed m))) @ ''Bi/s'' @ tab
     @ time_str K (tm_start_time m) @ tab @ to_string (sint duration) @ ''ms'' @ tab
     @ time_str K (tm_end_time m) @ tab @ tm_error_code m @ tab @ newline"

definition available_line :: "TransferMetadata \<Rightarrow> string" where
  "available_line m =
     tab @ '' - Available file '' @ path_quoted (tm_file_path m) @ tab @ to_string (uint (tm_bytes_size m)) @ '' bytes''
     @ tab @ ''from '' @ get_ip_port (tm_src m) @ tab @ newline"

text \<open>The text shown for a file and, when there are log files, its CSV row.\<close>

definition display_file :: "env \<Rightarrow> console_env \<Rightarrow> bool \<Rightarrow> bool \<Rightarrow> tm_ref \<Rightarrow> (world, string \<times> string) action" where
  "display_file E K logged is_session r =
     bind (cell r) (\<lambda>m.
     bind (if logged
           then bind (now_ms E) (\<lambda>t. bind (shown_duration E m) (\<lambda>d.
                  return (csv_line (csv_fields K (sint t sdiv 1000) d m))))
           else return []) (\<lambda>row.
     bind (if is_session then bind (shown_duration E m) (\<lambda>d. return (session_line K d m))
           else return (available_line m)) (\<lambda>line.
     return (line, row))))"

fun gather :: "('a \<Rightarrow> (world, string \<times> string) action) \<Rightarrow> 'a list \<Rightarrow> (world, string \<times> string) action" where
  "gather f [] = return ([], [])"
| "gather f (x # xs) = bind (f x) (\<lambda>(t, c). bind (gather f xs) (\<lambda>(t', c'). return (t @ t', c @ c')))"

definition display_client :: "env \<Rightarrow> console_env \<Rightarrow> bool \<Rightarrow> string \<times> tm_ref list \<Rightarrow> (world, string \<times> string) action" where
  "display_client E K logged = (\<lambda>(client, files).
     let is_session = str_contains client ''ses'';
         head = (if is_session then tab @ ''* Session '' @ client @ '' is active'' @ newline
                 else ''> Client '' @ client @ '' is connected'' @ newline)
     in bind (gather (display_file E K logged is_session) files) (\<lambda>(t, c). return (head @ t, c)))"

definition group_text :: "(tm_ref \<Rightarrow> TransferMetadata) \<Rightarrow> GroupMetadata \<Rightarrow> string" where
  "group_text cells g =
     gm_group_id g @ tab @ protocols_to_string (gm_protocol g) @ tab @ gm_source_id g @ tab
     @ get_ip_port (gm_source_ip g) @ tab @ status_to_string (get_group_status cells g) @ tab @ newline
     @ concat (map (\<lambda>r. tab @ ''- '' @ get_file_name (cells r) @ tab @ get_ip_port (tm_src (cells r)) @ '' to ''
         @ get_ip_port (tm_dest (cells r)) @ tab @ status_to_string (tm_status (cells r)) @ tab @ newline)
         (gm_transfers_meta g))
     @ concat (map (\<lambda>f. tab @ ''- '' @ f @ tab @ ''Expected'' @ newline) (gm_expected_files g))"

definition display_title :: "Bookkeeper \<Rightarrow> string" where
  "display_title b =
     ''***** Bookkeeper '' @ bk_bookkeeper_id b @ '' '' @ get_ip_port (bk_ip b) @ '' informations display *****'' @ newline
     @ ''Connected clients :'' @ newline"

definition display_groups :: "(tm_ref \<Rightarrow> TransferMetadata) \<Rightarrow> Bookkeeper \<Rightarrow> string" where
  "display_groups cells b =
     newline @ ''Active Transfers :'' @ newline
     @ ''Group ID'' @ tab @ ''Protocol'' @ tab @ ''Src'' @ tab @ ''IP'' @ tab @ ''Status'' @ tab @ newline
     @ concat (map (\<lambda>(gid, g). group_text cells g) (bk_grp_transfers b))"

definition log_file :: "Bookkeeper \<Rightarrow> string" where
  "log_file b = bk_file_log_path b @ bk_bookkeeper_id b @ ''.log''"

definition csv_file :: "Bookkeeper \<Rightarrow> string" where
  "csv_file b = bk_file_log_path b @ bk_bookkeeper_id b @ ''_line.csv''"

text \<open>The header of the CSV file is written when the file is empty.\<close>

definition csv_start :: "console_env \<Rightarrow> string \<Rightarrow> (world, string) action" where
  "csv_start K file =
     bind (ask (\<lambda>t. csv_position K t file) (\<lambda>_. EvFile ''tellp'' file)) (\<lambda>pos.
     return (if pos = 0 then csv_line csv_header else []))"

definition display_information :: "env \<Rightarrow> console_env \<Rightarrow> (bk_world, unit) action" where
  "display_information E K =
     bind self (\<lambda>b.
       let logged = bk_file_log_path b \<noteq> [] in
       bind (on_world (if logged then csv_start K (csv_file b) else return [])) (\<lambda>header.
       bind (on_world (gather (display_client E K logged) (bk_transfers b))) (\<lambda>(clients, rows).
       bind (on_world (reads w_cells)) (\<lambda>cells.
       let txt = display_title b @ clients @ display_groups cells b in
       if logged
       then seq (on_world (log_event (EvWrite (log_file b) txt)))
              (on_world (log_event (EvWrite (csv_file b) (header @ rows))))
       else on_world (log_event (EvWrite ''std::cout'' txt))))))"

definition Bookkeeper_new ::
  "env \<Rightarrow> console_env \<Rightarrow> IPFormat \<Rightarrow> string \<Rightarrow> string \<Rightarrow> int \<Rightarrow> string \<Rightarrow> int \<Rightarrow> int \<Rightarrow> (world, Bookkeeper) action" where
  "Bookkeeper_new E K listening_ip bookkeeper_id file_log_path refresh_rate connection_prefix timeout_send timeout_receive w =
     (case display_information E K (Bookkeeper_blank listening_ip bookkeeper_id file_log_path refresh_rate
             connection_prefix timeout_send timeout_receive, w) of
        (Ret _, (b, w')) \<Rightarrow> (Ret b, w')
      | (Raise e, (b, w')) \<Rightarrow> (Raise e, w'))"

section \<open>The console\<close>

definition read_con :: "(trace \<Rightarrow> 'a) \<Rightarrow> ('a \<Rightarrow> string) \<Rightarrow> bk_world \<Rightarrow> 'a \<times> bk_world" where
  "read_con f shown = (\<lambda>(b, w). let x = f (w_trace w) in (x, (b, w\<lparr>w_trace := w_trace w @ [EvFile ''std::cin'' (shown x)]\<rparr>)))"

text \<open>
  Words are read into a set until \<open>q\<close> or a word that is not valid. Reading forever is \<open>None\<close>.
\<close>

partial_function (option) choose_words :: "console_env \<Rightarrow> (string \<Rightarrow> bool) \<Rightarrow> string list \<Rightarrow> bk_world \<Rightarrow> (string list \<times> bk_world) option" where
  "choose_words K valid chosen s =
     (let (word, s1) = read_con (con_token K) id s in
      if word = ''q'' \<or> \<not> valid word then Some (chosen, s1)
      else choose_words K valid (sset_insert word chosen) s1)"

text \<open>The search for a file in the lists of the chosen clients; \<open>at\<close> throws for a client without list.\<close>

fun find_file :: "(tm_ref \<Rightarrow> TransferMetadata) \<Rightarrow> Bookkeeper \<Rightarrow> string \<Rightarrow> string list \<Rightarrow> exn + tm_ref option" where
  "find_file cells b file [] = Inr None"
| "find_file cells b file (client # clients) =
     (case map_of (bk_transfers b) client of
        None \<Rightarrow> Inl (OutOfRange ''map::at'')
      | Some refs \<Rightarrow>
          (case List.find (\<lambda>r. get_file_name (cells r) = file) refs of
             Some r \<Rightarrow> Inr (Some r)
           | None \<Rightarrow> find_file cells b file clients))"

partial_function (option) choose_files :: "console_env \<Rightarrow> string list \<Rightarrow> tm_ref list \<Rightarrow> bk_world \<Rightarrow> (tm_ref list outcome \<times> bk_world) option" where
  "choose_files K clients files s =
     (let (word, s1) = read_con (con_token K) id s in
      if word = ''q'' then Some (Ret files, s1)
      else (case find_file (w_cells (snd s1)) (fst s1) word clients of
          Inl e \<Rightarrow> Some (Raise e, s1)
        | Inr found \<Rightarrow>
            (let files' = (case found of None \<Rightarrow> files | Some r \<Rightarrow> List.insert r files) in
             if length files' = length files then Some (Ret files, s1)
             else choose_files K clients files' s1)))"

definition protocol_index :: "e_protocol_type \<Rightarrow> int" where
  "protocol_index p = (case p of BITTORRENT \<Rightarrow> 0 | RCLONE \<Rightarrow> 1 | SCP \<Rightarrow> 2 | dummy \<Rightarrow> 3)"

text \<open>The dialogue for a new transfer: what it collects is not used, the call at its end is commented out.\<close>

definition console_new :: "console_env \<Rightarrow> bk_world \<Rightarrow> (unit outcome \<times> bk_world) option" where
  "console_new K s =
     (let (protocol, s1) = read_con (con_int K) to_string s in
      if protocol < 0 \<or> protocol > protocol_index dummy then Some (Ret (), s1)
      else (case choose_words K (\<lambda>c. c \<in> set (ni_clients_conn (bk_ni (fst s1)))) [] s1 of
          None \<Rightarrow> None
        | Some (clients, s2) \<Rightarrow>
            if length clients < 2 then Some (Ret (), s2)
            else (case choose_files K clients [] s2 of
                None \<Rightarrow> None
              | Some (Raise e, s3) \<Rightarrow> Some (Raise e, s3)
              | Some (Ret files, s3) \<Rightarrow> Some (Ret (), s3))))"

definition console_start :: "env \<Rightarrow> console_env \<Rightarrow> bk_world \<Rightarrow> (unit outcome \<times> bk_world) option" where
  "console_start E K s =
     (case choose_words K (\<lambda>t. map_of (bk_clients_per_grp_transfer (fst s)) t \<noteq> None) [] s of
        None \<Rightarrow> None
      | Some (transfers, s1) \<Rightarrow> Some (for_each (start_transfers E) transfers s1))"

definition input_action :: "env \<Rightarrow> console_env \<Rightarrow> char \<Rightarrow> bk_world \<Rightarrow> (unit outcome \<times> bk_world) option" where
  "input_action E K c s =
     (if c = CHR ''q'' then Some (Raise (ProgramExit 0), s)
      else if c = CHR ''d'' then Some (display_information E K s)
      else if c = CHR ''n'' then console_new K s
      else if c = CHR ''s'' then console_start E K s
      else Some (Ret (), s))"

section \<open>The service loops\<close>

definition on_bk_ni :: "(NotificationInterface \<times> world, 'a) action \<Rightarrow> (bk_world, 'a) action" where
  "on_bk_ni f = (\<lambda>(b, w). case f (bk_ni b, w) of (r, (n, w')) \<Rightarrow> (r, (b\<lparr>bk_ni := n\<rparr>, w')))"

text \<open>\<open>get_bookkeepers_conn().front()\<close>, undefined while no connection is known.\<close>

definition front_conn :: "(bk_world, string) action" where
  "front_conn =
     bind self (\<lambda>b. case ni_bookkeepers_conn (bk_ni b) of
       [] \<Rightarrow> throw (UndefinedBehaviour ''front()'') | c # _ \<Rightarrow> return c)"

definition elapsed_seconds :: "i64 \<Rightarrow> i64 \<Rightarrow> int" where
  "elapsed_seconds now since = sint (now - since) sdiv 1000"

text \<open>Before both loops: one request to every known client.\<close>

definition bk_greet :: "env \<Rightarrow> (bk_world, unit) action" where
  "bk_greet E = bind self (\<lambda>b. for_each (request_connection_and_available_files E) (ni_clients_conn (bk_ni b)))"

definition bk_listen :: "env \<Rightarrow> (bk_world, unit) action" where
  "bk_listen E =
     bind front_conn (\<lambda>conn.
     bind self (\<lambda>b.
     bind (on_world (listen_for_notification E (bk_ni b) conn [] (- 1) (- 1))) (\<lambda>msg.
       case msg of None \<Rightarrow> return () | Some d \<Rightarrow> seq (bk_action_on_receive E d) (return ()))))"

text \<open>The periodic update and display: it returns the time of the last one.\<close>

definition bk_refresh :: "env \<Rightarrow> console_env \<Rightarrow> int \<Rightarrow> i64 \<Rightarrow> (bk_world, i64) action" where
  "bk_refresh E K rate time_point =
     bind (on_world (now_ms E)) (\<lambda>now.
       if rate \<le> elapsed_seconds now time_point then
         bind (on_world (now_ms E)) (\<lambda>time_point'.
         seq (request_update_metadata E False)
         (seq (display_information E K) (return time_point')))
       else return time_point)"

definition bk_work_round :: "env \<Rightarrow> console_env \<Rightarrow> i64 \<Rightarrow> (bk_world, i64) action" where
  "bk_work_round E K time_point =
     seq (on_bk_ni (lookups_connections E))
     (seq (bk_listen E)
     (seq (on_world (sleep_ms 100))
     (bind self (\<lambda>b. bk_refresh E K (bk_refresh_rate b) time_point))))"

definition ask_new_clients :: "env \<Rightarrow> (bk_world, unit) action" where
  "ask_new_clients E =
     bind self (\<lambda>b. for_each (\<lambda>client.
       bind self (\<lambda>b. if map_of (bk_transfers b) client \<noteq> None then return ()
         else request_connection_and_available_files E client)) (ni_clients_conn (bk_ni b)))"

definition bk_start_round :: "env \<Rightarrow> console_env \<Rightarrow> i64 \<Rightarrow> bk_world \<Rightarrow> (i64 outcome \<times> bk_world) option" where
  "bk_start_round E K time_point s =
     (case bk_listen E s of
        (Raise e, s1) \<Rightarrow> Some (Raise e, s1)
      | (Ret _, s1) \<Rightarrow>
          (let (input, s2) = read_con (con_line K) id s1 in
           case (if input = [] then Some (Ret (), s2) else input_action E K (hd input) s2) of
             None \<Rightarrow> None
           | Some (Raise e, s3) \<Rightarrow> Some (Raise e, s3)
           | Some (Ret _, s3) \<Rightarrow>
               Some (seq (ask_new_clients E) (seq (on_world (sleep_ms 100)) (bk_refresh E K 5 time_point)) s3)))"

section \<open>What the display writes\<close>

definition no_sep :: "string \<Rightarrow> bool" where
  "no_sep s \<longleftrightarrow> CHR '';'' \<notin> set s"

lemma split_on_prefix: "no_sep f \<Longrightarrow> split_on (CHR '';'') (f @ CHR '';'' # s) = f # split_on (CHR '';'') s"
  by (induction f) (auto simp: no_sep_def)

lemma split_csv_line:
  "list_all no_sep cols \<Longrightarrow> split_on (CHR '';'') (csv_line cols) = cols @ [newline]"
  by (induction cols) (auto simp: csv_line_def newline_def split_on_prefix)

lemma no_sep_to_string: "no_sep (to_string i)"
  using show_nat_digits[of "nat i"] show_nat_digits[of "nat (- i)"]
  by (auto simp: to_string_def no_sep_def list_all_iff is_digit_def)

lemma no_sep_status: "no_sep (status_to_string st)"
  by (cases st) (simp_all add: status_to_string_def status_strings_def no_sep_def)

lemma no_sep_path: "no_sep p \<Longrightarrow> no_sep (path_quoted p)"
  by (auto simp: no_sep_def path_quoted_def)

lemma no_sep_filename: "no_sep (tm_file_path m) \<Longrightarrow> no_sep (get_file_name m)"
  by (auto simp: no_sep_def get_file_name_def filename_def dest: set_takeWhileD)

definition printable :: "TransferMetadata \<Rightarrow> bool" where
  "printable m \<longleftrightarrow> no_sep (tm_file_path m) \<and> no_sep (tm_group_id m) \<and> no_sep (tm_error_code m)
     \<and> no_sep (m_ip (tm_src m)) \<and> no_sep (m_ip (tm_dest m))"

lemma csv_fields_columns:
  assumes "printable m" "\<And>t. no_sep (local_time K t)"
  shows "list_all no_sep (csv_fields K now d m)" "length (csv_fields K now d m) = length csv_header"
proof -
  have "no_sep (get_ip_port ip)" if "no_sep (m_ip ip)" for ip
    using that no_sep_to_string[of "m_port ip"] by (simp add: get_ip_port_def no_sep_def)
  moreover have "no_sep (time_str K t)" for t
    using assms(2) by (simp add: time_str_def) (simp add: no_sep_def)
  ultimately show "list_all no_sep (csv_fields K now d m)"
    using assms(1) by (simp add: csv_fields_def printable_def no_sep_to_string no_sep_status no_sep_path no_sep_filename)
qed (simp add: csv_fields_def csv_header_def)

text \<open>A row of the CSV file shows a transfer.\<close>

definition row_of :: "console_env \<Rightarrow> (tm_ref \<Rightarrow> TransferMetadata) \<Rightarrow> tm_ref \<Rightarrow> string list \<Rightarrow> bool" where
  "row_of K cells r row \<longleftrightarrow> (\<exists>now d. row = csv_fields K now d (cells r))"

text \<open>\<open>tells f P\<close>: on a store \<open>cells\<close> the action returns a value with \<open>P\<close> and changes the trace only.\<close>

definition tells :: "(tm_ref \<Rightarrow> TransferMetadata) \<Rightarrow> (world, 'a) action \<Rightarrow> ('a \<Rightarrow> bool) \<Rightarrow> bool" where
  "tells cells f P \<longleftrightarrow>
     (\<forall>w. w_cells w = cells \<longrightarrow> (\<exists>x t. f w = (Ret x, w\<lparr>w_trace := w_trace w @ t\<rparr>) \<and> P x))"

lemma tells_return: "P x \<Longrightarrow> tells cells (return x) P"
  unfolding tells_def by (auto intro: exI[of _ "[]"])

lemma tells_bind:
  assumes "tells cells f P" "\<And>x. P x \<Longrightarrow> tells cells (g x) Q"
  shows "tells cells (bind f g) Q"
  unfolding tells_def
proof (intro allI impI)
  fix w :: world
  assume w: "w_cells w = cells"
  obtain x t where f: "f w = (Ret x, w\<lparr>w_trace := w_trace w @ t\<rparr>)" "P x"
    using assms(1) w unfolding tells_def by blast
  obtain y t' where "g x (w\<lparr>w_trace := w_trace w @ t\<rparr>) = (Ret y, w\<lparr>w_trace := w_trace w @ t @ t'\<rparr>)" "Q y"
    using assms(2)[OF f(2)] w unfolding tells_def by (force dest: spec[of _ "w\<lparr>w_trace := w_trace w @ t\<rparr>"])
  then show "\<exists>x t. bind f g w = (Ret x, w\<lparr>w_trace := w_trace w @ t\<rparr>) \<and> Q x"
    using f(1) by (intro exI[of _ y] exI[of _ "t @ t'"]) (simp add: run_bind)
qed

lemma tellsD: "tells cells f P \<Longrightarrow> w_cells w = cells \<Longrightarrow> \<exists>x t. f w = (Ret x, w\<lparr>w_trace := w_trace w @ t\<rparr>) \<and> P x"
  by (simp add: tells_def)

lemma tells_mono: "tells cells f P \<Longrightarrow> (\<And>x. P x \<Longrightarrow> Q x) \<Longrightarrow> tells cells f Q"
  unfolding tells_def by blast

lemma tells_now: "(\<And>t. P t) \<Longrightarrow> tells cells (now_ms E) P"
  unfolding tells_def now_ms_def by (auto simp: ask_Ret)

lemma tells_cell: "P (cells r) \<Longrightarrow> tells cells (cell r) P"
  unfolding tells_def cell_def by (auto intro: exI[of _ "[]"])

lemma tells_if: "(b \<Longrightarrow> tells cells f P) \<Longrightarrow> (\<not> b \<Longrightarrow> tells cells g P) \<Longrightarrow> tells cells (if b then f else g) P"
  by simp

lemma tells_duration: "tells cells (shown_duration E m) (\<lambda>_. True)"
  unfolding shown_duration_def by (intro tells_if tells_bind[of _ _ "\<lambda>_. True"] tells_now tells_return) simp_all

abbreviation shows_rows :: "console_env \<Rightarrow> (tm_ref \<Rightarrow> TransferMetadata) \<Rightarrow> tm_ref list \<Rightarrow> string \<times> string \<Rightarrow> bool" where
  "shows_rows K cells rs p \<equiv> \<exists>rows. snd p = concat (map csv_line rows) \<and> list_all2 (row_of K cells) rs rows"

lemma tells_display_file: "tells cells (display_file E K True b r) (shows_rows K cells [r])"
proof -
  let ?Q = "\<lambda>c. \<exists>row. c = csv_line row \<and> row_of K cells r row"
  have row: "tells cells (bind (now_ms E) (\<lambda>t. bind (shown_duration E (cells r)) (\<lambda>d.
      return (csv_line (csv_fields K (sint t sdiv 1000) d (cells r)))))) ?Q"
    by (intro tells_bind[OF tells_now[of "\<lambda>_. True"]] tells_bind[OF tells_duration] tells_return)
      (auto simp: row_of_def)
  have line: "tells cells (if b then bind (shown_duration E (cells r)) (\<lambda>d. return (session_line K d (cells r)))
      else return (available_line (cells r))) (\<lambda>_. True)"
    by (intro tells_if tells_bind[OF tells_duration] tells_return TrueI)
  have cell: "tells cells (cell r) (\<lambda>m. m = cells r)" by (rule tells_cell) simp
  have "tells cells (display_file E K True b r) (\<lambda>p. ?Q (snd p))"
    unfolding display_file_def if_True
    by (rule tells_bind[OF cell], hypsubst, rule tells_bind[OF row], rule tells_bind[OF line], rule tells_return)
      (simp only: snd_conv)
  then show ?thesis by (rule tells_mono) (force intro: exI[of _ "[_]"])
qed

lemma tells_gather:
  assumes "\<And>x. x \<in> set xs \<Longrightarrow> tells cells (f x) (shows_rows K cells (g x))"
  shows "tells cells (gather f xs) (shows_rows K cells (concat (map g xs)))"
  using assms
proof (induction xs)
  case Nil
  show ?case unfolding gather.simps by (rule tells_return) simp
next
  case (Cons x xs)
  have x: "tells cells (f x) (shows_rows K cells (g x))" by (rule Cons.prems) simp
  have xs: "tells cells (gather f xs) (shows_rows K cells (concat (map g xs)))" by (rule Cons.IH, rule Cons.prems) simp
  have app: "shows_rows K cells (concat (map g (x # xs))) (l, snd p @ snd p')"
    if shown: "shows_rows K cells (g x) p" "shows_rows K cells (concat (map g xs)) p'" for p p' :: "string \<times> string" and l
  proof -
    obtain rows rows' where "snd p = concat (map csv_line rows)" "list_all2 (row_of K cells) (g x) rows"
        "snd p' = concat (map csv_line rows')" "list_all2 (row_of K cells) (concat (map g xs)) rows'"
      using shown by blast
    then show ?thesis by (intro exI[of _ "rows @ rows'"]) (simp add: list_all2_appendI)
  qed
  show ?case
    unfolding gather.simps case_prod_beta
    by (rule tells_bind[OF x], rule tells_bind[OF xs], rule tells_return, rule app)
qed

lemma tells_display_client: "tells cells (display_client E K True client) (shows_rows K cells (snd client))"
proof -
  have "tells cells (gather (display_file E K True b) files) (shows_rows K cells (concat (map (\<lambda>r. [r]) files)))" for b files
    by (rule tells_gather, rule tells_display_file)
  then have files: "tells cells (gather (display_file E K True b) files) (shows_rows K cells files)" for b files by simp
  show ?thesis
    unfolding display_client_def case_prod_beta Let_def
    by (rule tells_bind[OF files], rule tells_return) (simp only: snd_conv)
qed

lemma display_run:
  assumes "bk_file_log_path b \<noteq> []"
  shows "\<exists>t header rows.
           display_information E K (b, w) = (Ret (), (b, w\<lparr>w_trace := w_trace w @ t
             @ [EvWrite (csv_file b) (header @ concat (map csv_line rows))]\<rparr>))
           \<and> (header = [] \<or> header = csv_line csv_header)
           \<and> list_all2 (row_of K (w_cells w)) (concat (map snd (bk_transfers b))) rows"
proof -
  let ?hdr = "if csv_position K (w_trace w) (csv_file b) = 0 then csv_line csv_header else []"
  let ?w = "w\<lparr>w_trace := w_trace w @ [EvFile ''tellp'' (csv_file b)]\<rparr>"
  have hdr: "csv_start K (csv_file b) w = (Ret ?hdr, ?w)" by (simp add: csv_start_def ask_Ret run_bind)
  have told: "tells (w_cells w) (gather (display_client E K True) (bk_transfers b))
      (shows_rows K (w_cells w) (concat (map snd (bk_transfers b))))"
    by (rule tells_gather, rule tells_display_client)
  have "w_cells ?w = w_cells w" by simp
  then obtain p t where p: "gather (display_client E K True) (bk_transfers b) ?w = (Ret p, ?w\<lparr>w_trace := w_trace ?w @ t\<rparr>)"
      "shows_rows K (w_cells w) (concat (map snd (bk_transfers b))) p"
    using tellsD[OF told] by blast
  then obtain rows where rows: "snd p = concat (map csv_line rows)"
      "list_all2 (row_of K (w_cells w)) (concat (map snd (bk_transfers b))) rows" by blast
  show ?thesis
    using assms hdr p(1) rows(1)
    by (intro exI[of _ "EvFile ''tellp'' (csv_file b) # t
          @ [EvWrite (log_file b) (display_title b @ fst p @ display_groups (w_cells w) b)]"] exI[of _ ?hdr] exI[of _ rows])
      (simp add: display_information_def Let_def log_event_def rows(2) case_prod_beta)
qed

section \<open>The console\<close>

lemma run_read_con:
  "read_con f shown (b, w) = (f (w_trace w), (b, w\<lparr>w_trace := w_trace w @ [EvFile ''std::cin'' (shown (f (w_trace w)))]\<rparr>))"
  by (simp add: read_con_def Let_def)

definition is_read :: "event \<Rightarrow> bool" where
  "is_read e \<longleftrightarrow> (case e of EvFile f _ \<Rightarrow> f = ''std::cin'' | _ \<Rightarrow> False)"

lemma is_read_con [simp]: "is_read (EvFile ''std::cin'' x)"
  by (simp add: is_read_def)

definition reads_only :: "world \<Rightarrow> world \<Rightarrow> bool" where
  "reads_only w w' \<longleftrightarrow> (\<exists>t. w' = w\<lparr>w_trace := w_trace w @ t\<rparr> \<and> list_all is_read t)"

lemma reads_only_one: "reads_only w (w\<lparr>w_trace := w_trace w @ [EvFile ''std::cin'' x]\<rparr>)"
  unfolding reads_only_def by (intro exI[of _ "[EvFile ''std::cin'' x]"]) simp

lemma reads_only_trans:
  assumes "reads_only u v" "reads_only v w"
  shows "reads_only u w"
proof -
  obtain s t where "v = u\<lparr>w_trace := w_trace u @ s\<rparr>" "w = v\<lparr>w_trace := w_trace v @ t\<rparr>" "list_all is_read s" "list_all is_read t"
    using assms by (auto simp: reads_only_def)
  then show ?thesis unfolding reads_only_def by (intro exI[of _ "s @ t"]) simp
qed

lemma reads_only_cells: "reads_only w w' \<Longrightarrow> w_cells w' = w_cells w"
  by (auto simp: reads_only_def)

text \<open>Reading words ends with the input, at the latest.\<close>

lemma choose_words_ends:
  assumes "\<forall>t. N \<le> length t \<longrightarrow> con_token K t = []" "\<not> valid []"
  shows "\<exists>ws w'. choose_words K valid chosen (b, w) = Some (ws, (b, w')) \<and> reads_only w w'"
  using assms
proof (induction "N - length (w_trace w)" arbitrary: chosen w rule: less_induct)
  case less
  let ?word = "con_token K (w_trace w)"
  let ?w = "w\<lparr>w_trace := w_trace w @ [EvFile ''std::cin'' ?word]\<rparr>"
  show ?case
  proof (cases "?word = ''q'' \<or> \<not> valid ?word")
    case True
    then show ?thesis by (subst choose_words.simps) (auto simp: run_read_con intro: reads_only_one)
  next
    case False
    then have "length (w_trace w) < N" using less.prems by (metis not_le)
    then have "N - length (w_trace ?w) < N - length (w_trace w)" by simp
    from less.hyps[OF this less.prems, of "sset_insert ?word chosen"] False show ?thesis
      by (subst choose_words.simps) (auto simp: run_read_con intro: reads_only_trans[OF reads_only_one])
  qed
qed

lemma find_file_listed:
  "find_file cells b file clients = Inr (Some r) \<Longrightarrow> r \<in> \<Union> (set ` snd ` set (bk_transfers b))"
proof (induction clients)
  case (Cons client clients)
  obtain refs where refs: "map_of (bk_transfers b) client = Some refs" using Cons.prems by (cases "map_of (bk_transfers b) client") auto
  show ?case
  proof (cases "List.find (\<lambda>r. get_file_name (cells r) = file) refs")
    case None
    then show ?thesis using Cons refs by simp
  next
    case (Some q)
    then have "q \<in> set refs" by (auto simp: find_Some_iff)
    then show ?thesis using Some refs Cons.prems map_of_SomeD[OF refs] by force
  qed
qed simp

text \<open>Choosing files ends by itself: every word adds a listed file or is the last.\<close>

lemma find_file_raises: "find_file cells b file clients = Inl e \<Longrightarrow> e = OutOfRange ''map::at''"
  by (induction clients) (auto split: option.splits)

lemma choose_files_ends:
  "\<exists>out w'. choose_files K clients files (b, w) = Some (out, (b, w')) \<and> reads_only w w'
     \<and> (\<forall>e. out = Raise e \<longrightarrow> e = OutOfRange ''map::at'')"
proof (induction "card (\<Union> (set ` snd ` set (bk_transfers b)) - set files)" arbitrary: files w rule: less_induct)
  case less
  let ?U = "\<Union> (set ` snd ` set (bk_transfers b))"
  let ?word = "con_token K (w_trace w)"
  let ?w = "w\<lparr>w_trace := w_trace w @ [EvFile ''std::cin'' ?word]\<rparr>"
  show ?case
  proof (cases "\<exists>r. ?word \<noteq> ''q'' \<and> find_file (w_cells w) b ?word clients = Inr (Some r) \<and> r \<notin> set files")
    case True
    then obtain r where r: "?word \<noteq> ''q''" "find_file (w_cells w) b ?word clients = Inr (Some r)" "r \<notin> set files" by blast
    have "?U - set (r # files) \<subset> ?U - set files" using find_file_listed[OF r(2)] r(3) by auto
    then have "card (?U - set (r # files)) < card (?U - set files)" by (intro psubset_card_mono) auto
    from less.hyps[OF this, of ?w] r show ?thesis
      by (subst choose_files.simps) (auto simp: run_read_con intro: reads_only_trans[OF reads_only_one])
  next
    case False
    then show ?thesis
      using find_file_raises[of "w_cells w" b ?word clients] reads_only_one[of w ?word]
      by (subst choose_files.simps)
        (auto simp: run_read_con Let_def List.insert_def split: sum.split option.split)
  qed
qed

lemma console_new_run:
  assumes "\<forall>t. N \<le> length t \<longrightarrow> con_token K t = []" "[] \<notin> set (ni_clients_conn (bk_ni b))"
  shows "\<exists>out w'. console_new K (b, w) = Some (out, (b, w')) \<and> reads_only w w'
           \<and> (out = Ret () \<or> out = Raise (OutOfRange ''map::at''))"
proof -
  let ?p = "con_int K (w_trace w)"
  let ?w = "w\<lparr>w_trace := w_trace w @ [EvFile ''std::cin'' (to_string ?p)]\<rparr>"
  have "\<exists>ws w1. choose_words K (\<lambda>c. c \<in> set (ni_clients_conn (bk_ni b))) [] (b, ?w) = Some (ws, (b, w1)) \<and> reads_only ?w w1"
    by (rule choose_words_ends[OF assms(1)]) (rule assms(2))
  then obtain ws w1 where c: "choose_words K (\<lambda>c. c \<in> set (ni_clients_conn (bk_ni b))) [] (b, ?w) = Some (ws, (b, w1))"
      "reads_only ?w w1" by blast
  obtain out w2 where f: "choose_files K ws [] (b, w1) = Some (out, (b, w2))" "reads_only w1 w2"
      "\<forall>e. out = Raise e \<longrightarrow> e = OutOfRange ''map::at''"
    using choose_files_ends by blast
  note ro = reads_only_one[of w "to_string ?p"] reads_only_trans[OF reads_only_one c(2)]
  consider "?p < 0 \<or> ?p > protocol_index dummy" | "\<not> (?p < 0 \<or> ?p > protocol_index dummy)" "length ws < 2"
    | "\<not> (?p < 0 \<or> ?p > protocol_index dummy)" "\<not> length ws < 2" by blast
  then show ?thesis
  proof cases
    case 1
    then have "console_new K (b, w) = Some (Ret (), (b, ?w))" by (auto simp: console_new_def run_read_con)
    then show ?thesis using ro(1) by blast
  next
    case 2
    then have "console_new K (b, w) = Some (Ret (), (b, w1))"
      using c(1) by (simp add: console_new_def run_read_con)
    then show ?thesis using ro(2) by blast
  next
    case 3
    then have "console_new K (b, w) = Some (case out of Raise e \<Rightarrow> Raise e | Ret _ \<Rightarrow> Ret (), (b, w2))"
      using c(1) f(1) by (cases out) (simp_all add: console_new_def run_read_con)
    moreover have "(case out of Raise e \<Rightarrow> Raise e | Ret _ \<Rightarrow> Ret ()) = Ret ()
        \<or> (case out of Raise e \<Rightarrow> Raise e | Ret _ \<Rightarrow> Ret ()) = Raise (OutOfRange ''map::at'')"
      using f(3) by (cases out) auto
    ultimately show ?thesis using reads_only_trans[OF ro(2) f(2)] by blast
  qed
qed

lemma console_start_run:
  assumes "\<forall>t. N \<le> length t \<longrightarrow> con_token K t = []" "map_of (bk_clients_per_grp_transfer b) [] = None"
  shows "\<exists>r. console_start E K (b, w) = Some r"
proof -
  have "\<exists>ws w'. choose_words K (\<lambda>t. map_of (bk_clients_per_grp_transfer b) t \<noteq> None) [] (b, w) = Some (ws, (b, w'))
      \<and> reads_only w w'"
    by (rule choose_words_ends[OF assms(1)]) (simp add: assms(2))
  then show ?thesis unfolding console_start_def fst_conv by (elim exE conjE) (simp only: option.case prod.case, blast)
qed

section \<open>Properties\<close>


text \<open>
  The console's dialogue for a new transfer creates none: once the input has ended or says so, it
  returns, or throws when a chosen client has not yet reported its files; it has read words and
  changed nothing else.
\<close>

theorem console_new_transfer_creates_nothing:
  assumes "\<forall>t. N \<le> length t \<longrightarrow> con_token K t = []" "[] \<notin> set (ni_clients_conn (bk_ni b))"
  shows "\<exists>out w'. input_action E K (CHR ''n'') (b, w) = Some (out, (b, w')) \<and> reads_only w w'
           \<and> (out = Ret () \<or> out = Raise (OutOfRange ''map::at''))"
  using console_new_run[OF assms, of w] by (simp add: input_action_def)

text \<open>
  C34: every console command ends when the input does, as long as no client and no group has the
  empty name, which a failed read delivers.
\<close>

theorem console_commands_end:
  assumes "\<forall>t. N \<le> length t \<longrightarrow> con_token K t = []"
    and "[] \<notin> set (ni_clients_conn (bk_ni b))" "map_of (bk_clients_per_grp_transfer b) [] = None"
  shows "\<exists>out s'. input_action E K c (b, w) = Some (out, s')"
proof -
  obtain r1 r2 where "console_new K (b, w) = Some r1" "console_start E K (b, w) = Some r2"
    using console_new_run[OF assms(1,2), of w] console_start_run[OF assms(1,3), of E w] by blast
  then have "\<not> Option.is_none (input_action E K c (b, w))" by (simp add: input_action_def)
  then show ?thesis by (cases "input_action E K c (b, w)") (auto simp: split_paired_all)
qed



definition sample_console :: console_env where
  "sample_console = \<lparr>local_time = (\<lambda>_. ''01-01-2024 00:00:00''), csv_position = (\<lambda>_ _. 0),
     con_int = (\<lambda>_. 2), con_token = (\<lambda>t. if t = [] then ''client0'' else []), con_line = (\<lambda>_. ''n'')\<rparr>"

lemma sample_console_ends: "\<forall>t. 1 \<le> length t \<longrightarrow> con_token sample_console t = []"
  by (auto simp: sample_console_def)


theorem console_new_transfer_creates_nothing_witness:
  "\<exists>out w'. input_action quiet_env sample_console (CHR ''n'') (sample_bookkeeper, world_init) = Some (out, (sample_bookkeeper, w'))
     \<and> reads_only world_init w'"
proof -
  have "[] \<notin> set (ni_clients_conn (bk_ni sample_bookkeeper))"
    by (simp add: sample_bookkeeper_def Bookkeeper_blank_def NotificationInterface_new_def)
  from console_new_transfer_creates_nothing[OF sample_console_ends this, of quiet_env world_init] show ?thesis by blast
qed

theorem console_commands_end_witness:
  "\<exists>out s'. input_action quiet_env sample_console (CHR ''s'') (sample_bookkeeper, world_init) = Some (out, s')"
proof -
  have "[] \<notin> set (ni_clients_conn (bk_ni sample_bookkeeper))" "map_of (bk_clients_per_grp_transfer sample_bookkeeper) [] = None"
    by (simp_all add: sample_bookkeeper_def Bookkeeper_blank_def NotificationInterface_new_def)
  from console_commands_end[OF sample_console_ends this] show ?thesis by blast
qed

end
