(* ===== verification/Transfer_Modules.thy ===== *)
theory Transfer_Modules
  imports Bookkeeper_Service
begin

text \<open>
  \<open>plugins/SNBFileTransfer.cpp\<close> and \<open>plugins/SNBTransferBookkeeper.cpp\<close>: the modules through which the
  run control drives a client and a bookkeeper. A command is a JSON object. The worker thread of the
  framework is a parameter: starting and stopping it may throw, by whether it runs; when the call
  returns the thread runs, or has been joined. The commands a module registers are the steps of the
  relation \<open>ft_step\<close>, along which a cancelled transfer stays cancelled.
\<close>

section \<open>State\<close>

record thread_ops =
  wt_start :: "bool \<Rightarrow> exn option"
  wt_stop :: "bool \<Rightarrow> exn option"

record module_conf =
  mc_ip :: string
  mc_dir :: string
  mc_refresh_rate :: int
  mc_connection_prefix :: string
  mc_timeout_send :: int
  mc_timeout_receive :: int

text \<open>A module and the object it owns, a client or a bookkeeper; null pointers are \<open>None\<close>.\<close>

record 'c module =
  mod_name :: string
  mod_conf :: "module_conf option"
  mod_object :: "'c option"
  mod_thread :: "bool option"

type_synonym ('c, 'a) mod_action = "('c module \<times> world, 'a) action"

definition module_new :: "string \<Rightarrow> 'c module" where
  "module_new name = \<lparr>mod_name = name, mod_conf = None, mod_object = None, mod_thread = None\<rparr>"

definition on_object :: "('c \<times> world, 'a) action \<Rightarrow> ('c, 'a) mod_action" where
  "on_object f = (\<lambda>(m, w). case mod_object m of
     None \<Rightarrow> (Raise (UndefinedBehaviour ''m_client''), (m, w))
   | Some c \<Rightarrow> (case f (c, w) of (r, (c', w')) \<Rightarrow> (r, (m\<lparr>mod_object := Some c'\<rparr>, w'))))"

definition on_thread :: "(bool \<Rightarrow> exn option) \<Rightarrow> bool \<Rightarrow> ('c, unit) mod_action" where
  "on_thread f running' =
     bind self (\<lambda>m. case mod_thread m of
       None \<Rightarrow> throw (UndefinedBehaviour ''m_thread'')
     | Some running \<Rightarrow>
         (case f running of
            Some e \<Rightarrow> throw e
          | None \<Rightarrow> on_self (\<lambda>m. m\<lparr>mod_thread := Some running'\<rparr>)))"

definition mod_init :: "module_conf option \<Rightarrow> ('c, unit) mod_action" where
  "mod_init mdal =
     (case mdal of
        None \<Rightarrow> throw (ErsIssue ''CommandFailed'')
      | Some c \<Rightarrow> on_self (\<lambda>m. m\<lparr>mod_conf := Some c\<rparr>))"

section \<open>The file transfer module\<close>

definition ft_conf :: "env \<Rightarrow> (TransferClient, unit) mod_action" where
  "ft_conf E =
     bind self (\<lambda>m. case mod_conf m of
       None \<Rightarrow> throw (UndefinedBehaviour ''m_snbft_conf'')
     | Some c \<Rightarrow>
         bind (of_result (IPFormat_new (mc_ip c) 0)) (\<lambda>ip.
         bind (on_world (TransferClient_new E ip (mod_name m) (mc_dir c) (mc_connection_prefix c)
                 (mc_timeout_send c) (mc_timeout_receive c))) (\<lambda>client.
         on_self (\<lambda>m. m\<lparr>mod_object := Some client, mod_thread := Some False\<rparr>))))"

definition ft_start :: "env \<Rightarrow> thread_ops \<Rightarrow> (TransferClient, unit) mod_action" where
  "ft_start E T = seq (on_object (on_ni (lookups_connections E))) (on_thread (wt_start T) True)"

definition ft_stop :: "thread_ops \<Rightarrow> (TransferClient, unit) mod_action" where
  "ft_stop T = on_thread (wt_stop T) False"

text \<open>
  A running thread is stopped and dropped; a thread that does not run is kept. The loop that waits
  for the thread after the stop finds it joined.
\<close>

definition ft_scrap :: "thread_ops \<Rightarrow> (TransferClient, unit) mod_action" where
  "ft_scrap T =
     bind self (\<lambda>m. case mod_thread m of
       None \<Rightarrow> throw (UndefinedBehaviour ''m_thread'')
     | Some running \<Rightarrow>
         seq (if running then seq (on_thread (wt_stop T) False) (on_self (\<lambda>m. m\<lparr>mod_thread := None\<rparr>)) else return ())
         (on_self (\<lambda>m. m\<lparr>mod_object := None\<rparr>)))"

text \<open>\<open>std::set<std::filesystem::path>\<close>: ordered by the elements of the paths, paths with no root first.\<close>

definition path_key :: "string \<Rightarrow> string list" where
  "path_key p = (if is_absolute p then ''/'' else []) # path_elems p"

definition path_set_insert :: "string \<Rightarrow> string list \<Rightarrow> string list" where
  "path_set_insert p ps = (if path_key p \<in> path_key ` set ps then ps else insort_key path_key p ps)"

text \<open>\<open>args[k]\<close> on a constant object: a missing member is undefined.\<close>

definition arg :: "json \<Rightarrow> string \<Rightarrow> ('s, json) action" where
  "arg args k = (case jmember args k of None \<Rightarrow> throw (UndefinedBehaviour k) | Some v \<Rightarrow> return v)"

definition arg_string :: "json \<Rightarrow> string \<Rightarrow> ('s, string) action" where
  "arg_string args k = bind (arg args k) (\<lambda>v. of_result (jget_string v))"

definition do_tr_new :: "env \<Rightarrow> json \<Rightarrow> (TransferClient, unit) mod_action" where
  "do_tr_new E args =
     (if \<not> jcontains args ''src'' then on_world (ers_error (ConfigError ''src is mandatory to create a new transfer''))
      else bind (arg_string args ''src'') (\<lambda>src. bind self (\<lambda>m.
        if src = mod_name m then
          if jcontains args ''dests'' \<and> jcontains args ''files'' then
            bind (bind (arg args ''dests'') (\<lambda>v. of_result (jget_string_list v))) (\<lambda>dests.
            bind (bind (arg args ''files'') (\<lambda>v. of_result (jget_string_list v))) (\<lambda>files.
            bind (arg_string args ''transfer_id'') (\<lambda>transfer_id.
            bind (arg_string args ''protocol'') (\<lambda>protocol.
            bind (arg args ''protocol_args'') (\<lambda>opts.
              on_object (create_new_transfer E transfer_id protocol (fold sset_insert dests [])
                (fold path_set_insert files []) opts))))))
          else on_world (ers_error (ConfigError ''dests and files are mandatory to create a new transfer''))
        else on_world (ers_error (InvalidSourceCommandRequestError ''New Transfer'')))))"

definition on_transfer_id :: "string \<Rightarrow> (string \<Rightarrow> (client_world, unit) action) \<Rightarrow> json \<Rightarrow> (TransferClient, unit) mod_action" where
  "on_transfer_id verb f args =
     (if jcontains args ''transfer_id'' then bind (arg_string args ''transfer_id'') (\<lambda>tid. on_object (f tid))
      else on_world (ers_error (ConfigError (''transfer_id is mandatory to '' @ verb @ '' a transfer''))))"

definition do_tr_start :: "env \<Rightarrow> json \<Rightarrow> (TransferClient, unit) mod_action" where
  "do_tr_start E = on_transfer_id ''start'' (start_transfer E)"

definition do_tr_pause :: "env \<Rightarrow> json \<Rightarrow> (TransferClient, unit) mod_action" where
  "do_tr_pause E = on_transfer_id ''pause'' (pause_transfer E)"

definition do_tr_resume :: "env \<Rightarrow> json \<Rightarrow> (TransferClient, unit) mod_action" where
  "do_tr_resume E = on_transfer_id ''resume'' (resume_transfer E)"

definition do_tr_cancel :: "env \<Rightarrow> json \<Rightarrow> (TransferClient, unit) mod_action" where
  "do_tr_cancel E = on_transfer_id ''cancel'' (cancel_transfer E)"

text \<open>The commands the constructor registers.\<close>

definition ft_commands :: "env \<Rightarrow> thread_ops \<Rightarrow> (string \<times> (json \<Rightarrow> (TransferClient, unit) mod_action)) list" where
  "ft_commands E T =
     [(''conf'', \<lambda>_. ft_conf E), (''scrap'', \<lambda>_. ft_scrap T), (''start'', \<lambda>_. ft_start E T),
      (''stop'', \<lambda>_. ft_stop T), (''new_transfer'', do_tr_new E), (''start_transfer'', do_tr_start E),
      (''pause_transfer'', do_tr_pause E), (''resume_transfer'', do_tr_resume E),
      (''cancel_transfer'', do_tr_cancel E)]"

inductive ft_step :: "env \<Rightarrow> thread_ops \<Rightarrow> TransferClient module \<times> world \<Rightarrow> TransferClient module \<times> world \<Rightarrow> bool"
  for E T where
  step_command: "(name, handler) \<in> set (ft_commands E T) \<Longrightarrow> handler args st = (out, st') \<Longrightarrow> ft_step E T st st'"

section \<open>The bookkeeper module\<close>

definition tb_conf :: "env \<Rightarrow> console_env \<Rightarrow> (Bookkeeper, unit) mod_action" where
  "tb_conf E K =
     bind self (\<lambda>m. case mod_conf m of
       None \<Rightarrow> throw (UndefinedBehaviour ''m_snbbk_conf'')
     | Some c \<Rightarrow>
         bind (of_result (IPFormat_new (mc_ip c) 0)) (\<lambda>ip.
         bind (on_world (Bookkeeper_new E K ip (mod_name m) (mc_dir c) (mc_refresh_rate c)
                 (mc_connection_prefix c) (mc_timeout_send c) (mc_timeout_receive c))) (\<lambda>b.
         on_self (\<lambda>m. m\<lparr>mod_object := Some b, mod_thread := Some False\<rparr>))))"

definition tb_start :: "env \<Rightarrow> thread_ops \<Rightarrow> (Bookkeeper, unit) mod_action" where
  "tb_start E T = seq (on_object (on_bk_ni (lookups_connections E))) (on_thread (wt_start T) True)"

definition tb_stop :: "thread_ops \<Rightarrow> (Bookkeeper, unit) mod_action" where
  "tb_stop T = on_thread (wt_stop T) False"

text \<open>The bookkeeper is destroyed first, while its thread may still run.\<close>

definition tb_scrap :: "(Bookkeeper, unit) mod_action" where
  "tb_scrap = on_self (\<lambda>m. m\<lparr>mod_object := None, mod_thread := None\<rparr>)"

section \<open>What commands keep\<close>

text \<open>No allocated transfer leaves the state CANCELLED, and addresses are not reused.\<close>

definition cancel_safe :: "world \<Rightarrow> world \<Rightarrow> bool" where
  "cancel_safe w w' \<longleftrightarrow>
     w_next w \<le> w_next w'
     \<and> (\<forall>q < w_next w. tm_status (w_cells w q) = CANCELLED \<longrightarrow> tm_status (w_cells w' q) = CANCELLED)"

definition keeps_cancelled :: "'x \<times> world \<Rightarrow> 'x \<times> world \<Rightarrow> bool" where
  "keeps_cancelled s s' \<longleftrightarrow> cancel_safe (snd s) (snd s')"

interpretation cancel_safe: frame_order cancel_safe
  by unfold_locales (auto simp: cancel_safe_def)

interpretation keeps_cancelled: frame_order keeps_cancelled
  by unfold_locales (auto simp: keeps_cancelled_def cancel_safe.frame_refl intro: cancel_safe.frame_trans)

lemma cancel_safe_quiet: "keeps (only_cells {}) f \<Longrightarrow> keeps cancel_safe f"
  by (simp add: keeps_def cancel_safe_def only_cells_def)

lemma cancel_safe_alloc: "keeps cancel_safe (alloc m)"
  by (auto simp: keeps_def cancel_safe_def alloc_def)

lemma cancel_safe_update: "(\<And>m. tm_status (g m) = tm_status m) \<Longrightarrow> keeps cancel_safe (update_cell r g)"
  by (auto simp: keeps_def cancel_safe_def update_cell_def)

lemma keeps_cancelled_on_world: "keeps cancel_safe f \<Longrightarrow> keeps keeps_cancelled (on_world f)"
  by (auto simp: keeps_def keeps_cancelled_def on_world_def split: prod.splits) (metis snd_conv)

lemma keeps_cancelled_self: "keeps keeps_cancelled self" "keeps keeps_cancelled (on_self f)"
  by (auto simp: keeps_def keeps_cancelled_def self_def on_self_def cancel_safe.frame_refl)

lemmas quiet_rules = cancel_safe_quiet[OF keeps_ask] cancel_safe_quiet[OF keeps_log_event]
  cancel_safe_quiet[OF keeps_cell] keeps_issues[THEN cancel_safe_quiet] cancel_safe_alloc cancel_safe.frame_rules
  cancel_safe_quiet[OF keeps_send_notification]

lemmas safe_rules = keeps_cancelled.frame_rules keeps_cancelled_self keeps_cancelled_on_world quiet_rules


text \<open>The session operations behind the four transfer commands.\<close>

lemma session_ops_frame:
  "keeps (ses_frame UNIV) (session_pause_file E r b)" "keeps (ses_frame UNIV) (session_resume_file E r b)"
  "keeps (ses_frame UNIV) (session_cancel_file E r b)" "keeps (ses_frame UNIV) (session_upload_file E r b)"
  "keeps (ses_frame UNIV) (session_download_file E r dest b)"
  using run_op_frame[of r E OpPause b] run_op_frame[of r E OpResume b] run_op_frame[of r E OpCancel b]
    run_op_frame[of r E OpUpload b] run_op_frame[of r E "OpDownload dest" b]
  by (simp_all add: keeps_def ses_frame_def) (blast intro: only_cells_mono)+

lemmas group_frames =
  frame_step_rules session_ops_frame update_metadatas_frames(2) send_to_targets_frames(2) warn_unless_type_frames(2)

lemma session_all_frame:
  "keeps (ses_frame UNIV) (session_start_all E)" "keeps (ses_frame UNIV) (session_pause_all E)"
  "keeps (ses_frame UNIV) (session_resume_all E)" "keeps (ses_frame UNIV) (session_cancel_all E)"
  unfolding session_start_all_def session_download_all_def session_upload_all_def session_pause_all_def
    session_resume_all_def session_cancel_all_def all_files_def
  by (intro group_frames)+

lemma safe_session_step:
  assumes "keeps (ses_frame UNIV) f" "\<And>st out st'. f st = (out, st') \<Longrightarrow> session_step E st st'"
  shows "keeps keeps_cancelled f"
proof
  fix st
  obtain out st' where f: "f st = (out, st')" by (cases "f st")
  have "cancel_kept st st'" using session_step_cancel_kept[OF assms(2)[OF f]] .
  moreover have "only_cells UNIV (snd st) (snd st')" using keeps_run[OF assms(1) f] by (simp add: ses_frame_def)
  ultimately show "keeps_cancelled st (snd (f st))"
    by (simp add: f keeps_cancelled_def cancel_safe_def cancel_kept_def only_cells_def)
qed

lemma safe_session_ops:
  "keeps keeps_cancelled (session_start_all E)" "keeps keeps_cancelled (session_pause_all E)"
  "keeps keeps_cancelled (session_resume_all E)" "keeps keeps_cancelled (session_cancel_all E)"
  by (rule safe_session_step[of _ E]; auto intro: session_all_frame session_step.intros)+

text \<open>Parts of a state.\<close>

lemma safe_parts:
  "keeps keeps_cancelled f \<Longrightarrow> keeps keeps_cancelled (on_session i f)"
  "keeps keeps_cancelled g \<Longrightarrow> keeps keeps_cancelled (on_ni g)"
  "keeps keeps_cancelled h \<Longrightarrow> keeps keeps_cancelled (on_object h)"
  by (auto simp: keeps_def keeps_cancelled_def on_session_def on_ni_def on_object_def cancel_safe.frame_refl
      split: prod.splits option.splits) (metis snd_conv)+

lemma safe_with_session: "keeps keeps_cancelled f \<Longrightarrow> keeps keeps_cancelled (with_session tid f)"
  unfolding with_session_def
  by (intro safe_rules) (auto intro!: safe_rules safe_parts split: option.splits)

lemma safe_transfer_ops:
  "keeps keeps_cancelled (start_transfer E tid)" "keeps keeps_cancelled (pause_transfer E tid)"
  "keeps keeps_cancelled (resume_transfer E tid)" "keeps keeps_cancelled (cancel_transfer E tid)"
  unfolding start_transfer_def pause_transfer_def resume_transfer_def cancel_transfer_def
  by (intro safe_with_session safe_session_ops)+

text \<open>Construction of a session, and a new transfer.\<close>

lemma safe_export: "keeps keeps_cancelled (on_world (tm_export_partial E b r))"
  by (rule keeps_cancelled_on_world) (auto simp: keeps_def cancel_safe_def run_export_partial)

lemma safe_interfaces:
  "keeps cancel_safe (TransferInterfaceBittorrent_new opts cl dir ip)"
  "keeps cancel_safe (TransferInterfaceSCP_new b opts up)"
  "keeps cancel_safe (TransferInterfaceRClone_new E opts dir)"
  "keeps cancel_safe (bt_generate_torrents_files dir refs)"
proof -
  have "keeps cancel_safe (sprintf_into n s :: (world, string) action)" for n s
    unfolding sprintf_into_def by (intro quiet_rules)
  then show "keeps cancel_safe (TransferInterfaceRClone_new E opts dir)"
    unfolding TransferInterfaceRClone_new_def
    by (intro quiet_rules cancel_safe_quiet[OF keeps_requestRPC])
  show "keeps cancel_safe (TransferInterfaceSCP_new b opts up)"
    unfolding TransferInterfaceSCP_new_def Let_def
    by (cases "jmember opts ''user''"; cases "jmember opts ''use_password''")
      (simp_all only: option.case, (intro quiet_rules)+)
qed (unfold TransferInterfaceBittorrent_new_def bt_generate_torrents_files_def, (intro quiet_rules)+)

lemma safe_magnet_links: "keeps keeps_cancelled (write_magnet_links E)"
proof -
  have "keeps cancel_safe (update_cell r (set_magnet_link l))" for r l
    by (rule cancel_safe_update) (simp add: set_magnet_link_def mark_def)
  then show ?thesis
    unfolding write_magnet_links_def Let_def
    by (intro safe_rules) (auto intro!: safe_rules split: option.splits)
qed

lemma safe_init: "keeps keeps_cancelled (init_interface E b)"
  unfolding init_interface_def set_interface_def Let_def
  by (intro safe_rules) (auto intro!: safe_rules safe_interfaces safe_magnet_links split: e_protocol_type.splits)

lemma safe_update_metadatas: "keeps keeps_cancelled (update_metadatas_to_bookkeeper E)"
  unfolding update_metadatas_to_bookkeeper_def update_metadata_to_bookkeeper_def ses_send_def
  by (intro safe_export safe_rules)

lemma safe_new_session: "keeps cancel_safe (TransferSession_new E b g ty sid ip dir bks cls)"
proof
  fix w
  have "keeps keeps_cancelled (session_ctor_body E b)"
    unfolding session_ctor_body_def by (intro safe_rules safe_init safe_update_metadatas)
  then show "cancel_safe w (snd (TransferSession_new E b g ty sid ip dir bks cls w))"
    using keepsD[of keeps_cancelled _ "(session_blank g ty sid ip dir bks cls, w)"]
    by (fastforce simp: TransferSession_new_def keeps_cancelled_def split: prod.splits outcome.splits)
qed

lemma safe_create_metadata: "keeps cancel_safe (create_metadata_from_file E ip f)"
  unfolding create_metadata_from_file_def by (intro quiet_rules)

lemma safe_add_file: "keeps keeps_cancelled (add_file r)"
proof -
  have "keeps cancel_safe (update_cell r (set_group_id x))" for r x
    by (rule cancel_safe_update) (simp add: set_group_id_def mark_def)
  then show ?thesis
    unfolding add_file_def first_transfer_def
    by (intro safe_rules) (auto intro!: safe_rules split: list.splits)
qed

lemma safe_add_existing: "keeps keeps_cancelled (add_existing_files E c files)"
  by (induction files)
    (simp_all only: add_existing_files.simps add_expected_file_def,
      (intro safe_add_file safe_create_metadata safe_rules | assumption)+)

lemma safe_build_group: "keeps cancel_safe (build_group E c files g)"
proof
  show "cancel_safe w (snd (build_group E c files g w))" for w
    using keepsD[OF safe_add_existing[of E c files], of "(g, w)"]
    by (auto simp: build_group_def keeps_cancelled_def split: prod.splits outcome.splits)
qed

lemma safe_create_new_transfer:
  "keeps keeps_cancelled (create_new_transfer E tid protocol dests files opts)"
  unfolding create_new_transfer_def announce_group_def create_session_def invite_client_def cl_send_def Let_def
  by (intro safe_rules)
    (auto intro!: safe_export safe_rules safe_build_group safe_new_session split: option.splits)

text \<open>The commands of the module.\<close>

lemma safe_lookups: "keeps keeps_cancelled (lookups_connections E)"
  unfolding lookups_connections_def lookup_pattern_def
  by (intro safe_rules) (auto intro!: safe_rules split: outcome.splits)

lemma safe_on_thread: "keeps keeps_cancelled (on_thread f b)"
  unfolding on_thread_def by (intro safe_rules) (auto intro!: safe_rules split: option.splits)

lemma safe_arg: "keeps keeps_cancelled (arg args k)" "keeps keeps_cancelled (arg_string args k)"
proof -
  show arg: "keeps keeps_cancelled (arg args k)" for args k
    unfolding arg_def by (cases "jmember args k") (simp_all only: option.case, (intro safe_rules)+)
  show "keeps keeps_cancelled (arg_string args k)"
    unfolding arg_string_def by (intro safe_rules arg)
qed

lemma safe_on_transfer_id:
  "(\<And>tid. keeps keeps_cancelled (f tid)) \<Longrightarrow> keeps keeps_cancelled (on_transfer_id verb f args)"
  unfolding on_transfer_id_def by (intro safe_rules safe_arg safe_parts)

lemma safe_do_tr_new: "keeps keeps_cancelled (do_tr_new E args)"
  unfolding do_tr_new_def by (intro safe_arg safe_rules safe_parts safe_create_new_transfer)

lemma safe_ft_conf: "keeps keeps_cancelled (ft_conf E)"
proof -
  have "keeps cancel_safe (TransferClient_new E ip name dir pre ts tr)" for ip name dir pre ts tr
    unfolding TransferClient_new_def make_directories_def Let_def by (intro quiet_rules)
  then show ?thesis
    unfolding ft_conf_def by (intro safe_rules) (auto intro!: safe_rules split: option.splits)
qed

lemma safe_ft_scrap: "keeps keeps_cancelled (ft_scrap T)"
  unfolding ft_scrap_def
  by (intro safe_rules) (auto intro!: safe_rules safe_on_thread split: option.splits)

lemma ft_step_safe: "ft_step E T st st' \<Longrightarrow> keeps_cancelled st st'"
proof (induction rule: ft_step.induct)
  case (step_command name handler args st out st')
  have "keeps keeps_cancelled (handler args)"
    using step_command(1) unfolding ft_commands_def
    by (auto simp: do_tr_start_def do_tr_pause_def do_tr_resume_def do_tr_cancel_def ft_start_def ft_stop_def
        intro!: safe_ft_conf safe_ft_scrap safe_do_tr_new safe_on_thread safe_on_transfer_id safe_transfer_ops
          keeps_cancelled.keeps_seq safe_parts safe_lookups)
  then show ?case using step_command(2) by (rule keeps_run)
qed

section \<open>Properties\<close>



end
