(* ===== verification/Rclone_Polling.thy ===== *)
theory Rclone_Polling
  imports Transfer_Session
begin

text \<open>
  The polling thread of the RClone protocol (\<open>TransferInterfaceRClone::do_work\<close>) next to the operations of
  the session that owns the protocol object. A round is cut at the requests it makes; the steps of
  the thread and the operations of the session interleave. What the library reports about
  the jobs decides the status of their transfers.
\<close>

section \<open>The round, step by step\<close>

text \<open>
  Where the thread is: before the statistics, in the loop over the running transfers, in the loop over the
  jobs (after the given key, as an iterator of \<open>std::map\<close>), before the sleep, ended by the cleared running
  flag, or ended by an exception, which in a thread is the end of the process.
\<close>

datatype poll_pc = PollStats | PollProgress "json list" | PollJobs "tm_ref option" | PollSleep | PollEnded
  | PollTerminated exn

definition rclone_stats :: "env \<Rightarrow> (rclone_world, json list) action" where
  "rclone_stats E =
     bind (on_world (requestRPC E ''core/stats'' ''{}'')) (\<lambda>stats.
       case stats of
         None \<Rightarrow> return []
       | Some j \<Rightarrow> bind (of_result (jindex j ''transferring''))
           (\<lambda>tr. if tr = JNull then return [] else of_result (jget_array tr)))"

definition next_job :: "(tm_ref \<times> int) list \<Rightarrow> tm_ref option \<Rightarrow> (tm_ref \<times> int) option" where
  "next_job jobs k = List.find (\<lambda>kv. case k of None \<Rightarrow> True | Some l \<Rightarrow> l < fst kv) jobs"

definition poll_run :: "(rclone_world, 'a) action \<Rightarrow> ('a \<Rightarrow> poll_pc) \<Rightarrow> rclone_world \<Rightarrow> poll_pc \<times> rclone_world" where
  "poll_run f k st = (case f st of (Ret x, st') \<Rightarrow> (k x, st') | (Raise e, st') \<Rightarrow> (PollTerminated e, st'))"

fun poll_step :: "env \<Rightarrow> bool \<Rightarrow> poll_pc \<Rightarrow> rclone_world \<Rightarrow> poll_pc \<times> rclone_world" where
  "poll_step E running PollStats st = (if running then poll_run (rclone_stats E) PollProgress st else (PollEnded, st))"
| "poll_step E running (PollProgress []) st = (PollJobs None, st)"
| "poll_step E running (PollProgress (t # ts)) st = poll_run (rclone_progress t) (\<lambda>_. PollProgress ts) st"
| "poll_step E running (PollJobs k) st =
     (case next_job (rc_jobs_id (fst st)) k of
        None \<Rightarrow> (PollSleep, st)
      | Some job \<Rightarrow> poll_run (rclone_job_status E job) (\<lambda>_. PollJobs (Some (fst job))) st)"
| "poll_step E running PollSleep st =
     poll_run (bind self (\<lambda>i. on_world (sleep_ms (nat (rc_refresh_rate i) * 1000)))) (\<lambda>_. PollStats) st"
| "poll_step E running pc st = (pc, st)"

section \<open>The steps of a round that runs alone\<close>

lemma rclone_poll_split:
  "rclone_poll E = bind (rclone_stats E) (\<lambda>ts. seq (for_each rclone_progress ts)
     (bind self (\<lambda>i. seq (for_each (rclone_job_status E) (rc_jobs_id i))
        (on_world (sleep_ms (nat (rc_refresh_rate i) * 1000))))))"
  by (rule ext) (auto simp: rclone_poll_def rclone_stats_def seq_def run_bind bind_def
      split: outcome.split option.split prod.split)

text \<open>The protocol object as the steps leave it.\<close>

definition self_kept :: "'x \<times> world \<Rightarrow> 'x \<times> world \<Rightarrow> bool" where
  "self_kept s s' \<longleftrightarrow> fst s' = fst s"

interpretation self_kept: frame_order self_kept
  by unfold_locales (simp_all add: self_kept_def)

lemma self_kept_on_world: "keeps self_kept (on_world f)"
  by (auto simp: keeps_def self_kept_def on_world_def split: prod.split)

lemma self_kept_self: "keeps self_kept self"
  by (auto simp: keeps_def self_kept_def self_def)

lemma self_kept_case_option:
  "keeps self_kept f \<Longrightarrow> (\<And>x. keeps self_kept (g x)) \<Longrightarrow> keeps self_kept (case y of None \<Rightarrow> f | Some x \<Rightarrow> g x)"
  by (cases y) simp_all

lemma self_kept_sprintf: "keeps self_kept (sprintf_into n s)"
  by (auto simp: sprintf_into_def intro: self_kept.frame_rules)

lemmas self_rules = self_kept.frame_rules self_kept_on_world self_kept_self self_kept_case_option self_kept_sprintf

lemma self_kept_stats: "keeps self_kept (rclone_stats E)"
  unfolding rclone_stats_def by (intro self_rules)

lemma self_kept_progress: "keeps self_kept (rclone_progress t)"
  unfolding rclone_progress_def split_def by (intro self_rules)

lemma self_kept_job_status: "keeps self_kept (rclone_job_status E job)"
  unfolding rclone_job_status_def split_def by (intro self_rules)

definition solo_to :: "env \<Rightarrow> poll_pc \<times> rclone_world \<Rightarrow> poll_pc \<times> rclone_world \<Rightarrow> bool" where
  "solo_to E x y \<longleftrightarrow> (\<exists>k. ((\<lambda>(pc, st). poll_step E True pc st) ^^ k) x = y)"

lemma solo_to_refl: "solo_to E x x"
  unfolding solo_to_def by (rule exI[of _ 0]) simp

lemma solo_to_trans: "solo_to E x y \<Longrightarrow> solo_to E y z \<Longrightarrow> solo_to E x z"
  unfolding solo_to_def by (metis comp_apply funpow_add)

lemma solo_to_step: "solo_to E (poll_step E True pc st) y \<Longrightarrow> solo_to E (pc, st) y"
  by (rule solo_to_trans[rotated]) (auto simp: solo_to_def intro!: exI[of _ 1])

lemma solo_to_bind:
  assumes "solo_to E x (poll_run f k st)"
    and "\<And>y st'. f st = (Ret y, st') \<Longrightarrow> solo_to E (k y, st') (poll_run (g y) k' st')"
  shows "solo_to E x (poll_run (bind f g) k' st)"
proof -
  obtain out st' where f: "f st = (out, st')" by (cases "f st")
  show ?thesis
  proof (cases out)
    case (Ret y)
    then show ?thesis using f assms(1) assms(2)[of y st'] by (auto simp: poll_run_def intro: solo_to_trans)
  next
    case (Raise e)
    then show ?thesis using f assms(1) by (simp add: poll_run_def)
  qed
qed

lemma solo_to_seq:
  "solo_to E x (poll_run f k st) \<Longrightarrow> (\<And>y st'. f st = (Ret y, st') \<Longrightarrow> solo_to E (k y, st') (poll_run g k' st'))
     \<Longrightarrow> solo_to E x (poll_run (seq f g) k' st)"
  unfolding seq_def by (rule solo_to_bind)

lemma solo_to_progress: "solo_to E (PollProgress ts, st) (poll_run (for_each rclone_progress ts) (\<lambda>_. PollJobs None) st)"
proof (induction ts arbitrary: st)
  case Nil
  then show ?case by (intro solo_to_step) (simp add: poll_run_def solo_to_refl)
next
  case (Cons t ts)
  have "solo_to E (PollProgress (t # ts), st) (poll_run (rclone_progress t) (\<lambda>_. PollProgress ts) st)"
    by (intro solo_to_step) (simp add: solo_to_refl)
  then show ?case using Cons.IH by (simp del: poll_step.simps) (rule solo_to_seq)
qed

lemma find_after: "\<forall>x\<in>set xs. \<not> P x \<Longrightarrow> \<forall>x\<in>set ys. P x \<Longrightarrow> List.find P (xs @ ys) = (case ys of [] \<Rightarrow> None | y # _ \<Rightarrow> Some y)"
  by (induction xs) (auto split: list.split)

lemma next_job_after:
  assumes "smap_inv (pre @ suf)"
  shows "next_job (pre @ suf) (if pre = [] then None else Some (fst (last pre))) = (case suf of [] \<Rightarrow> None | job # _ \<Rightarrow> Some job)"
proof (cases "pre = []")
  case True
  then show ?thesis by (cases suf) (simp_all add: next_job_def)
next
  case False
  have s: "sorted_wrt (<) (map fst (pre @ suf))"
    using assms by (simp add: smap_inv_def strict_sorted_iff)
  then have "\<forall>kv\<in>set pre. \<not> fst (last pre) < fst kv"
    using False by (cases pre rule: rev_cases) (auto simp: sorted_wrt_append)
  moreover have "\<forall>kv\<in>set suf. fst (last pre) < fst kv"
    using s False by (auto simp: sorted_wrt_append)
  ultimately show ?thesis
    using False find_after[of pre "\<lambda>kv. fst (last pre) < fst kv" suf] by (simp add: next_job_def)
qed

lemma solo_to_jobs:
  assumes "smap_inv (pre @ suf)" "rc_jobs_id (fst st) = pre @ suf"
  shows "solo_to E (PollJobs (if pre = [] then None else Some (fst (last pre))), st)
           (poll_run (for_each (rclone_job_status E) suf) (\<lambda>_. PollSleep) st)"
  using assms
proof (induction suf arbitrary: pre st)
  case Nil
  then show ?case
    using next_job_after[of pre "[]"] by (intro solo_to_step) (simp add: poll_run_def solo_to_refl)
next
  case (Cons job suf)
  have "solo_to E (PollJobs (Some (fst job)), st') (poll_run (for_each (rclone_job_status E) suf) (\<lambda>_. PollSleep) st')"
    if "rclone_job_status E job st = (Ret y, st')" for y st'
    using Cons.IH[of "pre @ [job]" st'] Cons.prems keeps_run[OF self_kept_job_status that] by (simp add: self_kept_def)
  moreover have "poll_step E True (PollJobs (if pre = [] then None else Some (fst (last pre)))) st
      = poll_run (rclone_job_status E job) (\<lambda>_. PollJobs (Some (fst job))) st"
    unfolding poll_step.simps Cons.prems(2) next_job_after[OF Cons.prems(1)] by simp
  then have "solo_to E (PollJobs (if pre = [] then None else Some (fst (last pre))), st)
      (poll_run (rclone_job_status E job) (\<lambda>_. PollJobs (Some (fst job))) st)"
    by (intro solo_to_step) (simp only: solo_to_refl)
  ultimately show ?case unfolding for_each.simps by (blast intro: solo_to_seq)
qed

lemma solo_to_round:
  assumes "smap_inv (rc_jobs_id (fst st))"
  shows "solo_to E (PollStats, st) (poll_run (rclone_poll E) (\<lambda>_. PollStats) st)"
  unfolding rclone_poll_split
proof (rule solo_to_bind[of E _ _ PollProgress])
  show "solo_to E (PollStats, st) (poll_run (rclone_stats E) PollProgress st)"
    by (intro solo_to_step) (simp add: solo_to_refl)
next
  fix ts st1
  assume st1: "rclone_stats E st = (Ret ts, st1)"
  show "solo_to E (PollProgress ts, st1) (poll_run (seq (for_each rclone_progress ts)
      (bind self (\<lambda>i. seq (for_each (rclone_job_status E) (rc_jobs_id i))
         (on_world (sleep_ms (nat (rc_refresh_rate i) * 1000)))))) (\<lambda>_. PollStats) st1)"
  proof (rule solo_to_seq[OF solo_to_progress])
    fix y st2
    assume st2: "for_each rclone_progress ts st1 = (Ret y, st2)"
    have same: "fst st2 = fst st"
      using keeps_run[OF self_kept_stats st1] keeps_run[OF self_kept.keeps_for_each st2] self_kept_progress
      by (simp add: self_kept_def)
    have self: "poll_run (bind self f) k st2 = poll_run (f (fst st2)) k st2" for f :: "_ \<Rightarrow> (rclone_world, unit) action" and k
      by (cases st2) (simp add: poll_run_def self_def)
    show "solo_to E (PollJobs None, st2) (poll_run (bind self (\<lambda>i. seq (for_each (rclone_job_status E) (rc_jobs_id i))
         (on_world (sleep_ms (nat (rc_refresh_rate i) * 1000))))) (\<lambda>_. PollStats) st2)"
      unfolding self
    proof (rule solo_to_seq)
      show "solo_to E (PollJobs None, st2) (poll_run (for_each (rclone_job_status E) (rc_jobs_id (fst st2))) (\<lambda>_. PollSleep) st2)"
        using solo_to_jobs[of "[]" "rc_jobs_id (fst st2)" st2 E] assms same by simp
    next
      fix y st3
      assume "for_each (rclone_job_status E) (rc_jobs_id (fst st2)) st2 = (Ret y, st3)"
      then have "fst st3 = fst st2"
        using keeps_run[OF self_kept.keeps_for_each] self_kept_job_status by (metis self_kept_def)
      then show "solo_to E (PollSleep, st3) (poll_run (on_world (sleep_ms (nat (rc_refresh_rate (fst st2)) * 1000))) (\<lambda>_. PollStats) st3)"
        by (intro solo_to_step) (cases st3, simp add: poll_run_def self_def bind_def solo_to_refl)
    qed
  qed
qed

section \<open>What the library reports about a job\<close>

datatype job_report = JobRunning | JobDone | JobFailed string

definition job_query :: "int \<Rightarrow> string" where
  "job_query n = object_text [(''jobid'', to_string n)]"

definition read_report :: "json \<Rightarrow> exn + job_report" where
  "read_report j =
     rbind (jindex j ''finished'') (\<lambda>fin.
     rbind (if fin = JNull then Inr False else jget_bool fin) (\<lambda>finished.
       if \<not> finished then Inr JobRunning
       else rbind (rbind (jindex j ''success'') jget_bool) (\<lambda>success.
         if success then Inr JobDone
         else rbind (rbind (jindex j ''error'') jget_string) (\<lambda>e. Inr (JobFailed e)))))"

definition job_reported :: "env \<Rightarrow> trace \<Rightarrow> int \<Rightarrow> exn + job_report" where
  "job_reported E t n =
     (case rclone_rpc E t ''job/status'' (job_query n) of (st, out) \<Rightarrow>
        (case json_parse E out of None \<Rightarrow> Inl JsonParseError
         | Some j \<Rightarrow> if st \<noteq> 200 then Inr JobRunning else read_report j))"

text \<open>The transfer of a job before and after a report.\<close>

definition report_effect :: "job_report \<Rightarrow> TransferMetadata \<Rightarrow> TransferMetadata \<Rightarrow> bool" where
  "report_effect rep m m' \<longleftrightarrow>
     (case rep of
        JobRunning \<Rightarrow> m' = m
      | JobDone \<Rightarrow> tm_status m' = FINISHED \<and> tm_transmission_speed m' = 0 \<and> tm_bytes_size m' = tm_bytes_size m
          \<and> tm_bytes_transferred m' = (100 * tm_bytes_size m) div 100
      | JobFailed e \<Rightarrow> tm_status m' = ERROR \<and> tm_error_code m' = e \<and> tm_transmission_speed m' = 0
          \<and> tm_bytes_size m' = tm_bytes_size m)"

lemma length_show_nat: "n < 10 ^ k \<Longrightarrow> 0 < k \<Longrightarrow> length (show_nat n) \<le> k"
proof (induction n arbitrary: k rule: show_nat.induct)
  case (1 n)
  show ?case
  proof (cases "n < 10")
    case False
    then obtain j where k: "k = Suc j" "0 < j"
      using 1(2,3) by (cases k; cases "k = 1") auto
    then have "n div 10 < 10 ^ j" using 1(2) by (simp add: less_mult_imp_div_less mult.commute)
    then show ?thesis using 1(1)[OF False _ k(2)] False k(1) by (simp add: show_nat.simps[of n])
  qed (use 1(3) in \<open>simp add: show_nat.simps[of n]\<close>)
qed

lemma job_query_fits:
  assumes "- (2 ^ 31) \<le> n" "n < 2 ^ 31"
  shows "length (job_query n) < 100"
proof -
  have "nat (- n) < 10 ^ 10" "nat n < 10 ^ 10" using assms by simp_all
  then have "length (show_nat (nat (- n))) \<le> 10" "length (show_nat (nat n)) \<le> 10" by (simp_all add: length_show_nat)
  then have "length (to_string n) \<le> 11" by (simp add: to_string_def)
  then show ?thesis by (simp add: job_query_def object_text_def quoted_def)
qed

lemma report_effect_set:
  "report_effect JobDone m (set_transmission_speed 0 (set_bytes_transferred ((100 * tm_bytes_size m) div 100) (set_status t FINISHED m)))"
  "report_effect (JobFailed e) m (set_transmission_speed 0 (set_error_code e (set_status t ERROR m)))"
  by (auto simp: report_effect_def set_status_def setter_defs Let_def)

lemma run_job_status:
  assumes "job_reported E (w_trace w) n = Inr rep" "- (2 ^ 31) \<le> n" "n < 2 ^ 31"
  shows "\<exists>w'. rclone_job_status E (r, n) (i, w) = (Ret (), (i, w')) \<and> report_effect rep (w_cells w r) (w_cells w' r)
           \<and> (\<forall>q. q \<noteq> r \<longrightarrow> w_cells w' q = w_cells w q)"
proof -
  obtain st out where rpc: "rclone_rpc E (w_trace w) ''job/status'' (job_query n) = (st, out)" by fastforce
  then obtain j where j: "json_parse E out = Some j" using assms(1) by (auto simp: job_reported_def split: option.splits)
  have size: "tm_bytes_size (set_status t s m) = tm_bytes_size m" for t s m by (simp add: set_status_def mark_def Let_def)
  note run = rclone_job_status_def sprintf_into_def requestRPC_def ask_def parse_json_def on_world_def
    job_query_def[symmetric] job_query_fits[OF assms(2,3)] rpc j
  show ?thesis
  proof (cases "st = 200")
    case True
    then have rep: "read_report j = Inr rep" using assms(1) rpc j by (simp add: job_reported_def)
    then obtain fin finished where f: "jindex j ''finished'' = Inr fin"
        "(if fin = JNull then Inr False else jget_bool fin) = Inr finished"
      by (auto simp: read_report_def rbind_eq_Inr)
    have fb: "(if fin = JNull then return False else of_result (jget_bool fin)) = (return finished :: (rclone_world, bool) action)"
      using f(2) by (auto split: if_splits)
    show ?thesis
    proof (cases finished)
      case False
      then have "rep = JobRunning" using rep f by (simp add: read_report_def)
      then show ?thesis using True f(1) fb False by (simp add: run report_effect_def)
    next
      case fin: True
      then obtain success where s: "rbind (jindex j ''success'') jget_bool = Inr success"
        using rep f by (auto simp: read_report_def rbind_eq_Inr)
      show ?thesis
      proof (cases success)
        case ok: True
        then have "rep = JobDone" using rep f fin s by (simp add: read_report_def)
        then show ?thesis using True f(1) fb fin s ok
          by (simp add: run run_set_status_at run_try_update_cell_Inr set_progress_def timed_def update_cell_def size report_effect_set)
      next
        case fail: False
        then obtain e where e: "rbind (jindex j ''error'') jget_string = Inr e"
          using rep f fin s by (auto simp: read_report_def rbind_eq_Inr)
        then have "rep = JobFailed e" using rep f fin s fail by (simp add: read_report_def)
        then show ?thesis using True f(1) fb fin s fail e
          by (simp add: run run_set_status_at timed_def update_cell_def report_effect_set)
      qed
    qed
  next
    case False
    then have "rep = JobRunning" using assms(1) rpc j by (simp add: job_reported_def)
    then show ?thesis using False by (simp add: run report_effect_def)
  qed
qed

text \<open>The job table as the protocol keeps it: sorted, with numbers that are an \<open>int\<close>.\<close>

definition jobs_inv :: "TransferInterfaceRClone \<Rightarrow> bool" where
  "jobs_inv i \<longleftrightarrow> smap_inv (rc_jobs_id i) \<and> list_all (\<lambda>(r, n). - (2 ^ 31) \<le> n \<and> n < 2 ^ 31) (rc_jobs_id i)"

lemma jobs_inv_put: "jobs_inv i \<Longrightarrow> jobs_inv (i\<lparr>rc_jobs_id := smap_put r (sint (x :: i32)) (rc_jobs_id i)\<rparr>)"
proof -
  have "list_all P (smap_put r v m)" if "list_all P m" "P (r, v)" for P v and m :: "(tm_ref \<times> int) list"
    using that by (induction r v m rule: smap_put.induct) auto
  then show "jobs_inv i \<Longrightarrow> ?thesis"
    using sint_greater_eq[of x] sint_less[of x] by (simp add: jobs_inv_def smap_inv_put)
qed

lemma job_loop:
  assumes "distinct (map fst jobs)" "list_all (\<lambda>(r, n). - (2 ^ 31) \<le> n \<and> n < 2 ^ 31) jobs"
    and "\<And>t r n. (r, n) \<in> set jobs \<Longrightarrow> job_reported E t n = Inr (rep n)"
  shows "\<exists>w'. for_each (rclone_job_status E) jobs (i, w) = (Ret (), (i, w'))
           \<and> (\<forall>(r, n)\<in>set jobs. report_effect (rep n) (w_cells w r) (w_cells w' r))
           \<and> (\<forall>q. q \<notin> fst ` set jobs \<longrightarrow> w_cells w' q = w_cells w q)"
  using assms
proof (induction jobs arbitrary: w)
  case (Cons job jobs)
  obtain r n where job: "job = (r, n)" by (cases job)
  have n: "job_reported E (w_trace w) n = Inr (rep n)" "- (2 ^ 31) \<le> n" "n < 2 ^ 31"
    using Cons.prems(2,3) job by auto
  obtain w1 where w1: "rclone_job_status E job (i, w) = (Ret (), (i, w1))" "report_effect (rep n) (w_cells w r) (w_cells w1 r)"
      "\<forall>q. q \<noteq> r \<longrightarrow> w_cells w1 q = w_cells w q"
    using run_job_status[OF n, of r i] job by auto
  obtain w2 where w2: "for_each (rclone_job_status E) jobs (i, w1) = (Ret (), (i, w2))"
      "\<forall>(r, n)\<in>set jobs. report_effect (rep n) (w_cells w1 r) (w_cells w2 r)"
      "\<forall>q. q \<notin> fst ` set jobs \<longrightarrow> w_cells w2 q = w_cells w1 q"
    using Cons.IH[of w1] Cons.prems by auto
  have "r \<notin> fst ` set jobs" using Cons.prems(1) job by (simp add: image_iff)
  then show ?case using w1 w2 job by (force intro!: exI[of _ w2])
qed simp

text \<open>The statistics of the running transfers change how far they are, not their status.\<close>

definition progress_in :: "tm_ref set \<Rightarrow> rclone_world \<Rightarrow> rclone_world \<Rightarrow> bool" where
  "progress_in S s s' \<longleftrightarrow> fst s' = fst s \<and> (\<forall>q. q \<notin> S \<longrightarrow> w_cells (snd s') q = w_cells (snd s) q)
     \<and> (\<forall>q. tm_status (w_cells (snd s') q) = tm_status (w_cells (snd s) q)
            \<and> tm_bytes_size (w_cells (snd s') q) = tm_bytes_size (w_cells (snd s) q))"

interpretation progress_in: frame_order "progress_in S"
  by unfold_locales (auto simp: progress_in_def)

definition progress_kept :: "rclone_world \<Rightarrow> rclone_world \<Rightarrow> bool" where
  "progress_kept s s' \<longleftrightarrow> progress_in (fst ` set (rc_jobs_id (fst s))) s s'"

interpretation progress_kept: frame_order progress_kept
  by unfold_locales (auto simp: progress_kept_def progress_in_def)

lemma progress_in_cells:
  assumes "r \<in> S"
  shows "keeps (progress_in S) (on_world (try_update_cell r (set_progress p)))"
    and "keeps (progress_in S) (on_world (update_cell r (set_transmission_speed v)))"
  using assms
  by (auto simp: keeps_def progress_in_def on_world_def try_update_cell_def cell_def update_cell_def set_progress_def
      setter_defs split: prod.splits)

lemma keeps_bind_self: "(\<And>s. R s (snd (g (fst s) s))) \<Longrightarrow> keeps R (bind self g)"
  by (auto simp: keeps_def run_bind self_def split_def)

lemma keeps_progress: "keeps progress_kept (rclone_progress t)"
proof -
  let ?body = "\<lambda>meta. bind (of_result (rbind (jindex_const t ''percentage'') jget_i32)) (\<lambda>pct.
           seq (on_world (try_update_cell meta (set_progress pct)))
           (bind (of_result (rbind (jindex_const t ''speedAvg'') jget_i32)) (\<lambda>sp.
            on_world (update_cell meta (set_transmission_speed (word_of_int sp))))))"
  have body: "progress_kept s (snd (?body meta s))" if "meta \<in> fst ` set (rc_jobs_id (fst s))" for meta s
    unfolding progress_kept_def using that
    by (intro keepsD[of "progress_in (fst ` set (rc_jobs_id (fst s)))"] progress_in.frame_rules progress_in_cells)
  have "progress_kept s (snd ((case List.find (\<lambda>(meta, n). n = job_id) (rc_jobs_id (fst s)) of
      None \<Rightarrow> return () | Some (meta, _) \<Rightarrow> ?body meta) s))" for job_id s
  proof (cases "List.find (\<lambda>(meta, n). n = job_id) (rc_jobs_id (fst s))")
    case (Some job)
    then have "job \<in> set (rc_jobs_id (fst s))" unfolding find_Some_iff by (metis nth_mem)
    then have "progress_kept s (snd (?body (fst job) s))" by (intro body) simp
    then show ?thesis unfolding Some by (simp only: option.case split_def)
  qed (simp add: progress_kept.frame_refl)
  then show ?thesis
    unfolding rclone_progress_def
    by (intro progress_kept.keeps_bind progress_kept.keeps_of_result keeps_bind_self)
qed

lemma progress_kept_on_world: "keeps (only_cells {}) f \<Longrightarrow> keeps progress_kept (on_world f)"
  by (auto simp: keeps_def progress_kept_def progress_in_def on_world_def only_cells_def split: prod.splits) (metis snd_conv)+

lemma keeps_stats: "keeps progress_kept (rclone_stats E)"
  unfolding rclone_stats_def
  by (intro progress_kept.frame_rules progress_kept_on_world keeps_requestRPC)
    (auto split: option.split intro!: progress_kept.frame_rules)

lemma poll_round_run:
  assumes "jobs_inv i" "bind (rclone_stats E) (for_each rclone_progress) (i, w) = (Ret (), st1)"
    and "\<And>t r n. (r, n) \<in> set (rc_jobs_id i) \<Longrightarrow> job_reported E t n = Inr (rep n)"
  shows "\<exists>w' w1. rclone_poll E (i, w) = (Ret (), (i, w')) \<and> progress_kept (i, w) (i, w1)
           \<and> (\<forall>(r, n)\<in>set (rc_jobs_id i). report_effect (rep n) (w_cells w1 r) (w_cells w' r))
           \<and> (\<forall>q. q \<notin> fst ` set (rc_jobs_id i) \<longrightarrow> w_cells w' q = w_cells w1 q)"
proof -
  have kept: "progress_kept (i, w) st1"
    using keeps_run[OF progress_kept.keeps_bind[OF keeps_stats progress_kept.keeps_for_each[OF keeps_progress]] assms(2)] .
  then obtain w1 where st1: "st1 = (i, w1)" by (cases st1) (auto simp: progress_kept_def progress_in_def)
  obtain ts st0 where ts: "rclone_stats E (i, w) = (Ret ts, st0)" "for_each rclone_progress ts st0 = (Ret (), (i, w1))"
    using assms(2) st1 by (auto simp: bind_eq_Ret)
  obtain w2 where w2: "for_each (rclone_job_status E) (rc_jobs_id i) (i, w1) = (Ret (), (i, w2))"
      "\<forall>(r, n)\<in>set (rc_jobs_id i). report_effect (rep n) (w_cells w1 r) (w_cells w2 r)"
      "\<forall>q. q \<notin> fst ` set (rc_jobs_id i) \<longrightarrow> w_cells w2 q = w_cells w1 q"
    using job_loop[of "rc_jobs_id i" E rep i w1] assms(1,3) by (auto simp: jobs_inv_def smap_inv_def)
  have "rclone_poll E (i, w) = on_world (sleep_ms (nat (rc_refresh_rate i) * 1000)) (i, w2)"
    unfolding rclone_poll_split using ts w2(1) by (simp add: self_def bind_def)
  then show ?thesis using kept w2(2,3) by (auto simp: st1 on_world_def sleep_ms_def log_event_def)
qed

section \<open>The thread next to the session\<close>

text \<open>
  Steps of the whole: an operation of the session, or a step of the polling thread on the protocol object
  the session owns, with the value the running flag has then.
\<close>

inductive polled_step :: "env \<Rightarrow> poll_pc \<times> session_world \<Rightarrow> poll_pc \<times> session_world \<Rightarrow> bool" for E where
  polled_session: "session_step E st st' \<Longrightarrow> polled_step E (pc, st) (pc, st')"
| polled_thread: "ses_interface s = IfRClone i \<Longrightarrow> poll_step E running pc (i, w) = (pc', (i', w'))
     \<Longrightarrow> polled_step E (pc, (s, w)) (pc', (s\<lparr>ses_interface := IfRClone i'\<rparr>, w'))"

text \<open>
  What holds of the table, and of a transfer \<open>q\<close> between two states: it has left WAITING for good, and
  with the job \<open>n\<close>, or it has left WAITING when it gets its job.
\<close>

definition started :: "tm_ref \<Rightarrow> session_world \<Rightarrow> bool" where
  "started q st \<longleftrightarrow> tm_status (w_cells (snd st) q) \<noteq> WAITING"

definition table_kept :: "tm_ref \<Rightarrow> session_world \<Rightarrow> session_world \<Rightarrow> bool" where
  "table_kept q st st' \<longleftrightarrow>
     (\<forall>i. ses_interface (fst st) = IfRClone i \<longrightarrow>
       (\<exists>i'. ses_interface (fst st') = IfRClone i' \<and> (jobs_inv i \<longrightarrow> jobs_inv i')
          \<and> (\<forall>n. map_of (rc_jobs_id i) q = Some n \<and> started q st \<longrightarrow> map_of (rc_jobs_id i') q = Some n \<and> started q st')
          \<and> (map_of (rc_jobs_id i) q = None \<and> map_of (rc_jobs_id i') q \<noteq> None \<longrightarrow> started q st')))"

lemma table_kept_refl: "table_kept q st st"
  by (auto simp: table_kept_def)

lemma table_kept_trans: "table_kept q st1 st2 \<Longrightarrow> table_kept q st2 st3 \<Longrightarrow> table_kept q st1 st3"
  unfolding table_kept_def by (metis not_None_eq)

text \<open>An operation of the protocol gives a job to its own transfer at most, and only by a download.\<close>

definition jobs_outside :: "tm_ref set \<Rightarrow> rclone_world \<Rightarrow> rclone_world \<Rightarrow> bool" where
  "jobs_outside S s s' \<longleftrightarrow> (jobs_inv (fst s) \<longrightarrow> jobs_inv (fst s'))
     \<and> (\<forall>q. q \<notin> S \<longrightarrow> map_of (rc_jobs_id (fst s')) q = map_of (rc_jobs_id (fst s)) q)
     \<and> (\<forall>q. tm_status (w_cells (snd s) q) \<noteq> WAITING \<longrightarrow> tm_status (w_cells (snd s') q) \<noteq> WAITING)"

interpretation jobs_outside: frame_order "jobs_outside S"
  by unfold_locales (auto simp: jobs_outside_def)

lemma jobs_outside_world: "keeps (only_cells {}) f \<Longrightarrow> keeps (jobs_outside S) (on_world f)"
  by (auto simp: keeps_def jobs_outside_def on_world_def only_cells_def split: prod.splits) (metis snd_conv)

lemma jobs_outside_basic:
  "keeps (jobs_outside S) self" "keeps (jobs_outside S) (sprintf_into n s)"
  "r \<in> S \<Longrightarrow> keeps (jobs_outside S) (on_self (\<lambda>i. i\<lparr>rc_jobs_id := smap_put r (sint (x :: i32)) (rc_jobs_id i)\<rparr>))"
  by (auto simp: keeps_def jobs_outside_def self_def on_self_def sprintf_into_def jobs_inv_put)

lemma jobs_outside_cells:
  "st \<noteq> WAITING \<Longrightarrow> keeps (jobs_outside S) (on_world (set_status_at E r st))"
  "keeps (jobs_outside S) (on_world (update_cell r (set_error_code e)))"
  by (auto simp: keeps_def jobs_outside_def on_world_def run_set_status_at update_cell_def)

lemma jobs_outside_case_option:
  "keeps (jobs_outside S) f \<Longrightarrow> (\<And>x. keeps (jobs_outside S) (g x)) \<Longrightarrow> keeps (jobs_outside S) (case y of None \<Rightarrow> f | Some x \<Rightarrow> g x)"
  by (cases y) simp_all

lemmas outside_rules = jobs_outside.frame_rules jobs_outside_basic jobs_outside_cells jobs_outside_case_option
  jobs_outside_world[OF keeps_requestRPC] jobs_outside_world[OF keeps_cell] jobs_outside_world[OF keeps_ask]
  keeps_issues[THEN jobs_outside_world]

lemma rclone_jobs_outside:
  "keeps (jobs_outside {}) (rclone_upload_file E r)" "keeps (jobs_outside {r}) (rclone_download_file E r dest)"
  "keeps (jobs_outside {}) (rclone_pause_file E r)" "keeps (jobs_outside {}) (rclone_resume_file E r)"
  "keeps (jobs_outside {}) (rclone_hash_file E r)" "keeps (jobs_outside {}) (rclone_cancel_file E r)"
  unfolding rclone_upload_file_def rclone_download_file_def rclone_copyfile_def rclone_pause_file_def
    rclone_resume_file_def rclone_hash_file_def rclone_cancel_file_def Let_def
  by (intro outside_rules; simp)+

text \<open>The same for the operations of the session.\<close>

definition ses_outside :: "tm_ref set \<Rightarrow> session_world \<Rightarrow> session_world \<Rightarrow> bool" where
  "ses_outside S st st' \<longleftrightarrow>
     (\<forall>i. ses_interface (fst st) = IfRClone i \<longrightarrow>
       (\<exists>i'. ses_interface (fst st') = IfRClone i' \<and> jobs_outside S (i, snd st) (i', snd st')))"

interpretation ses_outside: frame_order "ses_outside S"
proof
  show "ses_outside S st st" for st by (simp add: ses_outside_def jobs_outside.frame_refl)
  show "ses_outside S st1 st3" if 1: "ses_outside S st1 st2" and 2: "ses_outside S st2 st3" for st1 st2 st3
    unfolding ses_outside_def
  proof (intro allI impI)
    fix i
    assume "ses_interface (fst st1) = IfRClone i"
    then obtain i2 where i2: "ses_interface (fst st2) = IfRClone i2" "jobs_outside S (i, snd st1) (i2, snd st2)"
      using 1 unfolding ses_outside_def by blast
    then obtain i3 where "ses_interface (fst st3) = IfRClone i3" "jobs_outside S (i2, snd st2) (i3, snd st3)"
      using 2 unfolding ses_outside_def by blast
    then show "\<exists>i'. ses_interface (fst st3) = IfRClone i' \<and> jobs_outside S (i, snd st1) (i', snd st3)"
      using jobs_outside.frame_trans[OF i2(2)] by blast
  qed
qed

lemma ses_outside_quiet:
  assumes "status_only {} st st'" "iface_kept st st'"
  shows "ses_outside S st st'"
  using assms by (simp add: status_only_def iface_kept_def ses_outside_def jobs_outside_def)

lemma ses_outside_keeps_quiet: "keeps (status_only {}) f \<Longrightarrow> keeps iface_kept f \<Longrightarrow> keeps (ses_outside S) f"
  by (simp add: keeps_def ses_outside_quiet)

lemma ses_outside_status: "st \<noteq> WAITING \<Longrightarrow> keeps (ses_outside S) (on_world (set_status_at E r st))"
  by (auto simp: keeps_def ses_outside_def jobs_outside_def on_world_def run_set_status_at)

lemma ses_outside_iface:
  assumes "keeps (jobs_outside S) fr"
  shows "keeps (ses_outside S) (on_iface (dispatch fd fs fr fb))"
proof
  fix st :: session_world
  obtain s w where st: "st = (s, w)" by (cases st)
  show "ses_outside S st (snd (on_iface (dispatch fd fs fr fb) st))"
  proof (cases "ses_interface s")
    case (IfRClone x)
    then show ?thesis using keepsD[OF assms, of "(x, w)"]
      by (auto simp: st on_iface_def dispatch_def ses_outside_def split: prod.split)
  qed (simp_all add: st on_iface_def dispatch_def ses_outside_def split: prod.split)
qed

lemma ses_outside_error: "keeps (ses_outside S) (error_unless E r res)"
  unfolding error_unless_def by (intro ses_outside.frame_rules ses_outside_status) simp

lemma ses_outside_notify: "keeps (ses_outside S) (notify_single E b n r)"
  by (intro ses_outside_keeps_quiet notify_single_frames(1) iface_kept_all(2))

text \<open>The body of an operation after its guard: the new status, the call of the protocol, the common end.\<close>

definition op_body :: "env \<Rightarrow> tm_ref \<Rightarrow> e_status \<Rightarrow> (transfer_interface \<times> world, bool) action \<Rightarrow> bool \<Rightarrow> e_notification_type option \<Rightarrow> (session_world, bool) action" where
  "op_body E r st f b n = seq (on_world (set_status_at E r st)) (bind (on_iface f) (\<lambda>res.
     seq (error_unless E r res) (seq (notify_single E b n r) (return res))))"

lemma op_body_outside:
  assumes "keeps (jobs_outside S) fr" "st \<noteq> WAITING"
  shows "keeps (ses_outside S) (op_body E r st (dispatch fd fs fr fb) b n)"
  unfolding op_body_def
  by (intro ses_outside.frame_rules ses_outside_status ses_outside_iface ses_outside_error ses_outside_notify assms)

lemma op_body_started:
  assumes "keeps (jobs_outside S) fr" "st \<noteq> WAITING" "ses_interface s = IfRClone i"
  shows "started r (snd (op_body E r st (dispatch fd fs fr fb) b n (s, w)))"
proof -
  let ?w = "snd (set_status_at E r st w)"
  have "keeps (ses_outside S) (bind (on_iface (dispatch fd fs fr fb)) (\<lambda>res.
      seq (error_unless E r res) (seq (notify_single E b n r) (return res))))" (is "keeps _ ?rest")
    by (intro ses_outside.frame_rules ses_outside_iface ses_outside_error ses_outside_notify assms)
  then have "ses_outside S (s, ?w) (snd (?rest (s, ?w)))" by (rule keepsD)
  moreover have "started r (s, ?w)" using assms(2) by (simp add: started_def run_set_status_at)
  moreover have "op_body E r st (dispatch fd fs fr fb) b n (s, w) = ?rest (s, ?w)"
    by (simp add: op_body_def run_set_status_at on_world_def)
  ultimately show ?thesis using assms(3) by (auto simp: started_def ses_outside_def jobs_outside_def)
qed

lemmas ses_outside_rules = ses_outside.frame_rules
  ses_outside_keeps_quiet[OF wrong_state_frames(1) iface_kept_notifications(4)]
  ses_outside_keeps_quiet[OF warn_unless_type_frames(1) iface_kept_notifications(3)]
  ses_outside_keeps_quiet[OF status_only_self iface_kept_basic(2)]
  status_only_issues[THEN ses_outside_keeps_quiet, OF iface_kept_basic(1)]
  ses_outside_status ses_outside_error ses_outside_notify

lemma iface_outside:
  "keeps (ses_outside {}) (on_iface (iface_upload_file E r))" "keeps (ses_outside {r}) (on_iface (iface_download_file E r dest))"
  "keeps (ses_outside {}) (on_iface (iface_pause_file E r))" "keeps (ses_outside {}) (on_iface (iface_resume_file E r))"
  "keeps (ses_outside {}) (on_iface (iface_hash_file E r))" "keeps (ses_outside {}) (on_iface (iface_cancel_file E r))"
  unfolding iface_upload_file_def iface_download_file_def iface_pause_file_def iface_resume_file_def
    iface_hash_file_def iface_cancel_file_def
  by (intro ses_outside_iface rclone_jobs_outside)+

lemma run_op_outside: "keeps (ses_outside (case op of OpDownload _ \<Rightarrow> {r} | _ \<Rightarrow> {})) (run_op E op r b)"
  by (cases op; simp add: session_op_defs; intro ses_outside_rules iface_outside; simp)

text \<open>A download leaves its transfer started, whether it returns or throws.\<close>

lemma session_download_body:
  assumes "tm_status (w_cells w r) = WAITING"
  shows "\<exists>v. w_cells v = w_cells w \<and> session_download_file E r dest b (s, w)
           = op_body E r DOWNLOADING (iface_download_file E r dest) b None (s, v)"
proof -
  obtain wa where wa: "warn_unless_type Downloader ''download_file'' (s, w) = (Ret (), (s, wa))" "only_warned w wa"
    using run_warn_unless_type by blast
  then have "w_cells wa = w_cells w" by (simp add: only_warned_def)
  then show ?thesis using assms wa(1)
    by (intro exI[of _ "wa\<lparr>w_trace := w_trace wa @ [EvSleep 1000]\<rparr>"])
      (simp add: session_download_file_def op_body_def cell_def sleep_ms_def log_event_def)
qed

lemma download_started:
  assumes "tm_status (w_cells w r) = WAITING" "ses_interface s = IfRClone i"
  shows "started r (snd (session_download_file E r dest b (s, w)))"
proof -
  obtain v where "session_download_file E r dest b (s, w) = op_body E r DOWNLOADING (iface_download_file E r dest) b None (s, v)"
    using session_download_body[OF assms(1)] by metis
  then show ?thesis
    unfolding iface_download_file_def
    using op_body_started[OF rclone_jobs_outside(2) _ assms(2), of DOWNLOADING] by simp
qed

lemma table_kept_outside:
  assumes "ses_outside S st st'" "q \<notin> S"
  shows "table_kept q st st'"
  unfolding table_kept_def
proof (intro allI impI)
  fix i
  assume "ses_interface (fst st) = IfRClone i"
  then obtain i' where "ses_interface (fst st') = IfRClone i'" "jobs_outside S (i, snd st) (i', snd st')"
    using assms(1) unfolding ses_outside_def by blast
  then show "\<exists>i'. ses_interface (fst st') = IfRClone i' \<and> (jobs_inv i \<longrightarrow> jobs_inv i')
          \<and> (\<forall>n. map_of (rc_jobs_id i) q = Some n \<and> started q st \<longrightarrow> map_of (rc_jobs_id i') q = Some n \<and> started q st')
          \<and> (map_of (rc_jobs_id i) q = None \<and> map_of (rc_jobs_id i') q \<noteq> None \<longrightarrow> started q st')"
    using assms(2) by (auto simp: jobs_outside_def started_def)
qed

lemma table_kept_op: "keeps (table_kept q) (run_op E op r b)"
proof
  fix st :: session_world
  obtain s w where st: "st = (s, w)" by (cases st)
  let ?S = "case op of OpDownload _ \<Rightarrow> {r} | _ \<Rightarrow> {}"
  have out: "ses_outside ?S st (snd (run_op E op r b st))" by (rule keepsD[OF run_op_outside])
  show "table_kept q st (snd (run_op E op r b st))"
  proof (cases "q \<in> ?S")
    case True
    then obtain dest where op: "op = OpDownload dest" "q = r" by (cases op) auto
    show ?thesis
    proof (cases "tm_status (w_cells w r) = WAITING")
      case False
      then obtain w' where "run_op E op r b (s, w) = (Ret False, (s, w'))" "only_warned w w'"
        using run_op_refused[of op w r E b s] op(1) by auto
      then show ?thesis by (auto simp: st table_kept_def started_def only_warned_def)
    next
      case waiting: True
      have "started r (snd (run_op E op r b st))" if "ses_interface s = IfRClone i" for i
        using download_started[OF waiting that] op(1) by (simp add: st)
      then show ?thesis
        using out op waiting by (auto simp: table_kept_def ses_outside_def jobs_outside_def started_def st)
    qed
  qed (rule table_kept_outside[OF out])
qed

interpretation table_kept: session_frame "table_kept q"
proof
  show "table_kept q st st'" if "status_only {} st st'" "iface_kept st st'" for st st'
    using table_kept_outside[OF ses_outside_quiet[OF that, of "{}"]] by simp
qed (rule table_kept_refl table_kept_trans table_kept_op; assumption?)+

text \<open>The steps of the thread keep the table and start or end transfers.\<close>

lemma job_status_outside: "keeps (jobs_outside {}) (rclone_job_status E job)"
proof -
  have "keeps (jobs_outside {}) (on_world (try_update_cell r (set_progress p)))"
    "keeps (jobs_outside {}) (on_world (update_cell r (set_transmission_speed v)))" for r p v
    by (auto simp: keeps_def jobs_outside_def on_world_def try_update_cell_def cell_def update_cell_def set_progress_def)
  then show ?thesis
    unfolding rclone_job_status_def split_def by (intro outside_rules; simp)
qed

lemma poll_run_state: "snd (poll_run f k st) = snd (f st)"
  by (auto simp: poll_run_def split: prod.split outcome.split)

lemma poll_step_kept: "jobs_outside {} st (snd (poll_step E running pc st)) \<and> self_kept st (snd (poll_step E running pc st))"
proof (cases pc)
  case PollStats
  then show ?thesis using keepsD[OF keeps_stats[of E], of st]
    by (auto simp: poll_run_state progress_kept_def progress_in_def jobs_outside_def self_kept_def)
next
  case (PollProgress ts)
  have "progress_kept st (snd (rclone_progress t st))" for t by (rule keepsD[OF keeps_progress])
  then show ?thesis using PollProgress
    by (cases ts) (auto simp: poll_run_state progress_kept_def progress_in_def jobs_outside_def self_kept_def)
next
  case (PollJobs k)
  have "jobs_outside {} st (snd (rclone_job_status E job st))" "self_kept st (snd (rclone_job_status E job st))" for job
    by (rule keepsD[OF job_status_outside] keepsD[OF self_kept_job_status])+
  then show ?thesis
    using PollJobs by (auto simp: poll_run_state jobs_outside.frame_refl self_kept.frame_refl split: option.split)
next
  case PollSleep
  then show ?thesis
    by (cases st) (simp add: poll_run_state self_def bind_def on_world_def sleep_ms_def log_event_def jobs_outside_def self_kept_def)
qed (simp_all add: jobs_outside.frame_refl self_kept.frame_refl)

lemma polled_step_table_kept: "polled_step E x y \<Longrightarrow> table_kept q (snd x) (snd y)"
proof (induction rule: polled_step.induct)
  case (polled_thread s i running pc w pc' i' w')
  then show ?case
    using poll_step_kept[of "(i, w)" E running pc]
    by (auto simp: table_kept_def self_kept_def jobs_outside_def started_def)
qed (simp add: table_kept.session_step_kept)

lemma polled_table_kept: "(polled_step E)\<^sup>*\<^sup>* x y \<Longrightarrow> table_kept q (snd x) (snd y)"
  by (induction rule: rtranclp_induct)
    (auto intro: table_kept.frame_refl table_kept.frame_trans polled_step_table_kept)
section \<open>A download and the round after it\<close>

lemma run_copyfile_True:
  assumes "rclone_copyfile E r text (i, w) = (Ret True, (i', w'))"
  shows "\<exists>n :: i32. i' = i\<lparr>rc_jobs_id := smap_put r (sint n) (rc_jobs_id i)\<rparr> \<and> w_cells w' = w_cells w"
proof -
  have rpc: "w_cells (snd (requestRPC E m x v)) = w_cells v" for m x v
    using keepsD[OF keeps_requestRPC[of "{}" E m x], of v] by (simp add: only_cells_empty)
  obtain req st1 res st2 where 1: "sprintf_into 1000 text (i, w) = (Ret req, st1)"
      "on_world (requestRPC E ''operations/copyfile'' req) st1 = (Ret res, st2)"
      "(case res of None \<Rightarrow> return False
        | Some j \<Rightarrow> bind (of_result (case jmember j ''jobid'' of None \<Rightarrow> Inl JsonTypeError | Some v \<Rightarrow> jget_int v)) (\<lambda>job.
           seq (on_self (\<lambda>i. i\<lparr>rc_jobs_id := smap_put r (sint (word_of_int job :: i32)) (rc_jobs_id i)\<rparr>))
           (seq (on_world (requestRPC E ''options/local'' [])) (return True)))) st2 = (Ret True, (i', w'))"
    using assms unfolding rclone_copyfile_def bind_eq_Ret by blast
  then have st: "st1 = (i, w)" by (simp add: sprintf_into_def split: if_splits)
  then obtain w2 where w2: "st2 = (i, w2)" "w_cells w2 = w_cells w"
    using 1(2) rpc[of "''operations/copyfile''" req w] by (auto simp: on_world_def split: prod.splits)
  obtain j where "res = Some j" using 1(3) by (cases res) simp_all
  then obtain job where tail: "seq (on_self (\<lambda>i. i\<lparr>rc_jobs_id := smap_put r (sint (word_of_int job :: i32)) (rc_jobs_id i)\<rparr>))
           (seq (on_world (requestRPC E ''options/local'' [])) (return True)) (i, w2) = (Ret True, (i', w'))"
    using 1(3) w2(1) by (auto simp: bind_eq_Ret of_result_eq_Ret)
  then show ?thesis
    using rpc[of "''options/local''" "[]" w2] w2(2)
    by (auto simp: seq_eq_Ret on_self_def on_world_def split: prod.splits)
qed

lemma run_rclone_download_True:
  assumes "rclone_download_file E r dest (i, w) = (Ret True, (i', w'))"
  shows "\<exists>n :: i32. i' = i\<lparr>rc_jobs_id := smap_put r (sint n) (rc_jobs_id i)\<rparr> \<and> w_cells w' = w_cells w"
proof -
  have "\<exists>req v. rclone_copyfile E r req (i, v) = (Ret True, (i', w')) \<and> w_cells v = w_cells w"
    using assms
    by (auto simp: rclone_download_file_def Let_def self_def on_world_def cell_def ask_def bind_eq_Ret seq_eq_Ret
        of_outcome_eq_Ret split: if_splits) (intro exI conjI, assumption, simp)
  then obtain req v where "rclone_copyfile E r req (i, v) = (Ret True, (i', w'))" "w_cells v = w_cells w" by blast
  then show ?thesis using run_copyfile_True by metis
qed

lemma session_download_run:
  assumes "session_download_file E r dest b (s, w) = (Ret True, (s1, w1))" "ses_interface s = IfRClone i"
  shows "\<exists>n :: i32. s1 = s\<lparr>ses_interface := IfRClone (i\<lparr>rc_jobs_id := smap_put r (sint n) (rc_jobs_id i)\<rparr>)\<rparr>
           \<and> tm_status (w_cells w1 r) = DOWNLOADING"
proof -
  have waiting: "tm_status (w_cells w r) = WAITING"
    using run_op_refused[of "OpDownload dest" w r E b s] assms(1) by fastforce
  obtain v where v: "session_download_file E r dest b (s, w) = op_body E r DOWNLOADING (iface_download_file E r dest) b None (s, v)"
    using session_download_body[OF waiting] by metis
  let ?wb = "snd (set_status_at E r DOWNLOADING v)"
  have down: "tm_status (w_cells ?wb r) = DOWNLOADING" by (simp add: run_set_status_at)
  obtain res st2 where op: "on_iface (iface_download_file E r dest) (s, ?wb) = (Ret res, st2)"
      "seq (error_unless E r res) (seq (notify_single E b None r) (return res)) st2 = (Ret True, (s1, w1))"
    using assms(1) unfolding v op_body_def by (auto simp: run_set_status_at bind_eq_Ret)
  obtain st3 where tail: "error_unless E r res st2 = (Ret (), st3)" "notify_single E b None r st3 = (Ret (), (s1, w1))" "res"
    using op(2) by (auto simp: seq_eq_Ret)
  obtain out i' w' where rc: "rclone_download_file E r dest (i, ?wb) = (out, (i', w'))" by (metis prod.exhaust)
  then have st2: "out = Ret True" "st2 = (s\<lparr>ses_interface := IfRClone i'\<rparr>, w')" "st3 = st2"
    using op(1) assms(2) tail(1,3) by (auto simp: on_iface_def iface_download_file_def dispatch_def error_unless_def)
  have "ses_frame {r} st3 (s1, w1)" "iface_kept st3 (s1, w1)" "status_only {} st3 (s1, w1)"
    using keeps_run[OF notify_single_frames(2) tail(2)] keeps_run[OF iface_kept_all(2) tail(2)]
      keeps_run[OF notify_single_frames(1) tail(2)] by auto
  then have "s1 = fst st3" "tm_status (w_cells w1 r) = tm_status (w_cells (snd st3) r)"
    by (simp_all add: ses_frame_def iface_kept_def status_only_def)
  then show ?thesis
    using run_rclone_download_True[OF rc[unfolded st2(1)]] st2 down by auto
qed

section \<open>Properties\<close>

text \<open>
  C21: what the library reports decides. When the statistics of a round can be read and the library gives
  a readable report for every job, the round returns, keeps the job table, and gives every transfer of
  a job the status reported: unchanged while the job runs, FINISHED with all bytes when it is done, ERROR
  with the reported text when it failed. Transfers without a job are not touched.
\<close>

theorem poll_round_follows_reports:
  assumes "jobs_inv i" "bind (rclone_stats E) (for_each rclone_progress) (i, w) = (Ret (), st1)"
    and "\<And>t r n. (r, n) \<in> set (rc_jobs_id i) \<Longrightarrow> job_reported E t n = Inr (rep n)"
  shows "\<exists>w'. rclone_poll E (i, w) = (Ret (), (i, w'))
           \<and> (\<forall>(r, n)\<in>set (rc_jobs_id i).
                case rep n of
                  JobRunning \<Rightarrow> tm_status (w_cells w' r) = tm_status (w_cells w r)
                | JobDone \<Rightarrow> tm_status (w_cells w' r) = FINISHED \<and> tm_transmission_speed (w_cells w' r) = 0
                    \<and> tm_bytes_transferred (w_cells w' r) = (100 * tm_bytes_size (w_cells w r)) div 100
                | JobFailed e \<Rightarrow> tm_status (w_cells w' r) = ERROR \<and> tm_error_code (w_cells w' r) = e
                    \<and> tm_transmission_speed (w_cells w' r) = 0)
           \<and> (\<forall>q. q \<notin> fst ` set (rc_jobs_id i) \<longrightarrow> w_cells w' q = w_cells w q)"
proof -
  obtain w' w1 where run: "rclone_poll E (i, w) = (Ret (), (i, w'))" "progress_kept (i, w) (i, w1)"
      "\<forall>(r, n)\<in>set (rc_jobs_id i). report_effect (rep n) (w_cells w1 r) (w_cells w' r)"
      "\<forall>q. q \<notin> fst ` set (rc_jobs_id i) \<longrightarrow> w_cells w' q = w_cells w1 q"
    using poll_round_run[OF assms(1,2), of rep] assms(3) by blast
  have "case rep n of
          JobRunning \<Rightarrow> tm_status (w_cells w' r) = tm_status (w_cells w r)
        | JobDone \<Rightarrow> tm_status (w_cells w' r) = FINISHED \<and> tm_transmission_speed (w_cells w' r) = 0
            \<and> tm_bytes_transferred (w_cells w' r) = (100 * tm_bytes_size (w_cells w r)) div 100
        | JobFailed e \<Rightarrow> tm_status (w_cells w' r) = ERROR \<and> tm_error_code (w_cells w' r) = e
            \<and> tm_transmission_speed (w_cells w' r) = 0" if "(r, n) \<in> set (rc_jobs_id i)" for r n
    using run(2,3) that by (cases "rep n") (auto simp: report_effect_def progress_kept_def progress_in_def)
  moreover have "w_cells w' q = w_cells w q" if "q \<notin> fst ` set (rc_jobs_id i)" for q
    using run(2,4) that by (simp add: progress_kept_def progress_in_def)
  ultimately show ?thesis using run(1) by blast
qed

text \<open>
  C20: a download with RClone from its start to its end. When the session's download returns true,
  the transfer is DOWNLOADING and has a job in the table; a round of the polling thread after that, with
  readable reports, leaves it DOWNLOADING as long as the library reports the job as running, and ends it as
  FINISHED or ERROR as the library reports.
\<close>

theorem rclone_download_ends_as_reported:
  assumes "session_download_file E r dest b (s, w) = (Ret True, (s1, w1))" "ses_interface s = IfRClone i" "jobs_inv i"
  shows "\<exists>i1 n. ses_interface s1 = IfRClone i1 \<and> jobs_inv i1 \<and> (r, n) \<in> set (rc_jobs_id i1)
           \<and> tm_status (w_cells w1 r) = DOWNLOADING
           \<and> (\<forall>rep st2. bind (rclone_stats E) (for_each rclone_progress) (i1, w1) = (Ret (), st2)
                \<and> (\<forall>t m k. (m, k) \<in> set (rc_jobs_id i1) \<longrightarrow> job_reported E t k = Inr (rep k)) \<longrightarrow>
                (\<exists>w2. rclone_poll E (i1, w1) = (Ret (), (i1, w2))
                   \<and> tm_status (w_cells w2 r)
                       = (case rep n of JobRunning \<Rightarrow> DOWNLOADING | JobDone \<Rightarrow> FINISHED | JobFailed e \<Rightarrow> ERROR)))"
proof -
  obtain n :: i32 where n: "s1 = s\<lparr>ses_interface := IfRClone (i\<lparr>rc_jobs_id := smap_put r (sint n) (rc_jobs_id i)\<rparr>)\<rparr>"
      "tm_status (w_cells w1 r) = DOWNLOADING"
    using session_download_run[OF assms(1,2)] by blast
  let ?i = "i\<lparr>rc_jobs_id := smap_put r (sint n) (rc_jobs_id i)\<rparr>"
  have inv: "jobs_inv ?i" using assms(3) by (rule jobs_inv_put)
  have job: "(r, sint n) \<in> set (rc_jobs_id ?i)"
    using map_of_SomeD[of "rc_jobs_id ?i" r "sint n"] by simp
  have "\<exists>w2. rclone_poll E (?i, w1) = (Ret (), (?i, w2))
          \<and> tm_status (w_cells w2 r) = (case rep (sint n) of JobRunning \<Rightarrow> DOWNLOADING | JobDone \<Rightarrow> FINISHED | JobFailed e \<Rightarrow> ERROR)"
    if stats: "bind (rclone_stats E) (for_each rclone_progress) (?i, w1) = (Ret (), st2)"
      and reports: "\<forall>t m k. (m, k) \<in> set (rc_jobs_id ?i) \<longrightarrow> job_reported E t k = Inr (rep k)" for rep st2
  proof -
    obtain w2 v where "rclone_poll E (?i, w1) = (Ret (), (?i, w2))" "progress_kept (?i, w1) (?i, v)"
        "\<forall>(m, k)\<in>set (rc_jobs_id ?i). report_effect (rep k) (w_cells v m) (w_cells w2 m)"
      using poll_round_run[OF inv stats, of rep] reports by blast
    then show ?thesis using job n(2)
      by (cases "rep (sint n)") (auto simp: report_effect_def progress_kept_def progress_in_def)
  qed
  then show ?thesis using n inv job by (intro exI[of _ ?i] exI[of _ "sint n"]) auto
qed

text \<open>
  C19: along every interleaving of session operations with the steps of the polling thread, whatever the
  library answers and whether the operations return or throw, the job table of a session that uses RClone
  stays sorted with numbers that are an int, a transfer that has a job keeps this job for good, and
  every transfer with a job has been started, so that no second job is ever made for it.
\<close>

theorem one_job_per_transfer:
  assumes "(polled_step E)\<^sup>*\<^sup>* (pc, (s, w)) (pc', (s', w'))" "ses_interface s = IfRClone i" "jobs_inv i"
    and "\<And>r n. map_of (rc_jobs_id i) r = Some n \<Longrightarrow> tm_status (w_cells w r) \<noteq> WAITING"
  shows "\<exists>i'. ses_interface s' = IfRClone i' \<and> jobs_inv i' \<and> map_of (rc_jobs_id i) \<subseteq>\<^sub>m map_of (rc_jobs_id i')
           \<and> (\<forall>r n. map_of (rc_jobs_id i') r = Some n \<longrightarrow> tm_status (w_cells w' r) \<noteq> WAITING)"
proof -
  have kept: "table_kept q (s, w) (s', w')" for q using polled_table_kept[OF assms(1), of q] by simp
  obtain i' where i': "ses_interface s' = IfRClone i'" "jobs_inv i'"
    using kept[of 0] assms(2,3) by (auto simp: table_kept_def)
  have "map_of (rc_jobs_id i') q = Some n" if "map_of (rc_jobs_id i) q = Some n" for q n
    using kept[of q] assms(2,4) i'(1) that by (auto simp: table_kept_def started_def)
  moreover have "tm_status (w_cells w' q) \<noteq> WAITING" if "map_of (rc_jobs_id i') q = Some n" for q n
    using kept[of q] assms(2,4) i'(1) that by (cases "map_of (rc_jobs_id i) q") (auto simp: table_kept_def started_def)
  ultimately show ?thesis using i' by (auto simp: map_le_def)
qed

text \<open>
  Cancelling does not last: after a successful cancellation of a transfer that has a job the transfer is
  CANCELLED, but the job stays in the table, and the first round in which the library reports it as ended
  (a stopped job ends with an error) makes the transfer ERROR or FINISHED.
\<close>

theorem cancel_overtaken_by_poll:
  assumes "session_cancel_file E r b (s, w) = (Ret True, (s1, w1))" "ses_interface s = IfRClone i" "jobs_inv i"
    and "map_of (rc_jobs_id i) r = Some n" "rep n \<noteq> JobRunning"
    and "bind (rclone_stats E) (for_each rclone_progress) (i, w1) = (Ret (), st2)"
    and "\<And>t m k. (m, k) \<in> set (rc_jobs_id i) \<Longrightarrow> job_reported E t k = Inr (rep k)"
  shows "ses_interface s1 = IfRClone i \<and> tm_status (w_cells w1 r) = CANCELLED
         \<and> (\<exists>w2. rclone_poll E (i, w1) = (Ret (), (i, w2)) \<and> tm_status (w_cells w2 r) \<in> {FINISHED, ERROR})"
proof -
  have "allowed OpCancel (tm_status (w_cells w r))"
    using run_op_refused[of OpCancel w r E b s] assms(1) by fastforce
  then obtain res st3 where op: "on_iface (iface_cancel_file E r) (s, snd (set_status_at E r CANCELLED w)) = (Ret res, st3)"
      "seq (error_unless E r res) (seq (notify_single E b (Some CANCEL_TRANSFER) r) (return res)) st3 = (Ret True, (s1, w1))"
    using assms(1) by (auto simp: session_cancel_file_def cell_def run_set_status_at bind_eq_Ret)
  then have tail: "notify_single E b (Some CANCEL_TRANSFER) r st3 = (Ret (), (s1, w1))"
    by (auto simp: seq_eq_Ret error_unless_def split: if_splits)
  have "keeps self_kept (rclone_cancel_file E r)" unfolding rclone_cancel_file_def by (intro self_rules)
  moreover have "keeps (status_only {}) (rclone_cancel_file E r)"
    unfolding rclone_cancel_file_def
    by (intro status_rules status_only_of_only_cells[OF keeps_requestRPC]) (auto simp: sprintf_into_def intro!: status_rules
        status_only_of_only_cells[OF keeps_requestRPC] split: option.split)
  ultimately have "ses_interface (fst st3) = IfRClone i" "tm_status (w_cells (snd st3) r) = CANCELLED"
    using op(1) assms(2) keepsD[of self_kept "rclone_cancel_file E r" "(i, snd (set_status_at E r CANCELLED w))"]
      keepsD[of "status_only {}" "rclone_cancel_file E r" "(i, snd (set_status_at E r CANCELLED w))"]
    by (auto simp: on_iface_def iface_cancel_file_def dispatch_def self_kept_def status_only_def run_set_status_at split: prod.splits)
  then have s1: "ses_interface s1 = IfRClone i" "tm_status (w_cells w1 r) = CANCELLED"
    using keeps_run[OF iface_kept_all(2) tail] keeps_run[OF notify_single_frames(1)[of "{}"] tail]
    by (simp_all add: iface_kept_def status_only_def)
  have reports: "\<forall>t m k. (m, k) \<in> set (rc_jobs_id i) \<longrightarrow> job_reported E t k = Inr (rep k)" using assms(7) by blast
  obtain w2 v where "rclone_poll E (i, w1) = (Ret (), (i, w2))" "progress_kept (i, w1) (i, v)"
      "\<forall>(m, k)\<in>set (rc_jobs_id i). report_effect (rep k) (w_cells v m) (w_cells w2 m)"
    using poll_round_run[OF assms(3,6), of rep] reports by blast
  then show ?thesis
    using s1 map_of_SomeD[OF assms(4)] assms(5) by (cases "rep n") (auto simp: report_effect_def)
qed

definition job_env :: env where
  "job_env = quiet_env\<lparr>json_parse := (\<lambda>_. Some (JObj [(''jobid'', JInt 7), (''finished'', JBool True),
     (''success'', JBool False), (''error'', JStr ''context canceled'')]))\<rparr>"

definition rclone_sample :: "TransferInterfaceRClone \<Rightarrow> TransferSession" where
  "rclone_sample i = sample_session\<lparr>ses_type := Downloader, ses_interface := IfRClone i\<rparr>"

definition one_job :: TransferInterfaceRClone where
  "one_job = (rclone_defaults ''/w'')\<lparr>rc_jobs_id := [(0, 7)]\<rparr>"

lemma job_env_reports: "job_reported job_env t n = Inr (JobFailed ''context canceled'')"
  by (simp add: job_reported_def job_env_def quiet_env_def read_report_def jindex_def)

lemma job_env_stats: "\<exists>st1. bind (rclone_stats job_env) (for_each rclone_progress) (i, w) = (Ret (), st1)"
  by (simp add: rclone_stats_def job_env_def quiet_env_def requestRPC_def ask_def parse_json_def on_world_def jindex_def
      bind_def)

lemma jobs_inv_samples: "jobs_inv one_job" "jobs_inv (rclone_defaults d)"
  by (simp_all add: jobs_inv_def one_job_def rclone_defaults_def smap_inv_def)

theorem poll_round_follows_reports_witness:
  "\<exists>w'. rclone_poll job_env (one_job, world_init) = (Ret (), (one_job, w')) \<and> tm_status (w_cells w' 0) = ERROR
     \<and> w_cells w' 1 = w_cells world_init 1"
proof -
  obtain st1 where st1: "bind (rclone_stats job_env) (for_each rclone_progress) (one_job, world_init) = (Ret (), st1)"
    using job_env_stats by blast
  show ?thesis
    using poll_round_follows_reports[OF jobs_inv_samples(1) st1, of "\<lambda>_. JobFailed ''context canceled''"] job_env_reports
    by (auto simp: one_job_def rclone_defaults_def)
qed

text \<open>A copy request that the library accepts, and the download that makes it.\<close>

lemma sample_copy:
  "length req < 1000 \<Longrightarrow> fst (rclone_copyfile job_env 0 req (i, w)) = Ret True"
  by (simp add: rclone_copyfile_def sprintf_into_def requestRPC_def ask_def parse_json_def job_env_def quiet_env_def
      on_world_def jmember_def on_self_def)

lemma sample_request_fits:
  "length (http_request (rclone_defaults ''/w'') (m_ip (tm_src sample_tm)) (tm_file_path sample_tm) ''/d/run1.hdf5'') < 1000"
  by (simp add: http_request_def object_text_def quoted_def c_str_def to_string_def show_nat.simps bool_text_def
      rclone_defaults_def sample_tm_def)

lemma sample_paths:
  "path_append ''/d'' (get_file_name sample_tm) = ''/d/run1.hdf5''" "str_contains (tm_file_path sample_tm) ''..'' = False"
  by code_simp+

lemma sample_rclone_download:
  assumes "tm_file_path (w_cells w 0) = tm_file_path sample_tm" "tm_src (w_cells w 0) = tm_src sample_tm"
  shows "fst (rclone_download_file job_env 0 ''/d'' (rclone_defaults ''/w'', w)) = Ret True"
proof -
  have name: "get_file_name (w_cells w 0) = get_file_name sample_tm" using assms(1) by (simp add: get_file_name_def)
  have env: "rc_protocol (rclone_defaults ''/w'') = ''http''" "fs_relative job_env t p q = Ret p" for t p q
    by (simp_all add: rclone_defaults_def job_env_def quiet_env_def)
  show ?thesis
    by (simp add: rclone_download_file_def self_def on_world_def cell_def ask_def env assms name sample_paths
        sample_copy[OF sample_request_fits] bind_def)
qed

theorem rclone_download_ends_as_reported_witness:
  "\<exists>s1 w1 i1 w2. session_download_file job_env 0 ''/d'' True (rclone_sample (rclone_defaults ''/w''), sample_world WAITING WAITING)
       = (Ret True, (s1, w1)) \<and> tm_status (w_cells w1 0) = DOWNLOADING
     \<and> rclone_poll job_env (i1, w1) = (Ret (), (i1, w2)) \<and> tm_status (w_cells w2 0) = ERROR"
proof -
  let ?st = "(rclone_sample (rclone_defaults ''/w''), sample_world WAITING WAITING)"
  obtain out s1 w1 where run: "session_download_file job_env 0 ''/d'' True ?st = (out, (s1, w1))" by (metis prod.exhaust)
  have waiting: "tm_status (w_cells (sample_world WAITING WAITING) 0) = WAITING" by (simp add: sample_world_def)
  obtain v where v: "w_cells v = w_cells (sample_world WAITING WAITING)"
      "session_download_file job_env 0 ''/d'' True ?st = op_body job_env 0 DOWNLOADING (iface_download_file job_env 0 ''/d'')
         True None (rclone_sample (rclone_defaults ''/w''), v)"
    using session_download_body[of "sample_world WAITING WAITING" 0 job_env "''/d''" True] waiting by blast
  have "fst (rclone_download_file job_env 0 ''/d'' (rclone_defaults ''/w'', snd (set_status_at job_env 0 DOWNLOADING v))) = Ret True"
    by (rule sample_rclone_download) (simp_all add: run_set_status_at v(1) sample_world_def set_status_def mark_def Let_def)
  then have "fst (session_download_file job_env 0 ''/d'' True ?st) = Ret True"
    unfolding v(2) op_body_def
    by (auto simp: run_set_status_at on_iface_def iface_download_file_def dispatch_def rclone_sample_def error_unless_def
        notify_single_def run_bind seq_def split: prod.splits)
  then have run: "session_download_file job_env 0 ''/d'' True ?st = (Ret True, (s1, w1))" using run by simp
  have "ses_interface (rclone_sample (rclone_defaults ''/w'')) = IfRClone (rclone_defaults ''/w'')"
    by (simp add: rclone_sample_def)
  from rclone_download_ends_as_reported[OF run this jobs_inv_samples(2)] obtain i1 n where i1:
      "tm_status (w_cells w1 0) = DOWNLOADING"
      "\<And>rep st2. bind (rclone_stats job_env) (for_each rclone_progress) (i1, w1) = (Ret (), st2)
         \<and> (\<forall>t m k. (m, k) \<in> set (rc_jobs_id i1) \<longrightarrow> job_reported job_env t k = Inr (rep k)) \<Longrightarrow>
         \<exists>w2. rclone_poll job_env (i1, w1) = (Ret (), (i1, w2))
           \<and> tm_status (w_cells w2 0) = (case rep n of JobRunning \<Rightarrow> DOWNLOADING | JobDone \<Rightarrow> FINISHED | JobFailed e \<Rightarrow> ERROR)"
    by blast
  show ?thesis
    using run i1(1) i1(2)[of _ "\<lambda>_. JobFailed ''context canceled''"] job_env_stats[of i1 w1] job_env_reports by fastforce
qed

theorem one_job_per_transfer_witness:
  "\<exists>i'. ses_interface (fst (snd (session_cancel_file job_env 0 True (rclone_sample one_job, sample_world DOWNLOADING WAITING))))
       = IfRClone i' \<and> map_of (rc_jobs_id i') 0 = Some 7"
proof -
  let ?st = "(rclone_sample one_job, sample_world DOWNLOADING WAITING)"
  obtain out s' w' where run: "run_op job_env OpCancel 0 True ?st = (out, (s', w'))" by (metis prod.exhaust)
  then have steps: "(polled_step job_env)\<^sup>*\<^sup>* (PollStats, ?st) (PollStats, (s', w'))"
    by (intro r_into_rtranclp polled_session step_file)
  have i: "ses_interface (rclone_sample one_job) = IfRClone one_job" "map_of (rc_jobs_id one_job) 0 = Some 7"
    by (simp_all add: rclone_sample_def one_job_def)
  have started: "map_of (rc_jobs_id one_job) r = Some n \<Longrightarrow> tm_status (w_cells (sample_world DOWNLOADING WAITING) r) \<noteq> WAITING" for r n
    by (simp add: one_job_def sample_world_def split: if_splits)
  obtain i' where "ses_interface s' = IfRClone i'" "map_of (rc_jobs_id one_job) \<subseteq>\<^sub>m map_of (rc_jobs_id i')"
    using one_job_per_transfer[OF steps i(1) jobs_inv_samples(1)] started by blast
  moreover from this(2) have "map_of (rc_jobs_id i') 0 = Some 7" using i(2) by (metis domI map_le_def)
  ultimately show ?thesis using run by simp
qed

theorem cancel_overtaken_by_poll_witness:
  "\<exists>w1 w2. fst (session_cancel_file job_env 0 True (rclone_sample one_job, sample_world DOWNLOADING WAITING)) = Ret True
     \<and> tm_status (w_cells w1 0) = CANCELLED \<and> rclone_poll job_env (one_job, w1) = (Ret (), (one_job, w2))
     \<and> tm_status (w_cells w2 0) \<in> {FINISHED, ERROR}"
proof -
  let ?st = "(rclone_sample one_job, sample_world DOWNLOADING WAITING)"
  obtain out s1 w1 where run: "session_cancel_file job_env 0 True ?st = (out, (s1, w1))" by (metis prod.exhaust)
  have ret: "fst (session_cancel_file job_env 0 True ?st) = Ret True" by code_simp
  then have run: "session_cancel_file job_env 0 True ?st = (Ret True, (s1, w1))" using run by simp
  obtain st2 where st2: "bind (rclone_stats job_env) (for_each rclone_progress) (one_job, w1) = (Ret (), st2)"
    using job_env_stats by blast
  have i: "ses_interface (rclone_sample one_job) = IfRClone one_job" "map_of (rc_jobs_id one_job) 0 = Some 7"
    by (simp_all add: rclone_sample_def one_job_def)
  show ?thesis
    using cancel_overtaken_by_poll[OF run i(1) jobs_inv_samples(1) i(2), of "\<lambda>_. JobFailed ''context canceled''" st2]
      st2 ret job_env_reports by auto
qed

end
