(* ===== verification/Bookkeeper_Tables.thy ===== *)
theory Bookkeeper_Tables
  imports Bookkeeper_Service
begin

text \<open>
  The well-formedness of the bookkeeper's tables, kept by every round of its service loops: by
  each notification it handles, by the requests it sends, by its display and its console.
\<close>

section \<open>The tables\<close>

text \<open>
  The three tables are sorted without duplicates, a group is stored under its own identifier, and
  the tables refer to allocated transfers only.
\<close>

definition refs_ok :: "tm_ref \<Rightarrow> tm_ref list \<Rightarrow> bool" where
  "refs_ok n rs \<longleftrightarrow> list_all (\<lambda>r. r < n) rs"

definition bk_inv :: "bk_world \<Rightarrow> bool" where
  "bk_inv = (\<lambda>(b, w). smap_inv (bk_grp_transfers b) \<and> smap_inv (bk_clients_per_grp_transfer b) \<and> smap_inv (bk_transfers b)
     \<and> list_all (\<lambda>(gid, g). gm_group_id g = gid \<and> refs_ok (w_next w) (gm_transfers_meta g)) (bk_grp_transfers b)
     \<and> list_all (\<lambda>(client, rs). refs_ok (w_next w) rs) (bk_transfers b))"

text \<open>The frame of an action: from a state with the invariant in which \<open>rs\<close> are allocated, to such a state.\<close>

definition bk_ok :: "tm_ref list \<Rightarrow> bk_world \<Rightarrow> bk_world \<Rightarrow> bool" where
  "bk_ok rs s s' \<longleftrightarrow> (bk_inv s \<and> refs_ok (w_next (snd s)) rs \<longrightarrow> bk_inv s' \<and> refs_ok (w_next (snd s')) rs)"

interpretation bk_ok: frame_order "bk_ok rs"
  by unfold_locales (auto simp: bk_ok_def)

lemma refs_ok_mono: "refs_ok n rs \<Longrightarrow> n \<le> n' \<Longrightarrow> refs_ok n' rs"
  by (auto simp: refs_ok_def list_all_iff)

lemma bk_inv_world: "bk_inv (b, w) \<Longrightarrow> w_next w \<le> w_next w' \<Longrightarrow> bk_inv (b, w')"
  unfolding bk_inv_def list_all_iff by (fastforce intro: refs_ok_mono)

lemma bk_ok_on_world: "keeps grows f \<Longrightarrow> keeps (bk_ok rs) (on_world f)"
  using bk_inv_world refs_ok_mono
  by (fastforce simp: keeps_def bk_ok_def grows_def on_world_def split: prod.splits)

lemma bk_ok_on_self:
  "(\<And>b w. bk_inv (b, w) \<Longrightarrow> refs_ok (w_next w) rs \<Longrightarrow> bk_inv (f b, w)) \<Longrightarrow> keeps (bk_ok rs) (on_self f)"
  by (auto simp: keeps_def bk_ok_def on_self_def)

lemma bk_ok_self: "keeps (bk_ok rs) self"
  by (auto simp: keeps_def bk_ok_def self_def)

lemma grows_quiet: "keeps (only_cells S) f \<Longrightarrow> keeps grows f"
  by (auto simp: keeps_def only_cells_def grows_def)

lemmas grow_rules =
  grows.frame_rules grows_quiet[OF keeps_ask] grows_quiet[OF keeps_log_event] keeps_issues[THEN grows_quiet]
  grows_quiet[OF keeps_cell] grows_quiet[OF keeps_send_notification]

lemmas bk_rules = bk_ok.frame_rules bk_ok_self bk_ok_on_world grow_rules

lemma smap_put_ok: "list_all P m \<Longrightarrow> P (k, v) \<Longrightarrow> list_all P (smap_put k v m)"
  by (induction k v m rule: smap_put.induct) auto

lemma refs_at:
  assumes "list_all (\<lambda>(k, rs). refs_ok n rs) m"
  shows "refs_ok n (smap_at [] m k)"
proof (cases "map_of m k")
  case (Some rs)
  then show ?thesis using assms map_of_SomeD[OF Some] by (auto simp: smap_at_def list_all_iff)
qed (simp add: smap_at_def refs_ok_def)

lemma bk_inv_transfers:
  "bk_inv (b, w) \<Longrightarrow> refs_ok (w_next w) rs \<Longrightarrow> bk_inv (b\<lparr>bk_transfers := smap_put c (transfers_of b c @ rs) (bk_transfers b)\<rparr>, w)"
  using refs_at[of "w_next w" "bk_transfers b" c]
  by (auto simp: bk_inv_def transfers_of_def smap_inv_put refs_ok_def intro!: smap_put_ok)

lemma bk_inv_sessions: "bk_inv (b, w) \<Longrightarrow> bk_inv (b\<lparr>bk_clients_per_grp_transfer := smap_put k v (bk_clients_per_grp_transfer b)\<rparr>, w)"
  by (simp add: bk_inv_def smap_inv_put)

lemma bk_inv_touch: "bk_inv (b, w) \<Longrightarrow> bk_inv (touch_client c b, w)"
  using bk_inv_transfers[of b w "[]" c] by (simp add: touch_client_def refs_ok_def)

lemma bk_inv_put_group:
  "bk_inv (b, w) \<Longrightarrow> refs_ok (w_next w) (gm_transfers_meta g) \<Longrightarrow>
     bk_inv (b\<lparr>bk_grp_transfers := smap_put (gm_group_id g) g (bk_grp_transfers b)\<rparr>, w)"
  by (auto simp: bk_inv_def smap_inv_put intro!: smap_put_ok)

lemma bk_inv_group:
  assumes "bk_inv (b, w)" "map_of (bk_grp_transfers b) gid = Some g"
  shows "gm_group_id g = gid" "refs_ok (w_next w) (gm_transfers_meta g)"
  using assms(1) map_of_SomeD[OF assms(2)] by (auto simp: bk_inv_def list_all_iff)

lemma bk_inv_update_group:
  assumes "bk_inv (b, w)" "gm_transfers_meta g = []"
  shows "bk_inv (add_update_grp_transfer g b, w)"
proof (cases "map_of (bk_grp_transfers b) (gm_group_id g)")
  case None
  then show ?thesis
    using bk_inv_put_group[OF assms(1), of g] assms(2) by (simp add: add_update_grp_transfer_def refs_ok_def)
next
  case (Some old)
  let ?g = "set_expected_files (gm_expected_files old) (set_transfers_meta (gm_transfers_meta old) g)"
  have "bk_inv (b\<lparr>bk_grp_transfers := smap_del (gm_group_id g) (bk_grp_transfers b)\<rparr>, w)"
    using assms(1) smap_inv_del[of "bk_grp_transfers b" "gm_group_id g"]
    by (auto simp: bk_inv_def smap_del_def list_all_iff)
  from bk_inv_put_group[OF this, of ?g] show ?thesis
    using Some bk_inv_group(2)[OF assms(1) Some]
    by (simp add: add_update_grp_transfer_def Let_def set_expected_files_def set_transfers_meta_def)
qed

text \<open>The objects built from a message.\<close>

lemma grows_load: "keeps grows (tm_from_string E r str)"
proof -
  have cell: "keeps grows (update_cell r f)" for f by (auto simp: keeps_def grows_def)
  then have "keeps grows (try_update_cell r g)" for g unfolding try_update_cell_def by (intro grow_rules)
  note upd = cell this
  have "keeps grows (set_status_at E r st)" for st
    unfolding set_status_at_def now_ms_def by (intro grow_rules upd)
  then have "keeps grows (load_status E r str)" for str
    unfolding load_status_def by (cases "string_to_status str") (simp_all only: option.case, (intro grow_rules)+)
  then have "keeps grows (step v)" if "(k, step) \<in> set (tm_load_steps E r)" for k step v
    using that unfolding tm_load_steps_def by (auto intro!: grow_rules upd)
  then have "keeps grows (load_field j k step)" if "(k, step) \<in> set (tm_load_steps E r)" for j k step
    using that unfolding load_field_def by (cases "jmember j k") (simp_all only: option.case, (intro grow_rules)+)
  then show ?thesis
    unfolding tm_from_string_def tm_load_json_def
    by (intro grows.keeps_bind grows.keeps_for_each grows_quiet[OF keeps_parse_json]) auto
qed


lemma received_transfer:
  assumes "TransferMetadata_of_string E dat w = (Ret file, w')"
  shows "file < w_next w'"
proof -
  let ?w = "w\<lparr>w_cells := (w_cells w)(w_next w := default_tm), w_next := Suc (w_next w)\<rparr>"
  have r: "tm_from_string E (w_next w) dat ?w = (Ret (), w')" "file = w_next w"
    using assms by (auto simp: TransferMetadata_of_string_def bind_eq_Ret seq_eq_Ret alloc_def)
  have "grows ?w w'" using keeps_run[OF grows_load r(1)] .
  then show ?thesis by (simp add: grows_def r(2))
qed

lemma grows_received: "keeps grows (TransferMetadata_of_string E dat)"
proof -
  have "keeps grows (alloc m)" for m by (auto simp: keeps_def grows_def alloc_def)
  then show ?thesis unfolding TransferMetadata_of_string_def by (intro grows_load grow_rules)
qed

definition group_frame :: "group_world \<Rightarrow> group_world \<Rightarrow> bool" where
  "group_frame s s' \<longleftrightarrow> gm_transfers_meta (fst s') = gm_transfers_meta (fst s) \<and> grows (snd s) (snd s')"

interpretation group_frame: frame_order group_frame
  by unfold_locales (auto simp: group_frame_def grows.frame_refl intro: grows.frame_trans)

lemma group_frame_on_self: "(\<And>g. gm_transfers_meta (f g) = gm_transfers_meta g) \<Longrightarrow> keeps group_frame (on_self f)"
  by (auto simp: keeps_def group_frame_def on_self_def grows.frame_refl)

lemma group_frame_on_world: "keeps grows f \<Longrightarrow> keeps group_frame (on_world f)"
  by (auto simp: keeps_def group_frame_def on_world_def split: prod.splits) (metis snd_conv)

lemma received_group:
  "keeps grows (GroupMetadata_of_string E p dat)"
  "GroupMetadata_of_string E p dat w = (Ret g, w') \<Longrightarrow> gm_transfers_meta g = []"
proof -
  have "keeps group_frame (add_expected_file E f)" for f
    unfolding add_expected_file_def by (intro group_frame.frame_rules group_frame_on_self) simp
  then have "keeps group_frame (step v)" if "(k, step) \<in> set (gm_load_steps E)" for k step v
    using that unfolding gm_load_steps_def
    by (auto intro!: group_frame.frame_rules group_frame_on_self group_frame_on_world grows_quiet[OF keeps_parse_json])
  then have "keeps group_frame (gm_load_field j k step)" if "(k, step) \<in> set (gm_load_steps E)" for j k step
    using that unfolding gm_load_field_def
    by (cases "jmember j k") (simp_all only: option.case, (intro group_frame.frame_rules)+)
  then have all: "keeps group_frame (gm_from_string E dat)"
    unfolding gm_from_string_def
    by (intro group_frame.keeps_bind group_frame.keeps_for_each group_frame_on_world grows_quiet[OF keeps_parse_json]) auto
  have run: "group_frame (GroupMetadata_blank p, w) (snd (gm_from_string E dat (GroupMetadata_blank p, w)))" for w
    using keepsD[OF all] .
  show "keeps grows (GroupMetadata_of_string E p dat)"
  proof
    show "grows w (snd (GroupMetadata_of_string E p dat w))" for w
      using run[of w] by (auto simp: GroupMetadata_of_string_def group_frame_def split: prod.splits outcome.splits)
  qed
  show "gm_transfers_meta g = []" if "GroupMetadata_of_string E p dat w = (Ret g, w')"
    using run[of w] that
    by (auto simp: GroupMetadata_of_string_def group_frame_def GroupMetadata_blank_def GroupMetadata_new_def
        split: prod.splits outcome.splits)
qed


text \<open>A received transfer that belongs to a known group joins it.\<close>

lemma add_file_group:
  assumes "add_file r (g, w) = (out, (g', w'))" "refs_ok (w_next w) (r # gm_transfers_meta g)"
  shows "gm_group_id g' = gm_group_id g \<and> w_next w' = w_next w \<and> refs_ok (w_next w') (gm_transfers_meta g')"
proof -
  consider "tm_file_path (w_cells w r) \<in> set (gm_expected_files g)"
    | "tm_file_path (w_cells w r) \<notin> set (gm_expected_files g)" "tm_group_id (w_cells w r) = gm_group_id g"
    | "tm_file_path (w_cells w r) \<notin> set (gm_expected_files g)" "tm_group_id (w_cells w r) \<noteq> gm_group_id g"
    by blast
  then show ?thesis
    using assms
    by cases (auto simp: add_file_expected add_file_same_group add_file_foreign refs_ok_def list_all_iff dest: in_set_remove1)
qed

lemma bk_ok_on_grp:
  assumes "bk_inv (b, w)" "r < w_next w" "map_of (bk_grp_transfers b) gid = Some g"
  shows "bk_inv (snd (on_grp gid g (add_file r) (b, w))) \<and> r < w_next (snd (snd (on_grp gid g (add_file r) (b, w))))"
proof -
  obtain out g' w' where a: "add_file r (g, w) = (out, (g', w'))" by (metis prod.exhaust)
  note g = bk_inv_group[OF assms(1,3)]
  have g': "gm_group_id g' = gid" "w_next w' = w_next w" "refs_ok (w_next w') (gm_transfers_meta g')"
    using add_file_group[OF a] g assms(2) by (auto simp: refs_ok_def)
  have "bk_inv (b, w')" using bk_inv_world[OF assms(1)] g'(2) by simp
  from bk_inv_put_group[OF this g'(3)] show ?thesis
    using g' assms(2) by (simp add: on_grp_def a)
qed

lemma bk_ok_add_update_transfer: "keeps (bk_ok []) (add_update_transfer E client dat)"
proof
  fix s :: bk_world
  obtain b w where s: "s = (b, w)" by (cases s)
  obtain out w1 where f: "TransferMetadata_of_string E dat w = (out, w1)" by (metis prod.exhaust)
  have grow: "w_next w \<le> w_next w1" using keeps_run[OF grows_received f] by (simp add: grows_def)
  show "bk_ok [] s (snd (add_update_transfer E client dat s))"
  proof (cases out)
    case (Raise e)
    then show ?thesis using f grow bk_inv_world by (auto simp: s add_update_transfer_def bk_ok_def refs_ok_def)
  next
    case (Ret fm)
    then have fm: "fm < w_next w1" using received_transfer f by simp
    define b1 where "b1 = touch_client client b"
    define joined where "joined = (let gid = tm_group_id (w_cells w1 fm) in
        case (if gid \<noteq> [] then map_of (bk_grp_transfers b1) gid else None) of
          Some g \<Rightarrow> seq (on_grp gid g (add_file fm)) (return ()) | None \<Rightarrow> return ())"
    define listed :: "(bk_world, unit) action" where
      "listed = on_self (\<lambda>b. b\<lparr>bk_transfers := smap_put client (transfers_of b client @ [fm]) (bk_transfers b)\<rparr>)"
    have run: "add_update_transfer E client dat s =
        (case List.find (\<lambda>tr. tm_eq (w_cells w1 tr) (w_cells w1 fm)) (transfers_of b1 client) of
           Some tr \<Rightarrow> on_world (tm_from_string E tr dat) (b1, w1) | None \<Rightarrow> seq joined listed (b1, w1))"
      using f Ret unfolding s add_update_transfer_def joined_def listed_def b1_def
      by (simp add: Let_def split: option.split)
    have ok: "bk_inv (b1, w1)" if "bk_inv (b, w)"
      unfolding b1_def by (rule bk_inv_touch, rule bk_inv_world[OF that grow])
    have joined: "bk_inv (snd (joined (b1, w1))) \<and> fm < w_next (snd (snd (joined (b1, w1))))" if "bk_inv (b, w)"
      using bk_ok_on_grp[OF ok[OF that] fm] ok[OF that] fm
      unfolding joined_def Let_def by (auto simp: run_bind seq_def split: option.splits outcome.splits)
    have listed: "keeps (bk_ok [fm]) listed" unfolding listed_def by (rule bk_ok_on_self, rule bk_inv_transfers)
    show ?thesis
    proof (cases "List.find (\<lambda>tr. tm_eq (w_cells w1 tr) (w_cells w1 fm)) (transfers_of b1 client)")
      case (Some tr)
      then show ?thesis
        using keepsD[OF bk_ok_on_world[OF grows_load[of E tr dat]], of "[]" "(b1, w1)"] ok
        by (simp add: run[unfolded s] s bk_ok_def refs_ok_def)
    next
      case None
      then show ?thesis
        using keepsD[OF listed, of "snd (joined (b1, w1))"] joined
        by (auto simp: run[unfolded s] s bk_ok_def refs_ok_def run_bind seq_def split: outcome.splits)
    qed
  qed
qed


lemma bk_ok_receive_group: "keeps (bk_ok []) (receive_group_metadata E notif)"
proof
  fix s :: bk_world
  obtain b w where s: "s = (b, w)" by (cases s)
  obtain out w1 where f: "GroupMetadata_of_string E (uninit_protocol E) (m_data notif) w = (out, w1)" by (metis prod.exhaust)
  have grow: "w_next w \<le> w_next w1" using keeps_run[OF received_group(1) f] by (simp add: grows_def)
  show "bk_ok [] s (snd (receive_group_metadata E notif s))"
  proof (cases out)
    case (Raise e)
    then show ?thesis using f grow bk_inv_world by (auto simp: s receive_group_metadata_def bk_ok_def refs_ok_def)
  next
    case (Ret g)
    let ?b = "b\<lparr>bk_clients_per_grp_transfer := smap_put (gm_group_id g)
        (sset_insert (m_source_id notif) (sessions_of b (gm_group_id g))) (bk_clients_per_grp_transfer b)\<rparr>"
    have "snd (receive_group_metadata E notif s) = (add_update_grp_transfer g ?b, w1)"
      using f Ret by (simp add: s receive_group_metadata_def)
    moreover have "gm_transfers_meta g = []" using received_group(2) f Ret by simp
    moreover have "bk_inv (?b, w1)" if "bk_inv (b, w)" using bk_inv_sessions[OF bk_inv_world[OF that grow]] .
    ultimately show ?thesis using bk_inv_update_group by (simp add: s bk_ok_def refs_ok_def)
  qed
qed

lemma bk_ok_receive: "keeps (bk_ok []) (bk_action_on_receive E notif)"
proof -
  have "keeps (bk_ok []) (on_self (touch_client c))" for c by (rule bk_ok_on_self, rule bk_inv_touch)
  then have "keeps (bk_ok []) (bk_handle_notification E act notif)" for act
    unfolding bk_handle_notification_def
    by (cases act) (auto intro!: bk_rules bk_ok_add_update_transfer bk_ok_receive_group)
  then show ?thesis
    unfolding bk_action_on_receive_def
    by (intro bk_rules) (auto intro!: bk_rules split: option.splits)
qed

lemma bk_ok_send: "keeps (bk_ok rs) (bk_send E n dst conn dat tries)"
  unfolding bk_send_def by (intro bk_rules)

lemma bk_ok_requests:
  "keeps (bk_ok rs) (request_connection_and_available_files E client)"
  "keeps (bk_ok rs) (start_transfers E tid)"
  "keeps (bk_ok rs) (request_update_metadata E force)"
proof -
  show "keeps (bk_ok rs) (request_connection_and_available_files E client)"
    unfolding request_connection_and_available_files_def by (intro bk_rules bk_ok_send)
  show "keeps (bk_ok rs) (start_transfers E tid)"
    unfolding start_transfers_def
    by (intro bk_ok.keeps_bind bk_ok_self) (auto intro!: bk_rules bk_ok_send split: option.splits)
  have "keeps (bk_ok rs) (on_self (\<lambda>b. b\<lparr>bk_clients_per_grp_transfer := smap_put k (sessions_of b k) (bk_clients_per_grp_transfer b)\<rparr>))" for k
    by (rule bk_ok_on_self, rule bk_inv_sessions)
  then show "keeps (bk_ok rs) (request_update_metadata E force)"
    unfolding request_update_metadata_def case_prod_beta by (intro bk_rules bk_ok_send)
qed

lemma grows_listen: "keeps grows (listen_for_notification E ni conn from_id tmo tries)"
proof
  fix w
  obtain out w' where "listen_for_notification E ni conn from_id tmo tries w = (out, w')" by (metis prod.exhaust)
  then show "grows w (snd (listen_for_notification E ni conn from_id tmo tries w))"
    using listen_for_notification_run by (fastforce simp: grows_def)
qed

lemma grows_gather: "(\<And>x. keeps grows (f x)) \<Longrightarrow> keeps grows (gather f xs)"
proof (induction xs)
  case Nil
  show ?case unfolding gather.simps by (rule grows.keeps_return)
next
  case (Cons x xs)
  show ?case
    unfolding gather.simps case_prod_beta by (intro grows.keeps_bind grows.keeps_return Cons)
qed

lemma bk_ok_display: "keeps (bk_ok rs) (display_information E K)"
proof -
  have dur: "keeps grows (shown_duration E m)" for m unfolding shown_duration_def now_ms_def by (intro grow_rules)
  have "keeps grows (display_file E K l b r)" for l b r
    unfolding display_file_def now_ms_def by (intro dur grow_rules)
  then have "keeps grows (display_client E K l c)" for l c
    unfolding display_client_def case_prod_beta Let_def by (intro grow_rules grows_gather)
  then show ?thesis
    unfolding display_information_def csv_start_def Let_def case_prod_beta by (intro bk_rules grows_gather)
qed

definition world_grows :: "'x \<times> world \<Rightarrow> 'x \<times> world \<Rightarrow> bool" where
  "world_grows s s' \<longleftrightarrow> grows (snd s) (snd s')"

interpretation world_grows: frame_order world_grows
  by unfold_locales (auto simp: world_grows_def grows.frame_refl intro: grows.frame_trans)

lemma world_grows_lookups: "keeps world_grows (lookups_connections E)"
proof -
  have "keeps world_grows (on_self f)" "keeps world_grows self" for f :: "NotificationInterface \<Rightarrow> NotificationInterface"
    by (auto simp: keeps_def world_grows_def on_self_def self_def grows.frame_refl)
  moreover have "keeps grows f \<Longrightarrow> keeps world_grows (on_world f)" for f :: "(world, 'a) action"
    by (auto simp: keeps_def world_grows_def on_world_def split: prod.splits) (metis snd_conv)
  ultimately have "keeps world_grows (lookup_pattern E pat add)" for pat add
    unfolding lookup_pattern_def
    by (intro world_grows.keeps_bind)
      (auto intro!: grow_rules world_grows.keeps_return split: outcome.splits)
  then show ?thesis
    using \<open>\<And>f. keeps world_grows self\<close> unfolding lookups_connections_def
    by (intro world_grows.keeps_bind world_grows.keeps_seq)
qed

lemma bk_ok_lookups: "keeps (bk_ok rs) (on_bk_ni (lookups_connections E))"
proof
  fix s :: bk_world
  obtain b w where s: "s = (b, w)" by (cases s)
  obtain out n w' where r: "lookups_connections E (bk_ni b, w) = (out, (n, w'))" by (metis prod.exhaust)
  have "w_next w \<le> w_next w'" using keeps_run[OF world_grows_lookups r] by (simp add: world_grows_def grows_def)
  then show "bk_ok rs s (snd (on_bk_ni (lookups_connections E) s))"
    using bk_inv_world[of b w w'] refs_ok_mono[of "w_next w" rs "w_next w'"]
    by (auto simp: s on_bk_ni_def r bk_ok_def bk_inv_def)
qed

lemma bk_ok_listen: "keeps (bk_ok []) (bk_listen E)"
proof -
  have "keeps (bk_ok []) front_conn"
    unfolding front_conn_def by (intro bk_rules) (auto intro!: bk_rules split: list.splits)
  then show ?thesis
    unfolding bk_listen_def
    by (intro bk_ok.keeps_bind bk_ok_self bk_ok_on_world grows_listen)
      (auto intro!: bk_rules bk_ok_receive split: option.splits)
qed

lemma bk_ok_refresh: "keeps (bk_ok rs) (bk_refresh E K rate t)"
  unfolding bk_refresh_def now_ms_def by (intro bk_rules bk_ok_requests bk_ok_display)

lemma bk_ok_work_round: "keeps (bk_ok []) (bk_work_round E K t)"
  unfolding bk_work_round_def by (intro bk_ok_lookups bk_ok_listen bk_ok_refresh bk_rules)

lemma bk_ok_new_clients: "keeps (bk_ok rs) (ask_new_clients E)"
  unfolding ask_new_clients_def by (intro bk_rules bk_ok_requests)

text \<open>What the dialogues do when they end.\<close>

lemma read_con_only: "read_con f shown s = (x, s') \<Longrightarrow> fst s' = fst s \<and> reads_only (snd s) (snd s')"
  by (cases s) (auto simp: run_read_con reads_only_one)

lemma choose_words_only:
  assumes "choose_words K valid chosen s = Some r"
  shows "fst (snd r) = fst s \<and> reads_only (snd s) (snd (snd r))"
proof (rule choose_words.raw_induct[where P = "\<lambda>K valid chosen s r. fst (snd r) = fst s \<and> reads_only (snd s) (snd (snd r))", OF _ assms])
  fix run :: "console_env \<Rightarrow> (string \<Rightarrow> bool) \<Rightarrow> string list \<Rightarrow> bk_world \<Rightarrow> (string list \<times> bk_world) option" and K valid chosen s r
  assume IH: "\<And>K valid chosen s r. run K valid chosen s = Some r \<Longrightarrow> fst (snd r) = fst s \<and> reads_only (snd s) (snd (snd r))"
    and body: "(let (word, s1) = read_con (con_token K) id s in
      if word = ''q'' \<or> \<not> valid word then Some (chosen, s1) else run K valid (sset_insert word chosen) s1) = Some r"
  obtain word s1 where rd: "read_con (con_token K) id s = (word, s1)" by (metis prod.exhaust)
  note s1 = read_con_only[OF rd]
  show "fst (snd r) = fst s \<and> reads_only (snd s) (snd (snd r))"
  proof (cases "word = ''q'' \<or> \<not> valid word")
    case True
    then show ?thesis using body rd s1 by auto
  next
    case False
    then have "run K valid (sset_insert word chosen) s1 = Some r" using body rd by simp
    from IH[OF this] s1 show ?thesis by (auto intro: reads_only_trans)
  qed
qed

lemma reads_only_next: "reads_only w w' \<Longrightarrow> w_next w' = w_next w"
  by (auto simp: reads_only_def)

lemma bk_inv_reads: "bk_inv s \<Longrightarrow> fst s' = fst s \<Longrightarrow> reads_only (snd s) (snd s') \<Longrightarrow> bk_inv s'"
  using bk_inv_world[of "fst s" "snd s" "snd s'"] by (cases s; cases s') (simp add: reads_only_next)

lemma console_new_inv:
  assumes "console_new K s = Some (out, s')"
  shows "fst s' = fst s \<and> reads_only (snd s) (snd s')"
proof -
  obtain p s1 where rd: "read_con (con_int K) to_string s = (p, s1)" by (metis prod.exhaust)
  note s1 = read_con_only[OF rd]
  show ?thesis
  proof (cases "p < 0 \<or> p > protocol_index dummy")
    case True
    then show ?thesis using assms rd s1 by (auto simp: console_new_def)
  next
    case False
    then obtain ws s2 where c: "choose_words K (\<lambda>c. c \<in> set (ni_clients_conn (bk_ni (fst s1)))) [] s1 = Some (ws, s2)"
      using assms rd by (auto simp: console_new_def split: option.splits)
    have s2: "fst s2 = fst s" "reads_only (snd s) (snd s2)"
      using choose_words_only[OF c] s1 by (auto intro: reads_only_trans)
    show ?thesis
    proof (cases "length ws < 2")
      case True
      then show ?thesis using assms rd False c s2 by (simp add: console_new_def)
    next
      case long: False
      obtain out' w3 where f: "choose_files K ws [] s2 = Some (out', (fst s2, w3))" "reads_only (snd s2) w3"
        using choose_files_ends[of K ws "[]" "fst s2" "snd s2"] by auto
      then have "s' = (fst s2, w3)"
        using assms rd False c long by (auto simp: console_new_def split: outcome.splits)
      then show ?thesis using f(2) s2 by (auto intro: reads_only_trans)
    qed
  qed
qed

lemma input_action_inv:
  assumes "input_action E K c s = Some (out, s')" "bk_inv s"
  shows "bk_inv s'"
proof -
  have disp: "display_information E K s = (out, s') \<Longrightarrow> bk_inv s'"
    using keeps_run[OF bk_ok_display[of "[]"]] assms(2) by (fastforce simp: bk_ok_def refs_ok_def)
  have new: "console_new K s = Some (out, s') \<Longrightarrow> bk_inv s'"
    using console_new_inv bk_inv_reads[OF assms(2)] by blast
  have start: "console_start E K s = Some (out, s') \<Longrightarrow> bk_inv s'"
  proof -
    assume "console_start E K s = Some (out, s')"
    then obtain ws s1 where c: "choose_words K (\<lambda>t. map_of (bk_clients_per_grp_transfer (fst s)) t \<noteq> None) [] s = Some (ws, s1)"
        "for_each (start_transfers E) ws s1 = (out, s')"
      by (auto simp: console_start_def split: option.splits)
    have "bk_inv s1" using bk_inv_reads[OF assms(2)] choose_words_only[OF c(1)] by simp
    moreover have "bk_ok [] s1 s'"
      using c(2) by (rule keeps_run[rotated]) (intro bk_ok.keeps_for_each bk_ok_requests)
    ultimately show ?thesis by (simp add: bk_ok_def refs_ok_def)
  qed
  show ?thesis using assms disp new start by (auto simp: input_action_def split: if_splits)
qed

text \<open>The rounds of the two loops as steps.\<close>

inductive bk_step :: "env \<Rightarrow> console_env \<Rightarrow> bk_world \<Rightarrow> bk_world \<Rightarrow> bool" for E K where
  step_work: "bk_work_round E K t s = (out, s') \<Longrightarrow> bk_step E K s s'"
| step_start: "bk_start_round E K t s = Some (out, s') \<Longrightarrow> bk_step E K s s'"

lemma start_round_inv:
  assumes "bk_start_round E K t s = Some (out, s')" "bk_inv s"
  shows "bk_inv s'"
proof -
  obtain o1 s1 where l: "bk_listen E s = (o1, s1)" by (metis prod.exhaust)
  have s1: "bk_inv s1" using keeps_run[OF bk_ok_listen l] assms(2) by (simp add: bk_ok_def refs_ok_def)
  obtain line s2 where rd: "read_con (con_line K) id s1 = (line, s2)" by (metis prod.exhaust)
  have s2: "bk_inv s2" using bk_inv_reads[OF s1] read_con_only[OF rd] by simp
  define rest where "rest = seq (ask_new_clients E) (seq (on_world (sleep_ms 100)) (bk_refresh E K 5 t))"
  have rest: "keeps (bk_ok []) rest"
    unfolding rest_def by (intro bk_ok_new_clients bk_ok_refresh bk_rules)
  show ?thesis
  proof (cases o1)
    case (Raise e)
    then show ?thesis using assms(1) l s1 by (simp add: bk_start_round_def)
  next
    case (Ret u)
    then obtain o3 s3 where i: "(if line = [] then Some (Ret (), s2) else input_action E K (hd line) s2) = Some (o3, s3)"
      using assms(1) l rd by (auto simp: bk_start_round_def split: option.splits)
    have s3: "bk_inv s3" using i input_action_inv[of E K "hd line" s2 o3 s3] s2 by (auto split: if_splits)
    have "s' = s3 \<or> s' = snd (rest s3)"
      using assms(1) l rd Ret i unfolding rest_def by (auto simp: bk_start_round_def split: outcome.splits option.splits)
    then show ?thesis using s3 keepsD[OF rest, of s3] by (auto simp: bk_ok_def refs_ok_def)
  qed
qed

lemma bk_step_inv: "bk_step E K s s' \<Longrightarrow> bk_inv s \<Longrightarrow> bk_inv s'"
proof (induction rule: bk_step.induct)
  case (step_work t s out s')
  then show ?case using keeps_run[OF bk_ok_work_round step_work(1)] by (simp add: bk_ok_def refs_ok_def)
qed (rule start_round_inv)


section \<open>Properties\<close>

text \<open>
  C32: from its construction on, along every sequence of rounds of either service loop, whatever
  notifications and console input arrive and whether the rounds return or throw, the tables of a
  bookkeeper stay sorted without duplicates, every group is stored under its own identifier, and
  the tables refer to allocated transfers only.
\<close>

theorem bookkeeper_tables_well_formed:
  assumes "Bookkeeper_new E K ip name path rate prefix ts tr w = (Ret b, w1)"
    and "(bk_step E K)\<^sup>*\<^sup>* (b, w1) (b', w')"
  shows "bk_inv (b', w')"
proof -
  let ?b = "Bookkeeper_blank ip name path rate prefix ts tr"
  have "bk_inv (?b, w)" by (simp add: bk_inv_def Bookkeeper_blank_def smap_inv_def)
  moreover have "snd (display_information E K (?b, w)) = (b, w1)"
    using assms(1) by (auto simp: Bookkeeper_new_def split: prod.splits outcome.splits)
  ultimately have start: "bk_inv (b, w1)"
    using keepsD[OF bk_ok_display[of "[]" E K], of "(?b, w)"] by (simp add: bk_ok_def refs_ok_def)
  show ?thesis
    using assms(2) start by (induction rule: rtranclp_induct) (auto intro: bk_step_inv)
qed

theorem bookkeeper_tables_well_formed_witness:
  "\<exists>b w1. Bookkeeper_new quiet_env sample_console default_ip ''bookkeeper0'' [] 5 ''snbmodules'' 10 100 world_init = (Ret b, w1)
     \<and> bk_inv (snd (bk_work_round quiet_env sample_console 0 (b, w1)))"
proof -
  obtain b w1 where new: "Bookkeeper_new quiet_env sample_console default_ip ''bookkeeper0'' [] 5 ''snbmodules'' 10 100 world_init = (Ret b, w1)"
    by (simp add: Bookkeeper_new_def display_information_def Bookkeeper_blank_def log_event_def)
  obtain out b' w' where r: "bk_work_round quiet_env sample_console 0 (b, w1) = (out, (b', w'))" by (metis prod.exhaust)
  have "bk_step quiet_env sample_console (b, w1) (b', w')" using r by (rule bk_step.intros)
  then have "(bk_step quiet_env sample_console)\<^sup>*\<^sup>* (b, w1) (b', w')" by simp
  from bookkeeper_tables_well_formed[OF new this] show ?thesis using new r by auto
qed

end
