(* ===== verification/Conversations.thy ===== *)
theory Conversations
  imports Bookkeeper "HOL-Library.Sublist"
begin

text \<open>
  Whole conversations between the parts of the transfer side: what one part sends, as its trace
  records it, is what the other part handles. A client shares files with a bookkeeper
  (\<open>TransferClient::share_available_files\<close>, \<open>Bookkeeper::action_on_receive\<close>), and an uploader invites another
  client to a transfer (\<open>TransferClient::create_new_transfer\<close>, \<open>TransferClient::action_on_receive\<close>). The two
  ends have their own objects and their own trace; the theorems on them are in the root theory.
\<close>

section \<open>A client shares its files\<close>

lemma subseq_set: "subseq xs ys \<Longrightarrow> set xs \<subseteq> set ys"
  by (auto elim: list_emb_set)

lemma subseq_sorted_wrt: "subseq xs ys \<Longrightarrow> sorted_wrt P ys \<Longrightarrow> sorted_wrt P xs"
  by (induction rule: list_emb.induct) (auto dest: subseq_set)

text \<open>
  What a client says about a file of a given size: the transfer object it makes for it, without the
  marks, and the notification that carries it.
\<close>

definition shared_tm :: "IPFormat \<Rightarrow> (string \<Rightarrow> u64) \<Rightarrow> string \<Rightarrow> TransferMetadata" where
  "shared_tm ip sz f = default_tm\<lparr>tm_file_path := f, tm_bytes_size := sz f, tm_src := ip\<rparr>"

definition shared_notification ::
  "env \<Rightarrow> string \<Rightarrow> string \<Rightarrow> IPFormat \<Rightarrow> (string \<Rightarrow> u64) \<Rightarrow> string \<Rightarrow> NotificationData" where
  "shared_notification E src dest ip sz f =
     NotificationData_new src dest TRANSFER_METADATA (json_dump E (jobject (export_fields True (shared_tm ip sz f))))"

lemma export_all_ignores_marks:
  "export_fields True (m\<lparr>tm_modified_fields := x\<rparr>) = export_fields True m"
  by (simp add: export_fields_def mandatory_fields_def)

text \<open>One file shared by a client: the client registers it and tells its destination about it.\<close>

lemma share_one:
  assumes "share_available_files E [f] dest (c, w) = (out, (c', w'))"
    and "\<And>t. fs_size E t f = Ret (sz f)" "clean_abs f"
  shows "\<exists>es. w_trace w' = w_trace w @ es \<and> cl_ni c' = cl_ni c \<and> cl_client_id c' = cl_client_id c
           \<and> cl_listening_ip c' = cl_listening_ip c
           \<and> delivered_notifications es \<in> {[], [shared_notification E (cl_client_id c) dest (cl_listening_ip c) sz f]}
           \<and> ((\<forall>t c d. io_try_send E t c d = Ret True) \<longrightarrow> out = Ret ()
               \<and> delivered_notifications es = [shared_notification E (cl_client_id c) dest (cl_listening_ip c) sz f])"
proof -
  let ?m = "shared_tm (cl_listening_ip c) sz f"
  let ?c = "if map_of (cl_available_files c) f = None then c\<lparr>cl_available_files := smap_put f (w_next w) (cl_available_files c)\<rparr> else c"
  let ?dat = "json_dump E (jobject (export_fields True ?m))"
  let ?w = "w\<lparr>w_cells := (w_cells w)(w_next w := default_tm\<lparr>tm_file_path := f, tm_bytes_size := sz f,
         tm_src := cl_listening_ip c, tm_modified_fields := (\<lambda>_. False)\<rparr>),
       w_next := Suc (w_next w), w_trace := w_trace w @ [EvFile ''file_size'' f]\<rparr>"
  obtain o2 w2 where send: "send_notification E (cl_ni c) TRANSFER_METADATA (cl_client_id c) dest dest ?dat (- 1) ?w = (o2, w2)"
    by (metis prod.exhaust)
  have dat: "export_fields True (default_tm\<lparr>tm_file_path := f, tm_bytes_size := sz f,
         tm_src := cl_listening_ip c, tm_modified_fields := ctor_modified\<rparr>) = export_fields True ?m"
    using export_all_ignores_marks by (simp add: shared_tm_def)
  have send': "send_notification E (cl_ni ?c) TRANSFER_METADATA (cl_client_id c) dest dest ?dat (- 1) ?w = (o2, w2)"
    using send by simp
  have exp: "tm_export_partial E True (w_next w) (snd (create_metadata_from_file E (cl_listening_ip c) f w)) = (Ret ?dat, ?w)"
    by (simp add: run_create_metadata[OF assms(2,3)] run_export_partial dat)
  have "share_available_files E [f] dest (c, w) = (map_outcome (\<lambda>_. ()) o2, (?c, w2))"
    using run_create_metadata[of E w f "sz f" "cl_listening_ip c", OF assms(2,3)] exp send'
    by (cases o2) (simp_all add: share_available_files_def cl_send_def seq_def run_bind on_world_def on_self_def self_def
      split del: if_split)
  then have run: "out = map_outcome (\<lambda>_. ()) o2" "c' = ?c" "w' = w2" using assms(1) by simp_all
  obtain es where es: "w2 = ?w\<lparr>w_trace := w_trace ?w @ es\<rparr>" "delivered_notifications es =
      (if o2 = Ret True then [shared_notification E (cl_client_id c) dest (cl_listening_ip c) sz f] else [])"
    using send_delivers[OF send] unfolding shared_notification_def by blast
  have "o2 = Ret True" if "\<forall>t c d. io_try_send E t c d = Ret True"
    using send_works[of E] that send by (metis fst_conv)
  moreover have "delivered_notifications (EvFile ''file_size'' f # es) = delivered_notifications es"
    by (simp add: delivered_notifications_def)
  ultimately show ?thesis
    using run es by (intro exI[of _ "EvFile ''file_size'' f # es"]) auto
qed

lemma share_Cons:
  "share_available_files E (f # fs) dest = seq (share_available_files E [f] dest) (share_available_files E fs dest)"
  unfolding share_available_files_def by (rule for_each_Cons_single)

text \<open>The notifications that leave a client that shares files.\<close>

lemma share_delivers:
  assumes "share_available_files E fs dest (c, w) = (out, (c', w'))"
    and "\<And>f t. f \<in> set fs \<Longrightarrow> fs_size E t f = Ret (sz f)" "list_all clean_abs fs"
  shows "\<exists>es fs'. w_trace w' = w_trace w @ es \<and> subseq fs' fs
           \<and> delivered_notifications es = map (shared_notification E (cl_client_id c) dest (cl_listening_ip c) sz) fs'
           \<and> ((\<forall>t c d. io_try_send E t c d = Ret True) \<longrightarrow> out = Ret () \<and> fs' = fs)"
  using assms
proof (induction fs arbitrary: c w)
  case Nil
  then show ?case by (auto simp: share_available_files_def delivered_notifications_def)
next
  case (Cons f fs)
  let ?n = "\<lambda>c. shared_notification E (cl_client_id c) dest (cl_listening_ip c) sz"
  obtain o1 c1 w1 where one: "share_available_files E [f] dest (c, w) = (o1, (c1, w1))" by (metis prod.exhaust)
  obtain es where es: "w_trace w1 = w_trace w @ es" "cl_client_id c1 = cl_client_id c"
      "cl_listening_ip c1 = cl_listening_ip c" "delivered_notifications es \<in> {[], [?n c f]}"
      "(\<forall>t c d. io_try_send E t c d = Ret True) \<longrightarrow> o1 = Ret () \<and> delivered_notifications es = [?n c f]"
    using share_one[of E f dest c w o1 c1 w1 sz, OF one] Cons.prems(2)[of f] Cons.prems(3) by auto
  define fs1 where "fs1 = (if delivered_notifications es = [] then [] else [f])"
  have fs1: "delivered_notifications es = map (?n c) fs1" "fs1 = [] \<or> fs1 = [f]"
      "(\<forall>t c d. io_try_send E t c d = Ret True) \<longrightarrow> fs1 = [f]"
    using es(4,5) by (auto simp: fs1_def)
  show ?case
  proof (cases o1)
    case (Ret u)
    then have rest: "share_available_files E fs dest (c1, w1) = (out, (c', w'))"
      using Cons.prems(1) one unfolding share_Cons[of E f fs] by simp
    obtain es' fs' where ih: "w_trace w' = w_trace w1 @ es'" "subseq fs' fs"
        "delivered_notifications es' = map (?n c) fs'"
        "(\<forall>t c d. io_try_send E t c d = Ret True) \<longrightarrow> out = Ret () \<and> fs' = fs"
      using Cons.IH[OF rest Cons.prems(2)] Cons.prems(3) unfolding es(2,3) list.pred_inject by auto metis
    show ?thesis
      using es(1) ih fs1 by (intro exI[of _ "es @ es'"] exI[of _ "fs1 @ fs'"]) auto
  next
    case (Raise e)
    then have "out = Raise e" "w' = w1" using Cons.prems(1) one unfolding share_Cons[of E f fs] by simp_all
    then show ?thesis
      using es(1,5) fs1 Raise by (intro exI[of _ es] exI[of _ fs1]) auto
  qed
qed

text \<open>One such notification at a bookkeeper that does not list the file yet.\<close>

lemma shared_tm_sel [simp]:
  "tm_group_id (shared_tm ip sz f) = []" "tm_file_path (shared_tm ip sz f) = f"
  "tm_data (shared_tm ip sz f) = shared_tm ip sz f"
  by (simp_all add: shared_tm_def default_tm_def tm_data_def)

lemma shared_tm_wf: "clean_abs f \<Longrightarrow> valid_ip ip \<Longrightarrow> ip \<noteq> default_ip \<Longrightarrow> tm_wf (shared_tm ip sz f)"
  by (auto simp: tm_wf_def shared_tm_def default_tm_def)

lemma add_update_transfer_new:
  assumes "TransferMetadata_of_string E dat v = (Ret q, v')"
    and "List.find (\<lambda>tr. tm_eq (w_cells v' tr) (w_cells v' q)) (transfers_of b src) = None"
    and "tm_group_id (w_cells v' q) = []"
  shows "add_update_transfer E src dat (b, v) =
      (Ret (), (b\<lparr>bk_transfers := smap_put src (transfers_of b src @ [q]) (bk_transfers b)\<rparr>, v'))"
proof -
  have "(touch_client src b)\<lparr>bk_transfers := smap_put src (transfers_of b src @ [q]) (bk_transfers (touch_client src b))\<rparr>
      = b\<lparr>bk_transfers := smap_put src (transfers_of b src @ [q]) (bk_transfers b)\<rparr>"
    by (simp add: touch_client_def)
  then show ?thesis using assms by (simp add: add_update_transfer_def)
qed

lemma bookkeeper_lists_shared:
  assumes "tm_wf (shared_tm ip sz f)" "json_text_ok E (jobject (export_fields True (shared_tm ip sz f)))"
    and "json_dump E (jobject (export_fields True (shared_tm ip sz f))) \<noteq> ''end''"
    and "str_contains dest (bk_bookkeeper_id b)"
    and "list_all (\<lambda>r. r < w_next v \<and> \<not> tm_eq (w_cells v r) (shared_tm ip sz f)) (transfers_of b src)"
  shows "\<exists>v'. bk_action_on_receive E (shared_notification E src dest ip sz f) (b, v)
             = (Ret True, (b\<lparr>bk_transfers := smap_put src (transfers_of b src @ [w_next v]) (bk_transfers b)\<rparr>, v'))
           \<and> tm_data (w_cells v' (w_next v)) = shared_tm ip sz f \<and> w_next v' = Suc (w_next v)
           \<and> (\<forall>q. q < w_next v \<longrightarrow> w_cells v' q = w_cells v q)"
proof -
  let ?m = "shared_tm ip sz f" and ?q = "w_next v"
  obtain v' where v': "TransferMetadata_of_string E (json_dump E (jobject (export_fields True ?m))) v = (Ret ?q, v')"
      "tm_data (w_cells v' ?q) = ?m" "w_next v' = Suc ?q" "\<And>q. q \<noteq> ?q \<Longrightarrow> w_cells v' q = w_cells v q"
    using text_builds_object[OF assms(1,2), of v] by auto
  have gid: "tm_group_id (w_cells v' ?q) = []"
    using arg_cong[OF v'(2), of tm_group_id] by (simp add: tm_data_def)
  have eq: "tm_eq m (w_cells v' ?q) \<longleftrightarrow> tm_eq m ?m" for m
    by (rule tm_eq_data) (simp add: v'(2))
  have "List.find (\<lambda>tr. tm_eq (w_cells v' tr) (w_cells v' ?q)) (transfers_of b src) = None"
    unfolding find_None_iff using assms(5) v'(4) by (auto simp: eq list_all_iff)
  then have "add_update_transfer E src (json_dump E (jobject (export_fields True ?m))) (b, v) =
      (Ret (), (b\<lparr>bk_transfers := smap_put src (transfers_of b src @ [?q]) (bk_transfers b)\<rparr>, v'))"
    using add_update_transfer_new[OF v'(1) _ gid] by simp
  then show ?thesis
    using assms(3,4) v' by (simp add: bk_action_on_receive_def bk_handle_notification_def shared_notification_def
      NotificationData_new_def)
qed

text \<open>The bookkeeper handling a sequence of notifications.\<close>

definition receive_all :: "env \<Rightarrow> NotificationData list \<Rightarrow> (bk_world, unit) action" where
  "receive_all E = for_each (\<lambda>d. seq (bk_action_on_receive E d) (return ()))"

text \<open>A file that can be shared: its path is clean and the JSON library reads back what it printed.\<close>

definition shareable :: "env \<Rightarrow> IPFormat \<Rightarrow> (string \<Rightarrow> u64) \<Rightarrow> string \<Rightarrow> bool" where
  "shareable E ip sz f \<longleftrightarrow> clean_abs f \<and> json_text_ok E (jobject (export_fields True (shared_tm ip sz f)))
     \<and> json_dump E (jobject (export_fields True (shared_tm ip sz f))) \<noteq> ''end''"

lemma tm_eq_shared:
  assumes "tm_data m = shared_tm ip sz f"
  shows "tm_eq m (shared_tm ip sz g) \<longleftrightarrow> path_eq f g"
proof -
  have "tm_eq m (shared_tm ip sz g) \<longleftrightarrow> tm_eq (tm_data m) (shared_tm ip sz g)"
    by (simp add: tm_eq_def tm_data_def)
  then show ?thesis unfolding assms by (simp add: tm_eq_def shared_tm_def)
qed

lemma transfers_of_put [simp]:
  "transfers_of (b\<lparr>bk_transfers := smap_put src rs m\<rparr>) src = rs"
  by (simp add: transfers_of_def smap_at_def)

lemma bookkeeper_lists_all_shared:
  assumes "valid_ip ip" "ip \<noteq> default_ip" "list_all (shareable E ip sz) fs"
    and "str_contains dest (bk_bookkeeper_id b)" "sorted_wrt (\<lambda>f g. \<not> path_eq f g) fs"
    and "\<And>r f. r \<in> set (transfers_of b src) \<Longrightarrow> f \<in> set fs \<Longrightarrow> \<not> tm_eq (w_cells v r) (shared_tm ip sz f)"
    and "list_all (\<lambda>r. r < w_next v) (transfers_of b src)"
  shows "\<exists>b' v'. receive_all E (map (shared_notification E src dest ip sz) fs) (b, v) = (Ret (), (b', v'))
           \<and> map (\<lambda>r. tm_data (w_cells v' r)) (transfers_of b' src)
               = map (\<lambda>r. tm_data (w_cells v r)) (transfers_of b src) @ map (shared_tm ip sz) fs
           \<and> bk_grp_transfers b' = bk_grp_transfers b
           \<and> (\<forall>client. client \<noteq> src \<longrightarrow> map_of (bk_transfers b') client = map_of (bk_transfers b) client)"
  using assms(3-)
proof (induction fs arbitrary: b v)
  case Nil
  then show ?case by (simp add: receive_all_def)
next
  case (Cons f fs)
  have f: "clean_abs f" "json_text_ok E (jobject (export_fields True (shared_tm ip sz f)))"
      "json_dump E (jobject (export_fields True (shared_tm ip sz f))) \<noteq> ''end''" "list_all (shareable E ip sz) fs"
    using Cons.prems(1) by (simp_all add: shareable_def[of E ip sz f])
  have "list_all (\<lambda>r. r < w_next v \<and> \<not> tm_eq (w_cells v r) (shared_tm ip sz f)) (transfers_of b src)"
    using Cons.prems(4)[of _ f] Cons.prems(5) by (simp add: list_all_iff)
  note one = bookkeeper_lists_shared[OF shared_tm_wf[OF f(1) assms(1,2)] f(2,3) Cons.prems(2) this]
  let ?b = "b\<lparr>bk_transfers := smap_put src (transfers_of b src @ [w_next v]) (bk_transfers b)\<rparr>"
  obtain v1 where v1: "bk_action_on_receive E (shared_notification E src dest ip sz f) (b, v) = (Ret True, (?b, v1))"
      "tm_data (w_cells v1 (w_next v)) = shared_tm ip sz f" "w_next v1 = Suc (w_next v)"
      "\<And>q. q < w_next v \<Longrightarrow> w_cells v1 q = w_cells v q"
    using one by blast
  have old: "w_cells v1 r = w_cells v r" if "r \<in> set (transfers_of b src)" for r
    using v1(4) Cons.prems(5) that by (auto simp: list_all_iff)
  have new: "\<not> tm_eq (w_cells v1 r) (shared_tm ip sz g)" if "r \<in> set (transfers_of ?b src)" "g \<in> set fs" for r g
    using that Cons.prems(3) Cons.prems(4)[of r g] old[of r] tm_eq_shared[OF v1(2), of g] by auto
  have "list_all (\<lambda>r. r < w_next v1) (transfers_of ?b src)"
    using Cons.prems(5) v1(3) by (auto simp: list_all_iff)
  then obtain b' v' where ih: "receive_all E (map (shared_notification E src dest ip sz) fs) (?b, v1) = (Ret (), (b', v'))"
      "map (\<lambda>r. tm_data (w_cells v' r)) (transfers_of b' src)
         = map (\<lambda>r. tm_data (w_cells v1 r)) (transfers_of ?b src) @ map (shared_tm ip sz) fs"
      "bk_grp_transfers b' = bk_grp_transfers ?b"
      "\<forall>client. client \<noteq> src \<longrightarrow> map_of (bk_transfers b') client = map_of (bk_transfers ?b) client"
    using Cons.IH[OF f(4), of ?b v1] Cons.prems(2,3) new by auto
  have "receive_all E (map (shared_notification E src dest ip sz) (f # fs)) (b, v) = (Ret (), (b', v'))"
    using ih(1) v1(1) by (simp add: receive_all_def)
  then show ?case using ih(2-4) v1(2) old by auto
qed

section \<open>A client joins a transfer\<close>

text \<open>What a session tells the bookkeepers about a transfer leaves its data alone.\<close>

definition same_data :: "world \<Rightarrow> world \<Rightarrow> bool" where
  "same_data w w' \<longleftrightarrow> w_next w' = w_next w \<and> (\<forall>q. tm_data (w_cells w' q) = tm_data (w_cells w q))"

lemma update_metadata_loop:
  assumes "\<And>t c d e. io_try_send E t c d \<noteq> Raise e"
  shows "\<exists>told w'. and_loop (\<lambda>bk. bind (on_world (tm_export_partial E False r)) (\<lambda>dat.
             ses_send E TRANSFER_METADATA bk bk dat)) ok bks (s, w) = (Ret told, (s, w')) \<and> same_data w w'"
proof (induction bks arbitrary: ok w)
  case Nil
  then show ?case by (simp add: same_data_def)
next
  case (Cons bk bks)
  let ?f = "\<lambda>bk. bind (on_world (tm_export_partial E False r)) (\<lambda>dat. ses_send E TRANSFER_METADATA bk bk dat)"
  have "\<exists>sent w1. (if ok then ?f bk else return False) (s, w) = (Ret sent, (s, w1)) \<and> same_data w w1"
  proof (cases ok)
    case True
    let ?w = "w\<lparr>w_cells := (w_cells w)(r := (w_cells w r)\<lparr>tm_modified_fields := (\<lambda>_. False)\<rparr>)\<rparr>"
    let ?dat = "json_dump E (jobject (export_fields False (w_cells w r)))"
    obtain sent es where "send_notification E (ses_ni s) TRANSFER_METADATA (ses_session_id s) bk bk ?dat (- 1) ?w
        = (Ret sent, ?w\<lparr>w_trace := w_trace ?w @ es\<rparr>)"
      using send_returns[OF assms] send_notification_run by (metis prod.collapse)
    then show ?thesis using True
      by (simp add: run_export_partial ses_send_def) (simp add: same_data_def tm_data_def)
  qed (auto simp: same_data_def)
  then obtain sent w1 where w1: "(if ok then ?f bk else return False) (s, w) = (Ret sent, (s, w1))" "same_data w w1"
    by blast
  obtain told w' where "and_loop ?f sent bks (s, w1) = (Ret told, (s, w'))" "same_data w1 w'" using Cons.IH by blast
  then show ?case using w1 by (auto simp: same_data_def)
qed

lemma session_add_expected:
  assumes "\<And>t c d e. io_try_send E t c d \<noteq> Raise e"
    and "tm_file_path (w_cells w r) \<in> set (gm_expected_files (ses_transfer_options s))"
  shows "\<exists>w'. session_add_file E r (s, w) = (Ret (), (s\<lparr>ses_transfer_options := (ses_transfer_options s)
               \<lparr>gm_expected_files := sset_erase (tm_file_path (w_cells w r)) (gm_expected_files (ses_transfer_options s)),
                gm_transfers_meta := gm_transfers_meta (ses_transfer_options s) @ [r]\<rparr>\<rparr>, w'))
           \<and> same_data (w\<lparr>w_cells := (w_cells w)(r := (w_cells w r)\<lparr>tm_group_id := gm_group_id (ses_transfer_options s)\<rparr>)\<rparr>) w'"
proof -
  let ?w = "w\<lparr>w_cells := (w_cells w)(r := (w_cells w r)\<lparr>tm_group_id := gm_group_id (ses_transfer_options s)\<rparr>)\<rparr>"
  let ?s = "s\<lparr>ses_transfer_options := (ses_transfer_options s)
               \<lparr>gm_expected_files := sset_erase (tm_file_path (w_cells w r)) (gm_expected_files (ses_transfer_options s)),
                gm_transfers_meta := gm_transfers_meta (ses_transfer_options s) @ [r]\<rparr>\<rparr>"
  have add: "on_group (add_file r) (s, w) = (Ret r, (?s, ?w))"
    by (simp add: on_group_def add_file_expected[OF assms(2)] set_group_id_def)
  obtain told w' where upd: "update_metadata_to_bookkeeper E r (?s, ?w) = (Ret told, (?s, w'))" "same_data ?w w'"
    using update_metadata_loop[OF assms(1), of r True "ni_bookkeepers_conn (ses_ni ?s)" ?s ?w]
    unfolding update_metadata_to_bookkeeper_def by auto
  have "session_add_file E r (s, w) = (Ret (), (?s, w'))"
    using upd(1) unfolding session_add_file_def bind_Ret[of "on_group (add_file r)", OF add] by simp
  then show ?thesis using upd(2) by blast
qed

text \<open>The notification that carries a complete transfer to a session.\<close>

definition transfer_notification :: "env \<Rightarrow> string \<Rightarrow> string \<Rightarrow> TransferMetadata \<Rightarrow> NotificationData" where
  "transfer_notification E src target m =
     NotificationData_new src target TRANSFER_METADATA (json_dump E (jobject (export_fields True m)))"

text \<open>The session of a client that a notification names.\<close>

definition named_session :: "string \<Rightarrow> TransferClient \<Rightarrow> nat option" where
  "named_session target c = index_of (\<lambda>s. str_contains (ses_session_id s) target) (cl_sessions c)"

text \<open>The group of a session that accepts an expected file.\<close>

definition group_takes :: "tm_ref \<Rightarrow> string \<Rightarrow> GroupMetadata \<Rightarrow> GroupMetadata" where
  "group_takes r f g = g\<lparr>gm_expected_files := sset_erase f (gm_expected_files g), gm_transfers_meta := gm_transfers_meta g @ [r]\<rparr>"

lemma client_takes_announced:
  fixes i c
  defines "s \<equiv> cl_sessions c ! i"
  assumes "\<And>t c d e. io_try_send E t c d \<noteq> Raise e" "tm_wf m" "json_text_ok E (jobject (export_fields True m))"
    and "named_session target c = Some i" "str_contains target (cl_client_id c)"
    and "tm_file_path m \<in> set (gm_expected_files (ses_transfer_options s))" "ses_ip s \<noteq> tm_src m"
  shows "\<exists>w'. client_action_on_receive fuel E (transfer_notification E src target m) (c, w) = (Ret True,
               (c\<lparr>cl_sessions := (cl_sessions c)[i :=
                  s\<lparr>ses_transfer_options := group_takes (w_next w) (tm_file_path m) (ses_transfer_options s)\<rparr>]\<rparr>, w'))
           \<and> w_next w' = Suc (w_next w)
           \<and> tm_data (w_cells w' (w_next w)) = tm_data (m\<lparr>tm_dest := ses_ip s, tm_group_id := gm_group_id (ses_transfer_options s)\<rparr>)
           \<and> (\<forall>q. q < w_next w \<longrightarrow> tm_data (w_cells w' q) = tm_data (w_cells w q))"
proof -
  let ?dat = "json_dump E (jobject (export_fields True m))" and ?q = "w_next w"
  obtain w1 where w1: "TransferMetadata_of_string E ?dat w = (Ret ?q, w1)"
      "tm_data (w_cells w1 ?q) = tm_data m" "w_next w1 = Suc ?q" "\<And>q. q \<noteq> ?q \<Longrightarrow> w_cells w1 q = w_cells w q"
    using text_builds_object[OF assms(3,4), of w] by blast
  obtain k where k: "w_cells w1 ?q = m\<lparr>tm_modified_fields := k\<rparr>"
    using w1(2) by (cases "w_cells w1 ?q"; cases m) (auto simp: tm_data_def)
  let ?w2 = "w1\<lparr>w_cells := (w_cells w1)(?q := (w_cells w1 ?q)\<lparr>tm_dest := ses_ip s\<rparr>)\<rparr>"
  have dest: "try_update_cell ?q (set_dest (ses_ip s)) w1 = (Ret (), ?w2)"
    using assms(8) by (intro run_try_update_cell_Inr) (simp add: set_dest_def k)
  have "tm_file_path (w_cells ?w2 ?q) \<in> set (gm_expected_files (ses_transfer_options s))"
    using assms(7) by (simp add: k)
  from session_add_expected[OF assms(2) this] obtain w3 where
    add: "session_add_file E ?q (s, ?w2) = (Ret (), (s\<lparr>ses_transfer_options := group_takes ?q (tm_file_path m) (ses_transfer_options s)\<rparr>, w3))"
    and w3: "same_data (?w2\<lparr>w_cells := (w_cells ?w2)(?q := (w_cells ?w2 ?q)\<lparr>tm_group_id := gm_group_id (ses_transfer_options s)\<rparr>)\<rparr>) w3"
    by (auto simp: group_takes_def k)
  have "client_action_on_receive fuel E (transfer_notification E src target m) (c, w) = (Ret True,
      (c\<lparr>cl_sessions := (cl_sessions c)[i := s\<lparr>ses_transfer_options := group_takes ?q (tm_file_path m) (ses_transfer_options s)\<rparr>]\<rparr>, w3))"
    using w1(1) dest add assms(5,6)
    by (simp add: client_action_on_receive_def transfer_notification_def NotificationData_new_def handle_notification_def
        receive_transfer_metadata_def named_session_def on_session_def s_def)
  moreover have "w_next w3 = Suc ?q" using w3 w1(3) by (simp add: same_data_def)
  moreover have "tm_data (w_cells w3 q) = tm_data (w_cells w q)" if "q < ?q" for q
    using w3 w1(4)[of q] that by (simp add: same_data_def)
  moreover have "tm_data (w_cells w3 ?q) = tm_data (m\<lparr>tm_dest := ses_ip s, tm_group_id := gm_group_id (ses_transfer_options s)\<rparr>)"
    using w3 by (simp add: same_data_def k tm_data_def)
  ultimately show ?thesis by blast
qed

text \<open>A client handling a sequence of notifications.\<close>

definition client_receive_all :: "nat \<Rightarrow> env \<Rightarrow> NotificationData list \<Rightarrow> (client_world, unit) action" where
  "client_receive_all fuel E = for_each (\<lambda>d. seq (client_action_on_receive fuel E d) (return ()))"

lemma index_of_update:
  "index_of P xs = Some i \<Longrightarrow> P x = P (xs ! i) \<Longrightarrow> index_of P (xs[i := x]) = Some i"
  by (induction xs arbitrary: i) (auto split: if_splits)

lemma index_of_length: "index_of P xs = Some i \<Longrightarrow> i < length xs"
  by (induction xs arbitrary: i) (auto split: if_splits)

lemma client_takes_all:
  assumes "\<And>t c d e. io_try_send E t c d \<noteq> Raise e" "str_contains target (cl_client_id c)"
    and "list_all (\<lambda>m. tm_wf m \<and> json_text_ok E (jobject (export_fields True m)) \<and> ses_ip s \<noteq> tm_src m) ms"
    and "named_session target c = Some i" "cl_sessions c ! i = s" "ses_transfer_options s = g"
    and "distinct (map tm_file_path ms)" "tm_file_path ` set ms \<subseteq> set (gm_expected_files g)"
    and "list_all (\<lambda>r. r < w_next w) (gm_transfers_meta g)"
  shows "\<exists>g' w'. client_receive_all fuel E (map (transfer_notification E src target) ms) (c, w)
               = (Ret (), (c\<lparr>cl_sessions := (cl_sessions c)[i := s\<lparr>ses_transfer_options := g'\<rparr>]\<rparr>, w'))
           \<and> gm_group_id g' = gm_group_id g \<and> set (gm_expected_files g') = set (gm_expected_files g) - tm_file_path ` set ms
           \<and> map (\<lambda>r. tm_data (w_cells w' r)) (gm_transfers_meta g') = map (\<lambda>r. tm_data (w_cells w r)) (gm_transfers_meta g)
               @ map (\<lambda>m. tm_data (m\<lparr>tm_dest := ses_ip s, tm_group_id := gm_group_id g\<rparr>)) ms"
  using assms(2-)
proof (induction ms arbitrary: c s g w)
  case Nil
  then show ?case by (auto simp: client_receive_all_def intro!: exI[of _ g])
next
  case (Cons m ms)
  let ?g = "group_takes (w_next w) (tm_file_path m) g"
  let ?s = "s\<lparr>ses_transfer_options := ?g\<rparr>"
  let ?c = "c\<lparr>cl_sessions := (cl_sessions c)[i := ?s]\<rparr>"
  have i: "i < length (cl_sessions c)" using Cons.prems(3) index_of_length by (auto simp: named_session_def)
  obtain w1 where w1: "client_action_on_receive fuel E (transfer_notification E src target m) (c, w) = (Ret True, (?c, w1))"
      "w_next w1 = Suc (w_next w)"
      "tm_data (w_cells w1 (w_next w)) = tm_data (m\<lparr>tm_dest := ses_ip s, tm_group_id := gm_group_id g\<rparr>)"
      "\<And>q. q < w_next w \<Longrightarrow> tm_data (w_cells w1 q) = tm_data (w_cells w q)"
    using client_takes_announced[OF assms(1), of m target c i fuel src w] Cons.prems by auto
  have c: "str_contains target (cl_client_id ?c)" "named_session target ?c = Some i" "cl_sessions ?c ! i = ?s"
    using Cons.prems(1,3,4) i by (simp_all add: named_session_def index_of_update)
  have "tm_file_path m \<notin> tm_file_path ` set ms" "tm_file_path ` set ms \<subseteq> set (gm_expected_files g)"
    using Cons.prems(6,7) by simp_all
  then have g: "tm_file_path ` set ms \<subseteq> set (gm_expected_files ?g)" "list_all (\<lambda>r. r < w_next w1) (gm_transfers_meta ?g)"
    using Cons.prems(8) w1(2) by (simp_all add: group_takes_def list_all_iff less_Suc_eq subset_Diff_insert)
  have old: "map (\<lambda>r. tm_data (w_cells w1 r)) (gm_transfers_meta g) = map (\<lambda>r. tm_data (w_cells w r)) (gm_transfers_meta g)"
    using Cons.prems(8) w1(4) by (auto simp: list_all_iff)
  obtain g' w' where ih: "client_receive_all fuel E (map (transfer_notification E src target) ms) (?c, w1)
        = (Ret (), (?c\<lparr>cl_sessions := (cl_sessions ?c)[i := ?s\<lparr>ses_transfer_options := g'\<rparr>]\<rparr>, w'))"
      "gm_group_id g' = gm_group_id ?g" "set (gm_expected_files g') = set (gm_expected_files ?g) - tm_file_path ` set ms"
      "map (\<lambda>r. tm_data (w_cells w' r)) (gm_transfers_meta g') = map (\<lambda>r. tm_data (w_cells w1 r)) (gm_transfers_meta ?g)
         @ map (\<lambda>m. tm_data (m\<lparr>tm_dest := ses_ip ?s, tm_group_id := gm_group_id ?g\<rparr>)) ms"
    using Cons.IH[OF c(1) _ c(2,3) _ _ g] Cons.prems(2,6) by auto
  have "client_receive_all fuel E (map (transfer_notification E src target) (m # ms)) (c, w)
      = (Ret (), (c\<lparr>cl_sessions := (cl_sessions c)[i := s\<lparr>ses_transfer_options := g'\<rparr>]\<rparr>, w'))"
    using ih(1) w1(1) by (simp add: client_receive_all_def)
  then show ?case
    using ih(2-4) old w1(3) by (intro exI[of _ g'] exI[of _ w']) (auto simp: group_takes_def)
qed

text \<open>What an uploader sends to a client it invites.\<close>

lemma export_all_of_data: "tm_data a = tm_data b \<Longrightarrow> export_fields True a = export_fields True b"
  by (cases a; cases b) (simp add: tm_data_def export_fields_def mandatory_fields_def)

lemma announce_transfers:
  assumes "\<And>t c d. io_try_send E t c d = Ret True"
  shows "\<exists>es w'. for_each (\<lambda>r. bind (on_world (tm_export_partial E True r)) (\<lambda>dat.
              seq (cl_send E TRANSFER_METADATA src target client dat) (return ()))) rs (c, w) = (Ret (), (c, w'))
           \<and> w_trace w' = w_trace w @ es \<and> same_data w w'
           \<and> delivered_notifications es = map (\<lambda>r. transfer_notification E src target (w_cells w r)) rs"
proof (induction rs arbitrary: w)
  case Nil
  then show ?case by (auto simp: same_data_def delivered_notifications_def)
next
  case (Cons r rs)
  let ?w = "w\<lparr>w_cells := (w_cells w)(r := (w_cells w r)\<lparr>tm_modified_fields := (\<lambda>_. False)\<rparr>)\<rparr>"
  let ?dat = "json_dump E (jobject (export_fields True (w_cells w r)))"
  obtain es where es: "send_notification E (cl_ni c) TRANSFER_METADATA src target client ?dat (- 1) ?w
        = (Ret True, ?w\<lparr>w_trace := w_trace ?w @ es\<rparr>)"
      "delivered_notifications es = [transfer_notification E src target (w_cells w r)]"
    using send_through[OF assms] unfolding transfer_notification_def by blast
  let ?w1 = "?w\<lparr>w_trace := w_trace w @ es\<rparr>"
  obtain es' w' where ih: "for_each (\<lambda>r. bind (on_world (tm_export_partial E True r)) (\<lambda>dat.
          seq (cl_send E TRANSFER_METADATA src target client dat) (return ()))) rs (c, ?w1) = (Ret (), (c, w'))"
      "w_trace w' = w_trace ?w1 @ es'" "same_data ?w1 w'"
      "delivered_notifications es' = map (\<lambda>r. transfer_notification E src target (w_cells ?w1 r)) rs"
    using Cons.IH[of ?w1] by blast
  have "export_fields True (w_cells ?w1 q) = export_fields True (w_cells w q)" for q
    by (rule export_all_of_data) (simp add: tm_data_def)
  then have "delivered_notifications (es @ es') = map (\<lambda>r. transfer_notification E src target (w_cells w r)) (r # rs)"
    using es(2) ih(4) by (simp add: transfer_notification_def)
  moreover have "same_data w w'" using ih(3) by (simp add: same_data_def tm_data_def)
  moreover have "for_each (\<lambda>r. bind (on_world (tm_export_partial E True r)) (\<lambda>dat.
      seq (cl_send E TRANSFER_METADATA src target client dat) (return ()))) (r # rs) (c, w) = (Ret (), (c, w'))"
    using es(1) ih(1) by (simp add: run_export_partial cl_send_def)
  moreover have "w_trace w' = w_trace w @ (es @ es')" using ih(2) by simp
  ultimately show ?case by blast
qed

definition invitation :: "env \<Rightarrow> TransferClient \<Rightarrow> world \<Rightarrow> string \<Rightarrow> string \<Rightarrow> GroupMetadata \<Rightarrow> NotificationData list" where
  "invitation E c w tid client g =
     (let target = generate_session_id c tid client in
      NotificationData_new (cl_client_id c) target NEW_TRANSFER (gm_export_to_string E (w_cells w) g)
      # map (\<lambda>r. transfer_notification E (cl_client_id c) target (w_cells w r)) (gm_transfers_meta g))"

lemma invite_client_sends:
  assumes "\<And>t c d. io_try_send E t c d = Ret True"
  shows "\<exists>es w'. invite_client E tid i client (c, w) = (Ret (), (c, w')) \<and> w_trace w' = w_trace w @ es \<and> same_data w w'
           \<and> delivered_notifications es = invitation E c w tid client (ses_transfer_options (cl_sessions c ! i))"
proof -
  let ?g = "ses_transfer_options (cl_sessions c ! i)" and ?t = "generate_session_id c tid client"
  obtain es where es: "send_notification E (cl_ni c) NEW_TRANSFER (cl_client_id c) ?t client (gm_export_to_string E (w_cells w) ?g) (- 1) w
        = (Ret True, w\<lparr>w_trace := w_trace w @ es\<rparr>)"
      "delivered_notifications es = [NotificationData_new (cl_client_id c) ?t NEW_TRANSFER (gm_export_to_string E (w_cells w) ?g)]"
    using send_through[OF assms] by blast
  obtain es' w' where all: "for_each (\<lambda>r. bind (on_world (tm_export_partial E True r)) (\<lambda>dat.
          seq (cl_send E TRANSFER_METADATA (cl_client_id c) ?t client dat) (return ()))) (gm_transfers_meta ?g)
          (c, w\<lparr>w_trace := w_trace w @ es\<rparr>) = (Ret (), (c, w'))"
      "w_trace w' = w_trace (w\<lparr>w_trace := w_trace w @ es\<rparr>) @ es'" "same_data (w\<lparr>w_trace := w_trace w @ es\<rparr>) w'"
      "delivered_notifications es' = map (\<lambda>r. transfer_notification E (cl_client_id c) ?t (w_cells (w\<lparr>w_trace := w_trace w @ es\<rparr>) r)) (gm_transfers_meta ?g)"
    using announce_transfers[OF assms, of "cl_client_id c" ?t client "gm_transfers_meta ?g" c "w\<lparr>w_trace := w_trace w @ es\<rparr>"]
    by blast
  have "invite_client E tid i client (c, w) = (Ret (), (c, w'))"
    using es(1) all(1) by (simp add: invite_client_def cl_send_def Let_def)
  then show ?thesis
    using es(2) all(2-4) by (intro exI[of _ "es @ es'"] exI[of _ w']) (simp add: invitation_def same_data_def Let_def)
qed

lemma create_session_run:
  assumes "create_session E g ty sid dir ip dests (c, w) = (Ret n, (c', w'))"
  shows "\<exists>s. c' = c\<lparr>cl_sessions := cl_sessions c @ [s]\<rparr> \<and> ses_session_id s = sid \<and> ses_type s = ty
           \<and> ses_transfer_options s = g \<and> ses_ip s = (if is_default ip then cl_listening_ip c else ip)"
proof -
  let ?ip = "if is_default ip then cl_listening_ip c else ip"
  obtain o1 w1 where new: "TransferSession_new E (uninit_bool E) g ty sid ?ip dir
      (ni_bookkeepers_conn (cl_ni c)) (ni_clients_conn (cl_ni c)) w = (o1, w1)"
    by (metis prod.exhaust)
  show ?thesis
  proof (cases o1)
    case (Ret s)
    then have "c' = c\<lparr>cl_sessions := cl_sessions c @ [set_target_clients dests s]\<rparr>"
      using assms new by (simp add: create_session_def Let_def)
    then show ?thesis using TransferSession_new_fields[OF new[unfolded Ret]] by (auto simp: set_target_clients_def)
  next
    case (Raise e)
    then show ?thesis using assms new by (simp add: create_session_def Let_def)
  qed
qed

lemma index_of_append: "index_of P xs = None \<Longrightarrow> P x \<Longrightarrow> index_of P (xs @ [x]) = Some (length xs)"
  by (induction xs) (auto split: if_splits)

lemma invited_client_opens_session:
  assumes "GroupMetadata_of_string E (uninit_protocol E) dat v = (Ret g, v)"
    and "client_action_on_receive fuel E (NotificationData_new src target NEW_TRANSFER dat) (d, v) = (Ret ok, (d1, v1))"
    and "str_contains target (cl_client_id d)" "named_session target d = None"
  shows "\<exists>s. d1 = d\<lparr>cl_sessions := cl_sessions d @ [s]\<rparr> \<and> ses_session_id s = target \<and> ses_transfer_options s = g
           \<and> ses_ip s = cl_listening_ip d \<and> named_session target d1 = Some (length (cl_sessions d))"
proof -
  have "\<exists>ty dir n. create_session E g ty target dir default_ip [] (d, v) = (Ret n, (d1, v1))"
    using assms(1,2,3) by (auto simp: client_action_on_receive_def NotificationData_new_def handle_notification_def
        receive_new_transfer_def Let_def seq_eq_Ret bind_eq_Ret on_world_def split: prod.splits if_splits)
  then obtain ty dir n where "create_session E g ty target dir default_ip [] (d, v) = (Ret n, (d1, v1))" by blast
  moreover have "is_default default_ip" by (simp add: is_default_def default_ip_def)
  ultimately obtain s where "d1 = d\<lparr>cl_sessions := cl_sessions d @ [s]\<rparr>" "ses_session_id s = target"
      "ses_transfer_options s = g" "ses_ip s = cl_listening_ip d"
    using create_session_run[of E g ty target dir default_ip "[]" d v n d1 v1] by auto
  then show ?thesis using assms(4) by (auto simp: named_session_def index_of_append)
qed

text \<open>A transfer that can be announced to a client with address \<open>ip\<close>.\<close>

definition announceable :: "env \<Rightarrow> IPFormat \<Rightarrow> TransferMetadata \<Rightarrow> bool" where
  "announceable E ip m \<longleftrightarrow> tm_wf m \<and> json_text_ok E (jobject (export_fields True m)) \<and> ip \<noteq> tm_src m"

section \<open>Sample data\<close>

lemma shared_json_inj:
  assumes "jobject (export_fields True (shared_tm ip sz f)) = jobject (export_fields True (shared_tm ip sz f'))"
  shows "f = f'"
proof -
  have path: "jmember (jobject (export_fields True (shared_tm ip sz g))) ''file_path'' = Some (JStr g)" for g
    by (simp add: export_fields_True_member)
  show ?thesis using arg_cong[OF assms, of "\<lambda>j. jmember j ''file_path''"] unfolding path by simp
qed

definition sample_shared_env :: env where
  "sample_shared_env =
     (let j = (\<lambda>f. jobject (export_fields True (shared_tm (cl_listening_ip sample_client) (\<lambda>_. 0) f)))
      in two_json_env (j ''/data/a'') (j ''/data/b''))"

definition sample_dummy_group :: GroupMetadata where
  "sample_dummy_group = GroupMetadata_new ''g1'' ''client0_sesg1'' \<lparr>m_ip = ''10.0.0.1'', m_port = 5000\<rparr> dummy JNull [0]"

definition sample_group_json :: json where
  "sample_group_json = jobject (gm_export_fields (quiet_env\<lparr>json_dump := (\<lambda>_. ''O'')\<rparr>) (\<lambda>_. sample_tm) sample_dummy_group)"

definition three_json_env :: env where
  "three_json_env = quiet_env
     \<lparr>json_dump := (\<lambda>j. if j = JNull then ''O'' else if j = sample_group_json then ''G'' else ''T''),
      json_parse := (\<lambda>s. if s = ''O'' then Some JNull else if s = ''G'' then Some sample_group_json
                        else Some (jobject (export_fields True sample_tm)))\<rparr>"

definition sample_uploader :: TransferClient where
  "sample_uploader = sample_client\<lparr>cl_sessions := [sample_session\<lparr>ses_transfer_options := sample_dummy_group\<rparr>]\<rparr>"

definition sample_downloader :: TransferClient where
  "sample_downloader = sample_client\<lparr>cl_client_id := ''client1'', cl_listening_ip := \<lparr>m_ip = ''10.0.0.3'', m_port = 5002\<rparr>,
     cl_ni := NotificationInterface_with_conns [] [''client0''] ''snbmodules'' 10 100\<rparr>"

lemma sample_jsons_differ:
  "sample_group_json \<noteq> jobject (export_fields True sample_tm)" "sample_group_json \<noteq> JNull"
  "jobject (export_fields True m) \<noteq> JNull"
proof -
  have "jmember sample_group_json ''hash'' \<noteq> jmember (jobject (export_fields True sample_tm)) ''hash''"
    by (simp add: sample_group_json_def gm_export_fields_def export_fields_True_member)
  then show "sample_group_json \<noteq> jobject (export_fields True sample_tm)" by metis
qed (simp_all add: sample_group_json_def jobject_def)

lemma sample_group_exported: "jobject (gm_export_fields three_json_env (\<lambda>_. sample_tm) sample_dummy_group) = sample_group_json"
  by (simp add: sample_group_json_def gm_export_fields_def sample_dummy_group_def GroupMetadata_new_def three_json_env_def)

lemma sample_json_ok:
  "json_text_ok three_json_env JNull" "json_text_ok three_json_env sample_group_json"
  "json_text_ok three_json_env (jobject (export_fields True sample_tm))"
  using sample_jsons_differ by (simp_all add: json_text_ok_def three_json_env_def)

lemma sample_dummy_group_sel [simp]: "gm_protocol_options sample_dummy_group = JNull" "gm_transfers_meta sample_dummy_group = [0]"
  "gm_source_ip sample_dummy_group = \<lparr>m_ip = ''10.0.0.1'', m_port = 5000\<rparr>" "gm_protocol sample_dummy_group = dummy"
  by (simp_all add: sample_dummy_group_def GroupMetadata_new_def)

lemma dummy_session_opens:
  assumes "gm_protocol g = dummy" "gm_transfers_meta g = []" "\<And>t p. fs_make_dirs E t p = Ret ()"
  shows "\<exists>s w'. TransferSession_new E b g ty sid ip dir [] cls w = (Ret s, w')"
proof -
  have "\<exists>s w'. session_ctor_body E b (session_blank g ty sid ip dir [] cls, w) = (Ret (), (s, w'))"
    using assms by (simp add: session_ctor_body_def session_blank_def ask_Ret init_interface_def set_interface_def
        update_metadatas_to_bookkeeper_def NotificationInterface_with_conns_def Let_def)
  then show ?thesis by (auto simp: TransferSession_new_def)
qed

lemma new_transfer_accepted:
  assumes "GroupMetadata_of_string E (uninit_protocol E) dat v = (Ret g, v)" "str_contains target (cl_client_id d)"
    and "\<And>ty dir. \<exists>s w'. TransferSession_new E (uninit_bool E) g ty target (cl_listening_ip d) dir
          (ni_bookkeepers_conn (cl_ni d)) (ni_clients_conn (cl_ni d)) v = (Ret s, w')"
  shows "fst (client_action_on_receive fuel E (NotificationData_new src target NEW_TRANSFER dat) (d, v)) = Ret True"
proof -
  define ty where "ty = (if list_ex (\<lambda>f. map_of (cl_available_files d) f \<noteq> None) (gm_expected_files g) then Uploader else Downloader)"
  define dir where "dir = path_append (cl_listening_dir d) (gm_group_id g)"
  obtain s w' where new: "TransferSession_new E (uninit_bool E) g ty target (cl_listening_ip d) dir
      (ni_bookkeepers_conn (cl_ni d)) (ni_clients_conn (cl_ni d)) v = (Ret s, w')" using assms(3) by blast
  have "is_default default_ip" by (simp add: is_default_def default_ip_def)
  then have ses: "create_session E g ty target dir default_ip [] (d, v) =
      (Ret (length (cl_sessions d)), (d\<lparr>cl_sessions := cl_sessions d @ [set_target_clients [] s]\<rparr>, w'))"
    using new by (simp add: create_session_def Let_def)
  have "receive_new_transfer E (NotificationData_new src target NEW_TRANSFER dat) (d, v) =
      (Ret (), (d\<lparr>cl_sessions := cl_sessions d @ [set_target_clients [] s]\<rparr>, w'))"
    using assms(1) ses unfolding ty_def dir_def
    by (simp add: receive_new_transfer_def NotificationData_new_def Let_def del: not_None_eq)
  then show ?thesis using assms(2)
    by (simp add: client_action_on_receive_def NotificationData_new_def handle_notification_def)
qed

lemma sample_invitation_accepted:
  "fst (client_action_on_receive 0 three_json_env (NotificationData_new ''client0'' ''client1_sesg1'' NEW_TRANSFER
     (gm_export_to_string three_json_env (\<lambda>_. sample_tm) sample_dummy_group)) (sample_downloader, world_init)) = Ret True"
proof -
  have v: "valid_ip (gm_source_ip sample_dummy_group)" unfolding sample_dummy_group_sel by code_simp
  have c: "list_all (\<lambda>r. clean_abs (tm_file_path sample_tm)) (gm_transfers_meta sample_dummy_group)"
    using sample_tm_wf by (simp add: tm_wf_def)
  obtain g where g: "GroupMetadata_of_string three_json_env (uninit_protocol three_json_env)
      (gm_export_to_string three_json_env (\<lambda>_. sample_tm) sample_dummy_group) world_init = (Ret g, world_init)"
      "gm_protocol g = dummy" "gm_transfers_meta g = []"
    using group_text_arrives[OF v c, of three_json_env "uninit_protocol three_json_env" world_init] sample_json_ok
    by (auto simp: sample_group_exported)
  have "ni_bookkeepers_conn (cl_ni sample_downloader) = []"
    by (simp add: sample_downloader_def NotificationInterface_with_conns_def)
  moreover have "fs_make_dirs three_json_env t p = Ret ()" for t p by (simp add: three_json_env_def quiet_env_def)
  moreover have "str_contains ''client1_sesg1'' (cl_client_id sample_downloader)" by code_simp
  ultimately show ?thesis
    using g(1) dummy_session_opens[OF g(2,3)] by (intro new_transfer_accepted) auto
qed

end
