(* ===== verification/Group_Propagation.thy ===== *)
theory Group_Propagation
  imports Conversations
begin

text \<open>
  How an operation on a whole group reaches the other machines: what a session sends when it starts, pauses,
  resumes or cancels its group, taken from its trace and handled by the clients it is sent to.
\<close>

section \<open>The operations on a group\<close>

fun group_run :: "env \<Rightarrow> e_notification_type \<Rightarrow> (session_world, bool) action" where
  "group_run E START_TRANSFER = session_start_all E"
| "group_run E PAUSE_TRANSFER = session_pause_all E"
| "group_run E RESUME_TRANSFER = session_resume_all E"
| "group_run E CANCEL_TRANSFER = session_cancel_all E"
| "group_run E _ = return False"

fun file_op_of :: "e_notification_type \<Rightarrow> TransferSession \<Rightarrow> file_op" where
  "file_op_of PAUSE_TRANSFER s = OpPause"
| "file_op_of RESUME_TRANSFER s = OpResume"
| "file_op_of CANCEL_TRANSFER s = OpCancel"
| "file_op_of _ s = (if ses_type s = Uploader then OpUpload else OpDownload (ses_work_dir s))"

definition group_op :: "e_notification_type \<Rightarrow> bool" where
  "group_op n \<longleftrightarrow> n \<in> {START_TRANSFER, PAUSE_TRANSFER, RESUME_TRANSFER, CANCEL_TRANSFER}"

text \<open>A session with the dummy protocol whose transfers are all in a state that allows the operation.\<close>

definition group_allows :: "e_notification_type \<Rightarrow> TransferSession \<Rightarrow> world \<Rightarrow> bool" where
  "group_allows n s w \<longleftrightarrow> ses_interface s = IfDummy \<and> distinct (gm_transfers_meta (ses_transfer_options s))
     \<and> list_all (\<lambda>r. allowed (file_op_of n s) (tm_status (w_cells w r))) (gm_transfers_meta (ses_transfer_options s))"

definition group_reached :: "e_notification_type \<Rightarrow> TransferSession \<Rightarrow> world \<Rightarrow> bool" where
  "group_reached n s w \<longleftrightarrow> list_all (\<lambda>r. tm_status (w_cells w r) = target_status (file_op_of n s) (ses_type s))
     (gm_transfers_meta (ses_transfer_options s))"

section \<open>What a session sends\<close>

text \<open>The delivered notifications of one kind, in a part of the trace.\<close>

definition of_kind :: "e_notification_type \<Rightarrow> trace \<Rightarrow> NotificationData list" where
  "of_kind n es = filter (\<lambda>d. m_notification d = notification_to_string n) (delivered_notifications es)"

lemma of_kind_append [simp]: "of_kind n (a @ b) = of_kind n a @ of_kind n b"
  by (simp add: of_kind_def)

lemma of_kind_sent: "of_kind n es = (if n = k then delivered_notifications es else [])"
  if "delivered_notifications es = (if sent then [NotificationData_new src dst k dat] else [])"
  using that by (auto simp: of_kind_def NotificationData_new_def notif.encode_inj)

text \<open>An action of a session with the dummy protocol that delivers nothing of the kind.\<close>

definition mute :: "e_notification_type \<Rightarrow> session_world \<Rightarrow> session_world \<Rightarrow> bool" where
  "mute n st st' \<longleftrightarrow> (ses_interface (fst st) = IfDummy \<longrightarrow> ses_interface (fst st') = IfDummy
     \<and> (\<exists>es. w_trace (snd st') = w_trace (snd st) @ es \<and> of_kind n es = []))"

interpretation mute: frame_order "mute n"
proof
  show "mute n st st" for st
    by (auto simp: mute_def of_kind_def delivered_notifications_def)
  show "mute n st st''" if "mute n st st'" "mute n st' st''" for st st' st''
    using that by (auto simp: mute_def)
qed

lemma mute_world:
  assumes "\<And>w. \<exists>es. w_trace (snd (f w)) = w_trace w @ es \<and> delivered_notifications es = []"
  shows "keeps (mute n) (on_world f)"
proof
  fix st :: session_world
  obtain s w where st: "st = (s, w)" by (cases st)
  obtain r w' where f: "f w = (r, w')" by (cases "f w")
  then show "mute n st (snd (on_world f st))"
    using assms[of w] by (auto simp: st mute_def on_world_def of_kind_def)
qed

lemma no_delivery [simp]: "delivered_notifications [] = []" "delivered_notifications (EvClock t # es) = delivered_notifications es"
  "delivered_notifications (EvSleep k # es) = delivered_notifications es" "delivered_notifications (EvIssue v i # es) = delivered_notifications es"
  by (simp_all add: delivered_notifications_def)

lemma mute_basic:
  "keeps (mute n) (on_world (set_status_at E r st))" "keeps (mute n) (on_world (sleep_ms k))" "keeps (mute n) (on_world (cell r))"
  "keeps (mute n) (on_world (ers_warning i))" "keeps (mute n) (on_world (reads g))" "keeps (mute n) (on_world (tm_export_partial E b r))"
  by (rule mute_world; simp add: run_set_status_at sleep_ms_def log_event_def cell_def ers_warning_def run_export_partial)+

lemma mute_self: "keeps (mute n) self"
  by (auto simp: keeps_def self_def mute.frame_refl)

lemma mute_send: "n \<noteq> k \<Longrightarrow> keeps (mute n) (ses_send E k dst c dat)"
proof -
  assume nk: "n \<noteq> k"
  show ?thesis
  proof
    fix st :: session_world
    obtain s w where st: "st = (s, w)" by (cases st)
    obtain out w' where run: "send_notification E (ses_ni s) k (ses_session_id s) dst c dat (- 1) w = (out, w')" by fastforce
    obtain es where es: "w' = w\<lparr>w_trace := w_trace w @ es\<rparr>"
        "delivered_notifications es = (if out = Ret True then [NotificationData_new (ses_session_id s) dst k dat] else [])"
      using send_delivers[OF run] by blast
    then have "of_kind n es = []" using nk of_kind_sent[OF es(2), of n] by simp
    then show "mute n st (snd (ses_send E k dst c dat st))"
      using run es(1) by (auto simp: st ses_send_def self_def on_world_def bind_def mute_def)
  qed
qed

lemmas mute_rules = mute.frame_rules mute_basic mute_self mute_send

lemma mute_session:
  "keeps (mute n) (warn_unless_type ty nm)" "keeps (mute n) (wrong_state r fut)" "keeps (mute n) (error_unless E r res)"
  unfolding warn_unless_type_def wrong_state_def error_unless_def
  by (intro mute_rules)+

lemma mute_multiple: "keeps (mute n) (notify_single E True k r)"
  by (simp add: notify_single_def mute.keeps_return)

lemma mute_iface:
  "keeps (mute n) (on_iface (iface_upload_file E r))" "keeps (mute n) (on_iface (iface_download_file E r dest))"
  "keeps (mute n) (on_iface (iface_pause_file E r))" "keeps (mute n) (on_iface (iface_resume_file E r))"
  "keeps (mute n) (on_iface (iface_hash_file E r))" "keeps (mute n) (on_iface (iface_cancel_file E r))"
  by (auto simp: keeps_def mute_def dummy_iface of_kind_def)

lemma mute_op: "keeps (mute n) (run_op E op r True)"
  by (cases op; simp add: session_op_defs; intro mute_rules mute_session mute_multiple mute_iface)

lemma mute_update:
  assumes "group_op n"
  shows "keeps (mute n) (update_metadata_to_bookkeeper E r)" "keeps (mute n) (update_metadatas_to_bookkeeper E)"
proof -
  have "n \<noteq> TRANSFER_METADATA" "n \<noteq> GROUP_METADATA" using assms by (auto simp: group_op_def)
  then show one: "keeps (mute n) (update_metadata_to_bookkeeper E r)" for r
    unfolding update_metadata_to_bookkeeper_def by (intro mute_rules)
  show "keeps (mute n) (update_metadatas_to_bookkeeper E)"
    unfolding update_metadatas_to_bookkeeper_def
    using \<open>n \<noteq> GROUP_METADATA\<close> by (intro mute_rules one)
qed

text \<open>The loop over the files.\<close>

lemma files_run:
  assumes "group_allows n s w"
  shows "\<exists>w' es. all_files (\<lambda>r. run_op E (file_op_of n s) r True) (s, w) = (Ret True, (s, w'))
           \<and> group_reached n s w' \<and> w_trace w' = w_trace w @ es \<and> of_kind k es = []"
proof -
  let ?rs = "gm_transfers_meta (ses_transfer_options s)"
  obtain w' where w': "and_loop (\<lambda>r. run_op E (file_op_of n s) r True) True ?rs (s, w) = (Ret True, (s, w'))"
      "\<forall>r\<in>set ?rs. tm_status (w_cells w' r) = target_status (file_op_of n s) (ses_type s)"
    using dummy_loop_run[of s ?rs "file_op_of n s" w E] assms by (auto simp: group_allows_def list_all_iff)
  have "mute k (s, w) (s, w')"
    using keeps_run[OF mute.keeps_and_loop w'(1)] mute_op by blast
  moreover have "all_files (\<lambda>r. run_op E (file_op_of n s) r True) (s, w) = (Ret True, (s, w'))"
    using w'(1) by (simp add: all_files_def)
  ultimately show ?thesis
    using w'(2) assms by (auto simp: mute_def group_allows_def group_reached_def list_all_iff)
qed

text \<open>The notifications to the target clients.\<close>

definition announcements :: "e_notification_type \<Rightarrow> TransferSession \<Rightarrow> NotificationData list" where
  "announcements n s = map (\<lambda>client. NotificationData_new (ses_session_id s)
     (client @ ''_ses'' @ gm_group_id (ses_transfer_options s)) n []) (ses_target_clients s)"

lemma targets_run:
  assumes "\<And>t c d. io_try_send E t c d = Ret True"
  shows "\<exists>es. send_notification_to_targets E n [] (s, w) = (Ret True, (s, w\<lparr>w_trace := w_trace w @ es\<rparr>))
           \<and> delivered_notifications es = announcements n s"
proof -
  have "\<exists>es. and_all_loop (\<lambda>client. ses_send E n (client @ ''_ses'' @ gm_group_id (ses_transfer_options s)) client []) True cs (s, w)
        = (Ret True, (s, w\<lparr>w_trace := w_trace w @ es\<rparr>))
      \<and> delivered_notifications es = map (\<lambda>client. NotificationData_new (ses_session_id s)
          (client @ ''_ses'' @ gm_group_id (ses_transfer_options s)) n []) cs" for cs
  proof (induction cs arbitrary: w)
    case Nil
    show ?case by (rule exI[of _ "[]"]) simp
  next
    case (Cons client cs)
    let ?dst = "client @ ''_ses'' @ gm_group_id (ses_transfer_options s)"
    obtain es where es: "send_notification E (ses_ni s) n (ses_session_id s) ?dst client [] (- 1) w = (Ret True, w\<lparr>w_trace := w_trace w @ es\<rparr>)"
        "delivered_notifications es = [NotificationData_new (ses_session_id s) ?dst n []]"
      using send_through[OF assms] by blast
    let ?w = "w\<lparr>w_trace := w_trace w @ es\<rparr>"
    obtain es' where "and_all_loop (\<lambda>client. ses_send E n (client @ ''_ses'' @ gm_group_id (ses_transfer_options s)) client []) True cs (s, ?w)
        = (Ret True, (s, ?w\<lparr>w_trace := w_trace ?w @ es'\<rparr>))"
      "delivered_notifications es' = map (\<lambda>client. NotificationData_new (ses_session_id s)
          (client @ ''_ses'' @ gm_group_id (ses_transfer_options s)) n []) cs" using Cons.IH[of ?w] by blast
    then show ?case using es by (intro exI[of _ "es @ es'"]) (simp add: ses_send_def)
  qed
  then show ?thesis by (simp add: send_notification_to_targets_def announcements_def)
qed

lemma announcements_kind: "delivered_notifications es = announcements n s \<Longrightarrow> of_kind n es = announcements n s"
  by (simp add: of_kind_def announcements_def NotificationData_new_def comp_def)

text \<open>The updates for the bookkeepers return, whoever listens.\<close>

lemma and_loop_returns:
  assumes "\<And>x w. \<exists>b w'. f x (s, w) = (Ret b, (s, w'))"
  shows "\<exists>b w'. and_loop f ok xs (s, w) = (Ret b, (s, w'))"
proof (induction xs arbitrary: ok w)
  case (Cons x xs)
  obtain b w1 where "f x (s, w) = (Ret b, (s, w1))" using assms by blast
  moreover obtain b' w' where "and_loop f b xs (s, w1) = (Ret b', (s, w'))" using Cons.IH by blast
  ultimately show ?case by (cases ok) auto
qed auto

lemma update_run:
  assumes "\<And>t c d e. io_try_send E t c d \<noteq> Raise e" "group_op n" "ses_interface s = IfDummy"
  shows "\<exists>b w' es. update_metadatas_to_bookkeeper E (s, w) = (Ret b, (s, w')) \<and> w_trace w' = w_trace w @ es \<and> of_kind n es = []
           \<and> (\<forall>q. tm_status (w_cells w' q) = tm_status (w_cells w q))"
proof -
  let ?f = "\<lambda>bk. bind (on_world (reads w_cells)) (\<lambda>cells. ses_send E GROUP_METADATA bk bk (gm_export_to_string E cells (ses_transfer_options s)))"
  have send: "\<exists>sent w1. ?f bk (s, w) = (Ret sent, (s, w1))" for bk w
  proof -
    obtain sent w1 where "send_notification E (ses_ni s) GROUP_METADATA (ses_session_id s) bk bk
        (gm_export_to_string E (w_cells w) (ses_transfer_options s)) (- 1) w = (Ret sent, w1)"
      using send_returns[OF assms(1)] by (metis prod.collapse)
    then show ?thesis by (simp add: ses_send_def)
  qed
  have one: "\<exists>b w'. update_metadata_to_bookkeeper E r (s, w) = (Ret b, (s, w'))" for r w
    using update_metadata_loop[OF assms(1), of r True "ni_bookkeepers_conn (ses_ni s)" s w]
    by (auto simp: update_metadata_to_bookkeeper_def)
  have group: "\<exists>b w'. and_loop ?f True bks (s, w) = (Ret b, (s, w'))" for bks by (rule and_loop_returns, rule send)
  have files: "\<exists>b w'. and_loop (update_metadata_to_bookkeeper E) ok rs (s, w) = (Ret b, (s, w'))" for ok rs w
    by (rule and_loop_returns, rule one)
  obtain b1 w1 b2 w2 where "and_loop ?f True (ni_bookkeepers_conn (ses_ni s)) (s, w) = (Ret b1, (s, w1))"
      "and_loop (update_metadata_to_bookkeeper E) b1 (gm_transfers_meta (ses_transfer_options s)) (s, w1) = (Ret b2, (s, w2))"
    using group files by metis
  then have run: "update_metadatas_to_bookkeeper E (s, w) = (Ret b2, (s, w2))" by (simp add: update_metadatas_to_bookkeeper_def)
  show ?thesis
    using run keeps_run[OF mute_update(2)[OF assms(2)] run] quiet_run[OF quiet_frames(1) run] assms(3)
    by (auto simp: mute_def)
qed

text \<open>An operation on the group: it returns true, reaches every transfer, and announces itself to the targets.\<close>

lemma group_status_only:
  "\<forall>q. tm_status (w_cells v q) = tm_status (w_cells w q) \<Longrightarrow> group_allows n s v = group_allows n s w"
  "\<forall>q. tm_status (w_cells v q) = tm_status (w_cells w q) \<Longrightarrow> group_reached n s v = group_reached n s w"
  by (simp_all add: group_allows_def group_reached_def)

lemma update_reached:
  assumes "\<And>t c d. io_try_send E t c d = Ret True" "group_op n" "ses_interface s = IfDummy" "group_reached n s v"
  shows "\<exists>b w' es. update_metadatas_to_bookkeeper E (s, v) = (Ret b, (s, w')) \<and> group_reached n s w' \<and> w_trace w' = w_trace v @ es
           \<and> of_kind n es = []"
proof -
  have "io_try_send E t c d \<noteq> Raise e" for t c d e by (simp add: assms(1))
  from update_run[OF this assms(2,3), of v] show ?thesis using group_status_only(2)[of _ v n s] assms(4) by blast
qed

lemma tell_update_reached:
  assumes "\<And>t c d. io_try_send E t c d = Ret True" "group_op n" "ses_interface s = IfDummy" "group_reached n s v"
  shows "\<exists>b v1 b' w' es. send_notification_to_targets E n [] (s, v) = (Ret b, (s, v1))
      \<and> update_metadatas_to_bookkeeper E (s, v1) = (Ret b', (s, w')) \<and> group_reached n s w' \<and> w_trace w' = w_trace v @ es
      \<and> of_kind n es = announcements n s"
proof -
  obtain e where e: "send_notification_to_targets E n [] (s, v) = (Ret True, (s, v\<lparr>w_trace := w_trace v @ e\<rparr>))"
      "of_kind n e = announcements n s" using targets_run[OF assms(1)] announcements_kind by blast
  have reached: "group_reached n s (v\<lparr>w_trace := w_trace v @ e\<rparr>)" using assms(4) by (simp add: group_reached_def)
  obtain b w' e' where "update_metadatas_to_bookkeeper E (s, v\<lparr>w_trace := w_trace v @ e\<rparr>) = (Ret b, (s, w'))"
      "group_reached n s w'"
      "w_trace w' = w_trace (v\<lparr>w_trace := w_trace v @ e\<rparr>) @ e'" "of_kind n e' = []"
    using update_reached[OF assms(1-3) reached] by blast
  then show ?thesis using e
    by (intro exI[of _ True] exI[of _ "v\<lparr>w_trace := w_trace v @ e\<rparr>"] exI[of _ b] exI[of _ w'] exI[of _ "e @ e'"]) simp
qed

lemma sleep_run: "on_world (sleep_ms k) (s, v) = (Ret (), (s, v\<lparr>w_trace := w_trace v @ [EvSleep k]\<rparr>))"
  by (simp add: sleep_ms_def log_event_def)

lemma of_kind_sleep: "of_kind n (EvSleep k # es) = of_kind n es"
  by (simp add: of_kind_def)

lemma warn_own_type:
  "ses_type s = ty \<Longrightarrow> warn_unless_type ty nm (s, w) = (Ret (), (s, w))"
  by (simp add: warn_unless_type_def)

lemma start_reaches:
  assumes "\<And>t c d. io_try_send E t c d = Ret True" "group_allows START_TRANSFER s w"
  shows "\<exists>w' es. session_start_all E (s, w) = (Ret True, (s, w')) \<and> group_reached START_TRANSFER s w' \<and> w_trace w' = w_trace w @ es
           \<and> of_kind START_TRANSFER es = (if ses_type s = Downloader then [] else announcements START_TRANSFER s)"
proof -
  let ?n = START_TRANSFER
  have op: "group_op ?n" and dummy: "ses_interface s = IfDummy" using assms(2) by (simp_all add: group_op_def group_allows_def)
  obtain w1 e1 where w1: "all_files (\<lambda>r. run_op E (file_op_of ?n s) r True) (s, w) = (Ret True, (s, w1))" "group_reached ?n s w1"
      "w_trace w1 = w_trace w @ e1" "of_kind ?n e1 = []" using files_run[OF assms(2)] by blast
  show ?thesis
  proof (cases "ses_type s")
    case Uploader
    obtain b v1 b' w' es where "send_notification_to_targets E ?n [] (s, w1) = (Ret b, (s, v1))"
        "update_metadatas_to_bookkeeper E (s, v1) = (Ret b', (s, w'))" "group_reached ?n s w'" "w_trace w' = w_trace w1 @ es"
        "of_kind ?n es = announcements ?n s" using tell_update_reached[OF assms(1) op dummy w1(2)] by blast
    then show ?thesis using w1 Uploader
      by (intro exI[of _ w'] exI[of _ "e1 @ es"]) (simp add: session_start_all_def session_upload_all_def warn_own_type)
  next
    case Downloader
    obtain b w' es where "update_metadatas_to_bookkeeper E (s, w1) = (Ret b, (s, w'))" "group_reached ?n s w'"
        "w_trace w' = w_trace w1 @ es" "of_kind ?n es = []" using update_reached[OF assms(1) op dummy w1(2)] by blast
    then show ?thesis using w1 Downloader
      by (intro exI[of _ w'] exI[of _ "e1 @ es"]) (simp add: session_start_all_def session_download_all_def warn_own_type)
  qed
qed

lemma pause_reaches:
  assumes "\<And>t c d. io_try_send E t c d = Ret True" "group_allows PAUSE_TRANSFER s w"
  shows "\<exists>w' es. session_pause_all E (s, w) = (Ret True, (s, w')) \<and> group_reached PAUSE_TRANSFER s w' \<and> w_trace w' = w_trace w @ es
           \<and> of_kind PAUSE_TRANSFER es = announcements PAUSE_TRANSFER s"
proof -
  let ?n = PAUSE_TRANSFER
  have op: "group_op ?n" and dummy: "ses_interface s = IfDummy" using assms(2) by (simp_all add: group_op_def group_allows_def)
  obtain e where e: "send_notification_to_targets E ?n [] (s, w) = (Ret True, (s, w\<lparr>w_trace := w_trace w @ e\<rparr>))"
      "of_kind ?n e = announcements ?n s" using targets_run[OF assms(1)] announcements_kind by blast
  let ?v = "w\<lparr>w_trace := w_trace w @ e @ [EvSleep 1000]\<rparr>"
  have "group_allows ?n s ?v" using assms(2) by (simp add: group_allows_def)
  then obtain w1 e1 where w1: "all_files (\<lambda>r. run_op E (file_op_of ?n s) r True) (s, ?v) = (Ret True, (s, w1))" "group_reached ?n s w1"
      "w_trace w1 = w_trace ?v @ e1" "of_kind ?n e1 = []" using files_run by blast
  obtain b w' es where "update_metadatas_to_bookkeeper E (s, w1) = (Ret b, (s, w'))" "group_reached ?n s w'"
      "w_trace w' = w_trace w1 @ es" "of_kind ?n es = []" using update_reached[OF assms(1) op dummy w1(2)] by blast
  then show ?thesis using e w1
    by (intro exI[of _ w'] exI[of _ "e @ [EvSleep 1000] @ e1 @ es"]) (simp add: session_pause_all_def sleep_run of_kind_sleep)
qed

lemma resume_reaches:
  assumes "\<And>t c d. io_try_send E t c d = Ret True" "group_allows RESUME_TRANSFER s w"
  shows "\<exists>w' es. session_resume_all E (s, w) = (Ret True, (s, w')) \<and> group_reached RESUME_TRANSFER s w' \<and> w_trace w' = w_trace w @ es
           \<and> of_kind RESUME_TRANSFER es = announcements RESUME_TRANSFER s"
proof -
  let ?n = RESUME_TRANSFER
  have op: "group_op ?n" and dummy: "ses_interface s = IfDummy" using assms(2) by (simp_all add: group_op_def group_allows_def)
  obtain w1 e1 where w1: "all_files (\<lambda>r. run_op E (file_op_of ?n s) r True) (s, w) = (Ret True, (s, w1))" "group_reached ?n s w1"
      "w_trace w1 = w_trace w @ e1" "of_kind ?n e1 = []" using files_run[OF assms(2)] by blast
  let ?v = "w1\<lparr>w_trace := w_trace w1 @ [EvSleep 1000]\<rparr>"
  have "group_reached ?n s ?v" using w1(2) by (simp add: group_reached_def)
  then obtain b v1 b' w' es where "send_notification_to_targets E ?n [] (s, ?v) = (Ret b, (s, v1))"
      "update_metadatas_to_bookkeeper E (s, v1) = (Ret b', (s, w'))" "group_reached ?n s w'" "w_trace w' = w_trace ?v @ es"
      "of_kind ?n es = announcements ?n s" using tell_update_reached[OF assms(1) op dummy] by blast
  then show ?thesis using w1
    by (intro exI[of _ w'] exI[of _ "e1 @ [EvSleep 1000] @ es"]) (simp add: session_resume_all_def sleep_run of_kind_sleep)
qed

lemma cancel_reaches:
  assumes "\<And>t c d. io_try_send E t c d = Ret True" "group_allows CANCEL_TRANSFER s w"
  shows "\<exists>w' es. session_cancel_all E (s, w) = (Ret True, (s, w')) \<and> group_reached CANCEL_TRANSFER s w' \<and> w_trace w' = w_trace w @ es
           \<and> of_kind CANCEL_TRANSFER es = announcements CANCEL_TRANSFER s"
proof -
  let ?n = CANCEL_TRANSFER
  have op: "group_op ?n" and dummy: "ses_interface s = IfDummy" using assms(2) by (simp_all add: group_op_def group_allows_def)
  obtain w1 e1 where w1: "all_files (\<lambda>r. run_op E (file_op_of ?n s) r True) (s, w) = (Ret True, (s, w1))" "group_reached ?n s w1"
      "w_trace w1 = w_trace w @ e1" "of_kind ?n e1 = []" using files_run[OF assms(2)] by blast
  obtain b v1 b' w' es where "send_notification_to_targets E ?n [] (s, w1) = (Ret b, (s, v1))"
      "update_metadatas_to_bookkeeper E (s, v1) = (Ret b', (s, w'))" "group_reached ?n s w'" "w_trace w' = w_trace w1 @ es"
      "of_kind ?n es = announcements ?n s" using tell_update_reached[OF assms(1) op dummy w1(2)] by blast
  then show ?thesis using w1
    by (intro exI[of _ w'] exI[of _ "e1 @ es"]) (simp add: session_cancel_all_def)
qed

lemma group_run_reaches:
  assumes "\<And>t c d. io_try_send E t c d = Ret True" "group_op n" "group_allows n s w"
  shows "\<exists>w' es. group_run E n (s, w) = (Ret True, (s, w')) \<and> group_reached n s w' \<and> w_trace w' = w_trace w @ es
           \<and> of_kind n es = (if n = START_TRANSFER \<and> ses_type s = Downloader then [] else announcements n s)"
proof -
  consider "n = START_TRANSFER" | "n = PAUSE_TRANSFER" | "n = RESUME_TRANSFER" | "n = CANCEL_TRANSFER"
    using assms(2) by (auto simp: group_op_def)
  then show ?thesis
  proof cases
    case 1 then show ?thesis using start_reaches[OF assms(1), of s w] assms(3) by (cases "ses_type s") simp_all
  next
    case 2 then show ?thesis using pause_reaches[OF assms(1), of s w] assms(3) by simp
  next
    case 3 then show ?thesis using resume_reaches[OF assms(1), of s w] assms(3) by simp
  next
    case 4 then show ?thesis using cancel_reaches[OF assms(1), of s w] assms(3) by simp
  qed
qed

section \<open>The client that is told\<close>

lemma told_client_follows:
  assumes "\<And>t c d. io_try_send E t c d = Ret True" "group_op n" "group_allows n (cl_sessions d ! i) v"
    and "str_contains target (cl_client_id d)" "get_session d target = Some i"
  shows "\<exists>v'. client_action_on_receive fuel E (NotificationData_new src target n []) (d, v) = (Ret True, (d, v'))
           \<and> group_reached n (cl_sessions d ! i) v'"
proof -
  obtain v' where v': "group_run E n (cl_sessions d ! i, v) = (Ret True, (cl_sessions d ! i, v'))" "group_reached n (cl_sessions d ! i) v'"
    using group_run_reaches[OF assms(1-3)] by blast
  have "with_session target (group_run E n) (d, v) = (Ret (), (d, v'))"
    using v'(1) assms(5) by (simp add: with_session_def on_session_def)
  then have "client_action_on_receive fuel E (NotificationData_new src target n []) (d, v) = (Ret True, (d, v'))"
    using assms(2,4)
    by (auto simp: client_action_on_receive_def NotificationData_new_def notif.decode_encode group_op_def handle_notification_def
        session_request_def)
  then show ?thesis using v'(2) by blast
qed

section \<open>Properties\<close>



end
