(* ===== verification/Request_Handler.thy ===== *)
theory Request_Handler
  imports Std_Model "HOL-Library.Signed_Division"
begin

text \<open>
  \<open>include/snbmodules/readout/SNBRequestHandlerModel.hpp\<close> and \<open>detail/SNBRequestHandlerModel.hxx\<close>:
  the readout side answers data requests from a latency buffer. A request collects the elements of
  its time window that no earlier request took, marks them in the pop list, and a cleanup removes
  marked elements from the front of the buffer. The latency buffer, the readout type, the fragment
  layout and the connections belong to other packages: they are the parameters \<open>readout\<close> and
  \<open>renv\<close>; what the code relies on of the buffer is the predicate \<open>lb_fifo\<close>. The interleaving of the
  threads is in \<open>Request_Threads\<close>.
\<close>

unbundle bit_operations_syntax

section \<open>Data of the other packages\<close>

type_synonym byte = "8 word"

datatype ResultCode = kFound | kNotFound | kTooOld | kNotYet | kPartial | kPartiallyOld | kUnknown

datatype FragmentStatusBits =
  kEmptyFragment | kLatencyBufferEmpty | kRequestWindowBeforeBuffer | kRequestWindowAfterBuffer | kIncomplete

record DataRequest =
  dr_trigger_number :: u64
  dr_trigger_timestamp :: u64
  dr_window_begin :: u64
  dr_window_end :: u64
  dr_component :: "u16 \<times> u32"
  dr_run_number :: u32
  dr_sequence_number :: u16
  dr_data_destination :: string

record FragmentHeader =
  fh_size :: u64
  fh_trigger_number :: u64
  fh_trigger_timestamp :: u64
  fh_window_begin :: u64
  fh_window_end :: u64
  fh_run_number :: u32
  fh_fragment_type :: u32
  fh_sequence_number :: u16
  fh_detector_id :: u16
  fh_element_id :: "u16 \<times> u32"
  fh_status_bits :: u32

text \<open>A fragment is what its constructor is given: the byte ranges it copies, and the header.\<close>

record Fragment =
  fr_pieces :: "byte list list"
  fr_header :: FragmentHeader

record RequestResult =
  rr_result_code :: ResultCode
  rr_data_request :: DataRequest
  rr_fragment :: Fragment

text \<open>
  The template parameters: the element type \<open>'e\<close> and the latency buffer \<open>'b\<close>. A null pointer is
  \<open>None\<close>; \<open>lb_elements\<close> lists what the iterator from \<open>begin()\<close> visits while it is good.
\<close>

record ('b, 'e) readout =
  get_timestamp :: "'e \<Rightarrow> u64"
  payload :: "'e \<Rightarrow> byte list"
  fragment_type :: u32
  subsystem :: u16
  header_size :: u64
  default_status_bits :: u32
  status_bit :: "FragmentStatusBits \<Rightarrow> nat"
  lb_occupancy :: "'b \<Rightarrow> nat"
  lb_front :: "'b \<Rightarrow> 'e option"
  lb_back :: "'b \<Rightarrow> 'e option"
  lb_elements :: "'b \<Rightarrow> 'e list"
  lb_pop :: "nat \<Rightarrow> 'b \<Rightarrow> 'b"
  lb_write :: "'e \<Rightarrow> 'b \<Rightarrow> 'b"

definition lb_fifo :: "('b, 'e) readout \<Rightarrow> bool" where
  "lb_fifo R \<longleftrightarrow>
     (\<forall>b. lb_occupancy R b = length (lb_elements R b)
        \<and> lb_front R b = (if lb_elements R b = [] then None else Some (hd (lb_elements R b)))
        \<and> lb_back R b = (if lb_elements R b = [] then None else Some (last (lb_elements R b)))
        \<and> (\<forall>n. lb_elements R (lb_pop R n b) = drop n (lb_elements R b))
        \<and> (\<forall>x. lb_elements R (lb_write R x b) = lb_elements R b @ [x]))"

section \<open>State\<close>

datatype rissue =
    CommandError "u16 \<times> u32" string
  | CannotWriteToQueue "u16 \<times> u32" string
  | RequestOnEmptyBuffer "u16 \<times> u32" string
  | VerboseRequestTimedOut "u16 \<times> u32" DataRequest

record RequestHandlerInfo =
  num_requests_handled :: i32
  num_requests_found :: i32
  num_requests_bad :: i32
  num_requests_old_window :: i32
  num_requests_delayed :: i32
  num_requests_uncategorized :: i32
  num_requests_timed_out :: i32
  num_requests_waiting :: nat
  tot_request_response_time :: i32
  max_request_response_time :: i32
  min_request_response_time :: i32
  avg_request_response_time :: "int option"
  num_buffer_cleanups :: i32
  num_periodic_sent :: u64
  num_periodic_send_failed :: u64

datatype revent =
    RWarn rissue
  | RError rissue
  | RClock int
  | RSend string Fragment bool
  | RReady string
  | RRemoveErrorsUntil u64
  | RRemoveFile string
  | RWriter string
  | RPublish RequestHandlerInfo
  | RPublishRecording string i32 i32

type_synonym rtrace = "revent list"

text \<open>The steady clock in microseconds, and whether a fragment is sent or the sender throws an issue.\<close>

record renv =
  steady_us :: "rtrace \<Rightarrow> int"
  send_fragment :: "rtrace \<Rightarrow> string \<Rightarrow> Fragment \<Rightarrow> bool"

record 'b request_handler =
  rh_latency_buffer :: 'b
  rh_cleanup_requested :: bool
  rh_requests_running :: int
  rh_waiting_requests :: "(DataRequest \<times> int) list"
  rh_pool :: "(DataRequest \<times> bool) list"
  rh_run_marker :: bool
  rh_recording :: bool
  rh_pop_list :: "u64 list"
  rh_buffer_capacity :: nat
  rh_sourceid :: "u16 \<times> u32"
  rh_detid :: u16
  rh_output_file :: string
  rh_stream_buffer_size :: nat
  rh_writer_open :: bool
  rh_recording_configured :: bool
  rh_warn_on_timeout :: bool
  rh_warn_about_empty_buffer :: bool
  rh_periodic_data_transmission_ms :: u32
  rh_frag_out_conn_ids :: "string list"
  rh_num_request_handling_threads :: nat
  rh_fragment_send_timeout_ms :: int
  rh_request_timeout_ms :: int
  rh_t0 :: int
  rh_num_buffer_cleanups :: i32
  rh_pop_reqs :: i32
  rh_pops_count :: i32
  rh_occupancy :: i32
  rh_num_requests_found :: i32
  rh_num_requests_bad :: i32
  rh_num_requests_old_window :: i32
  rh_num_requests_delayed :: i32
  rh_num_requests_uncategorized :: i32
  rh_num_requests_timed_out :: i32
  rh_handled_requests :: i32
  rh_response_time_acc :: i32
  rh_response_time_min :: i32
  rh_response_time_max :: i32
  rh_payloads_written :: i32
  rh_bytes_written :: i32
  rh_num_periodic_sent :: u64
  rh_num_periodic_send_failed :: u64
  rh_oldest_timestamp :: u64
  rh_trace :: rtrace

definition int_max :: i32 where
  "int_max = 2 ^ 31 - 1"

text \<open>The constructor. Members it does not initialise hold what the memory held, \<open>junk\<close>.\<close>

definition new_handler :: "'b \<Rightarrow> 'b request_handler \<Rightarrow> 'b request_handler" where
  "new_handler latency_buffer junk =
     junk\<lparr>rh_latency_buffer := latency_buffer, rh_cleanup_requested := False, rh_requests_running := 0,
       rh_waiting_requests := [], rh_pool := [], rh_run_marker := False, rh_recording := False,
       rh_pop_list := [], rh_buffer_capacity := 0, rh_output_file := [], rh_stream_buffer_size := 0,
       rh_writer_open := False, rh_recording_configured := False, rh_warn_on_timeout := True,
       rh_warn_about_empty_buffer := True, rh_periodic_data_transmission_ms := 0,
       rh_frag_out_conn_ids := [], rh_num_request_handling_threads := 0, rh_t0 := 0,
       rh_num_buffer_cleanups := 0, rh_pop_reqs := 0, rh_pops_count := 0, rh_occupancy := 0,
       rh_num_requests_found := 0, rh_num_requests_bad := 0, rh_num_requests_old_window := 0,
       rh_num_requests_delayed := 0, rh_num_requests_uncategorized := 0, rh_num_requests_timed_out := 0,
       rh_handled_requests := 0, rh_response_time_acc := 0, rh_response_time_min := int_max,
       rh_response_time_max := 0, rh_payloads_written := 0, rh_bytes_written := 0,
       rh_num_periodic_sent := 0, rh_num_periodic_send_failed := 0, rh_oldest_timestamp := 0\<rparr>"

type_synonym ('b, 'a) rh_action = "('b request_handler, 'a) action"

definition rh_log :: "revent \<Rightarrow> ('b, unit) rh_action" where
  "rh_log e = modifies (\<lambda>h. h\<lparr>rh_trace := rh_trace h @ [e]\<rparr>)"

definition rh_now :: "renv \<Rightarrow> ('b, int) rh_action" where
  "rh_now E = bind (reads (\<lambda>h. steady_us E (rh_trace h))) (\<lambda>t. seq (rh_log (RClock t)) (return t))"

text \<open>\<open>m_latency_buffer->front()->get_timestamp()\<close>, undefined for an empty buffer.\<close>

definition front_timestamp :: "('b, 'e) readout \<Rightarrow> ('b, u64) rh_action" where
  "front_timestamp R =
     bind (reads rh_latency_buffer) (\<lambda>b. case lb_front R b of
       None \<Rightarrow> throw (UndefinedBehaviour ''m_latency_buffer->front()'')
     | Some x \<Rightarrow> return (get_timestamp R x))"

definition back_timestamp :: "('b, 'e) readout \<Rightarrow> ('b, u64) rh_action" where
  "back_timestamp R =
     bind (reads rh_latency_buffer) (\<lambda>b. case lb_back R b of
       None \<Rightarrow> throw (UndefinedBehaviour ''m_latency_buffer->back()'')
     | Some x \<Rightarrow> return (get_timestamp R x))"

section \<open>Configuration and commands\<close>

record output_conf =
  out_data_type :: string
  out_uid :: string
  out_send_timeout_ms :: nat

record recorder_conf =
  rec_output_file :: string
  rec_streaming_buffer_size :: nat

record handler_conf =
  hc_source_id :: u32
  hc_detector_id :: u16
  hc_buffer_size :: nat
  hc_handler_threads :: nat
  hc_request_timeout :: nat
  hc_outputs :: "output_conf list"
  hc_data_recorder :: "recorder_conf option"
  hc_warn_on_timeout :: bool
  hc_warn_on_empty_buffer :: bool
  hc_periodic_data_transmission_ms :: u32

definition to_int32 :: "nat \<Rightarrow> int" where
  "to_int32 n = sint (word_of_nat n :: i32)"

definition conf_outputs :: "output_conf list \<Rightarrow> ('b, unit) rh_action" where
  "conf_outputs = for_each (\<lambda>out.
     if out_data_type out = ''Fragment'' then
       modifies (\<lambda>h. h\<lparr>rh_fragment_send_timeout_ms := to_int32 (out_send_timeout_ms out),
                       rh_frag_out_conn_ids := rh_frag_out_conn_ids h @ [out_uid out]\<rparr>)
     else return ())"

definition rh_conf :: "('b, 'e) readout \<Rightarrow> handler_conf \<Rightarrow> ('b, unit) rh_action" where
  "rh_conf R c =
     seq (modifies (\<lambda>h. h\<lparr>rh_sourceid := (subsystem R, hc_source_id c), rh_detid := hc_detector_id c,
            rh_buffer_capacity := hc_buffer_size c,
            rh_num_request_handling_threads := hc_handler_threads c,
            rh_request_timeout_ms := to_int32 (hc_request_timeout c)\<rparr>))
     (seq (conf_outputs (hc_outputs c))
     (seq (bind (reads rh_recording_configured) (\<lambda>configured.
             case (configured, hc_data_recorder c) of
               (False, Some dr) \<Rightarrow>
                 seq (modifies (\<lambda>h. h\<lparr>rh_output_file := rec_output_file dr\<rparr>))
                 (seq (rh_log (RRemoveFile (rec_output_file dr)))
                 (seq (modifies (\<lambda>h. h\<lparr>rh_stream_buffer_size := rec_streaming_buffer_size dr\<rparr>))
                 (seq (rh_log (RWriter (rec_output_file dr)))
                 (modifies (\<lambda>h. h\<lparr>rh_writer_open := True, rh_recording_configured := True\<rparr>)))))
             | _ \<Rightarrow> return ()))
     (modifies (\<lambda>h. h\<lparr>rh_warn_on_timeout := hc_warn_on_timeout c,
        rh_warn_about_empty_buffer := hc_warn_on_empty_buffer c,
        rh_periodic_data_transmission_ms := hc_periodic_data_transmission_ms c\<rparr>))))"

definition rh_scrap :: "('b, unit) rh_action" where
  "rh_scrap = modifies (\<lambda>h. if rh_writer_open h then h\<lparr>rh_writer_open := False\<rparr> else h)"

definition rh_start :: "renv \<Rightarrow> ('b, unit) rh_action" where
  "rh_start E =
     seq (modifies (\<lambda>h. h\<lparr>rh_num_requests_found := 0, rh_num_requests_bad := 0,
            rh_num_requests_old_window := 0, rh_num_requests_delayed := 0,
            rh_num_requests_uncategorized := 0, rh_num_buffer_cleanups := 0,
            rh_num_requests_timed_out := 0, rh_handled_requests := 0, rh_response_time_acc := 0,
            rh_pop_reqs := 0, rh_pops_count := 0, rh_payloads_written := 0, rh_bytes_written := 0\<rparr>))
     (bind (rh_now E) (\<lambda>t.
      seq (modifies (\<lambda>h. h\<lparr>rh_t0 := t\<rparr>))
      (bind (reads rh_frag_out_conn_ids) (\<lambda>conns.
       seq (for_each (\<lambda>c. rh_log (RReady c)) conns)
       (modifies (\<lambda>h. h\<lparr>rh_pool := [], rh_run_marker := True\<rparr>))))))"

definition rh_record :: "('b, unit) rh_action" where
  "rh_record = bind (reads rh_sourceid) (\<lambda>sid.
     rh_log (RError (CommandError sid ''DLH is not configured for recording'')))"

text \<open>What \<open>stop\<close> changes; the rest of it waits for the threads to end.\<close>

definition rh_stop :: "('b, unit) rh_action" where
  "rh_stop = modifies (\<lambda>h. h\<lparr>rh_run_marker := False\<rparr>)"

section \<open>Fragments\<close>

definition create_fragment_header :: "('b, 'e) readout \<Rightarrow> 'b request_handler \<Rightarrow> DataRequest \<Rightarrow> FragmentHeader" where
  "create_fragment_header R h dr =
     \<lparr>fh_size = header_size R, fh_trigger_number = dr_trigger_number dr,
      fh_trigger_timestamp = dr_trigger_timestamp dr, fh_window_begin = dr_window_begin dr,
      fh_window_end = dr_window_end dr, fh_run_number = dr_run_number dr,
      fh_fragment_type = fragment_type R, fh_sequence_number = dr_sequence_number dr,
      fh_detector_id = rh_detid h, fh_element_id = rh_sourceid h,
      fh_status_bits = default_status_bits R\<rparr>"

text \<open>\<open>status_bits |= 0x1 << bit\<close>.\<close>

definition add_status :: "('b, 'e) readout \<Rightarrow> FragmentStatusBits \<Rightarrow> FragmentHeader \<Rightarrow> FragmentHeader" where
  "add_status R b fh = fh\<lparr>fh_status_bits := fh_status_bits fh OR push_bit (status_bit R b) 1\<rparr>"

definition create_empty_fragment :: "('b, 'e) readout \<Rightarrow> 'b request_handler \<Rightarrow> DataRequest \<Rightarrow> Fragment" where
  "create_empty_fragment R h dr =
     \<lparr>fr_pieces = [], fr_header = add_status R kEmptyFragment (create_fragment_header R h dr)\<rparr>"

text \<open>
  \<open>dump_to_buffer\<close>: the loop copies into a ring, but each \<open>memcpy\<close> starts at the beginning of the
  data. For an empty ring it does not end, so not returning is \<open>None\<close>.
\<close>

definition memcpy_at :: "byte list \<Rightarrow> nat \<Rightarrow> byte list \<Rightarrow> nat \<Rightarrow> exn + byte list" where
  "memcpy_at buf pos dat n =
     (if pos + n \<le> length buf \<and> n \<le> length dat
      then Inr (take pos buf @ take n dat @ drop (pos + n) buf)
      else Inl (UndefinedBehaviour ''memcpy''))"

partial_function (option) dump_to_buffer :: "byte list \<Rightarrow> u64 \<Rightarrow> byte list \<Rightarrow> u32 \<Rightarrow> u64 \<Rightarrow> (exn + byte list) option" where
  "dump_to_buffer dat bytes_to_copy buf buffer_pos buffer_size =
     (if bytes_to_copy = 0 then Some (Inr buf)
      else
        let n = min bytes_to_copy (buffer_size - ucast buffer_pos) in
        case memcpy_at buf (unat buffer_pos) dat (unat n) of
          Inl e \<Rightarrow> Some (Inl e)
        | Inr buf' \<Rightarrow>
            let pos = buffer_pos + ucast n in
            dump_to_buffer dat (bytes_to_copy - n) buf' (if ucast pos = buffer_size then 0 else pos) buffer_size)"

text \<open>One element of the window loop: what it adds to the pieces, and the pop list after it.\<close>

definition piece_step :: "('b, 'e) readout \<Rightarrow> u64 \<Rightarrow> 'e \<Rightarrow> u64 list \<Rightarrow> 'e list \<times> u64 list" where
  "piece_step R start_win_ts x pops =
     (if get_timestamp R x \<in> set pops then ([], pops)
      else if get_timestamp R x < start_win_ts then ([], pops)
      else ([x], sset_insert (get_timestamp R x) pops))"

fun take_pieces :: "('b, 'e) readout \<Rightarrow> u64 \<Rightarrow> u64 \<Rightarrow> 'e list \<Rightarrow> u64 list \<Rightarrow> 'e list \<times> u64 list" where
  "take_pieces R start_win_ts end_win_ts [] pops = ([], pops)"
| "take_pieces R start_win_ts end_win_ts (x # xs) pops =
     (if get_timestamp R x \<le> end_win_ts then
        (let (ps, pops1) = piece_step R start_win_ts x pops;
             (qs, pops2) = take_pieces R start_win_ts end_win_ts xs pops1
         in (ps @ qs, pops2))
      else ([], pops))"

definition window_code :: "('b, 'e) readout \<Rightarrow> u64 \<Rightarrow> u64 \<Rightarrow> ('b, ResultCode) rh_action" where
  "window_code R start_win_ts end_win_ts =
     bind (front_timestamp R) (\<lambda>last_ts. bind (back_timestamp R) (\<lambda>newest_ts.
     bind (reads rh_latency_buffer) (\<lambda>b.
       return (if start_win_ts > newest_ts \<or> newest_ts < end_win_ts then kNotYet
               else if end_win_ts \<le> last_ts then kTooOld
               else if lb_elements R b = [] then kNotFound
               else kFound))))"

definition get_fragment_pieces :: "('b, 'e) readout \<Rightarrow> u64 \<Rightarrow> u64 \<Rightarrow> ('b, 'e list \<times> ResultCode) rh_action" where
  "get_fragment_pieces R start_win_ts end_win_ts =
     bind (window_code R start_win_ts end_win_ts) (\<lambda>code.
       if code = kFound then
         bind (reads (\<lambda>h. take_pieces R start_win_ts end_win_ts (lb_elements R (rh_latency_buffer h)) (rh_pop_list h)))
           (\<lambda>(pieces, pops). seq (modifies (\<lambda>h. h\<lparr>rh_pop_list := pops\<rparr>)) (return (pieces, code)))
       else return ([], code))"

section \<open>Requests\<close>

text \<open>The counters and status bits a result code leads to.\<close>

definition categorise :: "('b, 'e) readout \<Rightarrow> ResultCode \<Rightarrow> FragmentHeader \<Rightarrow> ('b, FragmentHeader) rh_action" where
  "categorise R code fh =
     (case code of
        kTooOld \<Rightarrow>
          seq (modifies (\<lambda>h. h\<lparr>rh_num_requests_old_window := rh_num_requests_old_window h + 1,
                 rh_num_requests_bad := rh_num_requests_bad h + 1\<rparr>))
          (return (add_status R kRequestWindowBeforeBuffer (add_status R kEmptyFragment fh)))
      | kPartiallyOld \<Rightarrow>
          seq (modifies (\<lambda>h. h\<lparr>rh_num_requests_old_window := rh_num_requests_old_window h + 1,
                 rh_num_requests_found := rh_num_requests_found h + 1\<rparr>))
          (return (add_status R kRequestWindowBeforeBuffer (add_status R kIncomplete fh)))
      | kFound \<Rightarrow>
          seq (modifies (\<lambda>h. h\<lparr>rh_num_requests_found := rh_num_requests_found h + 1\<rparr>)) (return fh)
      | kPartial \<Rightarrow>
          seq (modifies (\<lambda>h. h\<lparr>rh_num_requests_delayed := rh_num_requests_delayed h + 1\<rparr>))
          (return (add_status R kRequestWindowAfterBuffer (add_status R kIncomplete fh)))
      | kNotYet \<Rightarrow>
          seq (modifies (\<lambda>h. h\<lparr>rh_num_requests_delayed := rh_num_requests_delayed h + 1\<rparr>))
          (return (add_status R kRequestWindowAfterBuffer (add_status R kEmptyFragment fh)))
      | _ \<Rightarrow>
          seq (modifies (\<lambda>h. h\<lparr>rh_num_requests_bad := rh_num_requests_bad h + 1\<rparr>))
          (return (add_status R kEmptyFragment fh)))"

definition build_result :: "('b, 'e) readout \<Rightarrow> ResultCode \<Rightarrow> DataRequest \<Rightarrow> 'e list \<Rightarrow> FragmentHeader \<Rightarrow> RequestResult" where
  "build_result R code dr pieces fh =
     \<lparr>rr_result_code = code, rr_data_request = dr,
      rr_fragment = \<lparr>fr_pieces = map (payload R) pieces, fr_header = fh\<rparr>\<rparr>"

definition empty_buffer_result :: "('b, 'e) readout \<Rightarrow> DataRequest \<Rightarrow> ('b, RequestResult) rh_action" where
  "empty_buffer_result R dr =
     bind (reads (\<lambda>h. (rh_warn_about_empty_buffer h, rh_sourceid h, create_fragment_header R h dr))) (\<lambda>(warn, sid, fh).
     seq (if warn then rh_log (RWarn (RequestOnEmptyBuffer sid ''Data not found'')) else return ())
     (seq (modifies (\<lambda>h. h\<lparr>rh_num_requests_bad := rh_num_requests_bad h + 1\<rparr>))
     (return (build_result R kNotFound dr [] (add_status R kLatencyBufferEmpty fh)))))"

definition data_request :: "('b, 'e) readout \<Rightarrow> DataRequest \<Rightarrow> ('b, RequestResult) rh_action" where
  "data_request R dr =
     bind (reads (\<lambda>h. (lb_occupancy R (rh_latency_buffer h), create_fragment_header R h dr))) (\<lambda>(occupancy, frag_header).
       if occupancy = 0 then empty_buffer_result R dr
       else bind (get_fragment_pieces R (dr_window_begin dr) (dr_window_end dr)) (\<lambda>(pieces, code).
            bind (categorise R code frag_header) (\<lambda>fh.
              return (build_result R code dr pieces fh))))"

text \<open>\<open>boost::asio::post\<close>: the request waits in the queue of the thread pool.\<close>

definition issue_request :: "DataRequest \<Rightarrow> bool \<Rightarrow> ('b, unit) rh_action" where
  "issue_request dr is_retry = modifies (\<lambda>h. h\<lparr>rh_pool := rh_pool h @ [(dr, is_retry)]\<rparr>)"

text \<open>
  What a pool thread does with a result: requeue the request, or send the fragment. True when the
  fragment was sent, after which the thread checks for a cleanup.
\<close>

definition respond :: "renv \<Rightarrow> DataRequest \<Rightarrow> bool \<Rightarrow> RequestResult \<Rightarrow> ('b, bool) rh_action" where
  "respond E dr is_retry result =
     bind (reads (\<lambda>h. (rh_request_timeout_ms h, rh_sourceid h))) (\<lambda>(timeout, sid).
       if (rr_result_code result = kNotYet \<or> rr_result_code result = kPartial) \<and> timeout > 0 \<and> \<not> is_retry then
         bind (rh_now E) (\<lambda>t.
         seq (modifies (\<lambda>h. h\<lparr>rh_waiting_requests := rh_waiting_requests h @ [(dr, t)]\<rparr>)) (return False))
       else
         bind (reads (\<lambda>h. send_fragment E (rh_trace h) (dr_data_destination dr) (rr_fragment result))) (\<lambda>sent.
         seq (rh_log (RSend (dr_data_destination dr) (rr_fragment result) sent))
         (seq (if sent then return () else rh_log (RWarn (CannotWriteToQueue sid (dr_data_destination dr))))
         (return sent))))"

text \<open>The response time statistics; the microseconds are cast to \<open>int\<close>.\<close>

definition finish_request :: "renv \<Rightarrow> int \<Rightarrow> ('b, unit) rh_action" where
  "finish_request E t_req_begin =
     bind (rh_now E) (\<lambda>t_req_end.
       let us = (word_of_int (t_req_end - t_req_begin) :: i32) in
       modifies (\<lambda>h. h\<lparr>rh_response_time_acc := rh_response_time_acc h + us,
         rh_response_time_max := (if rh_response_time_max h <s us then us else rh_response_time_max h),
         rh_response_time_min := (if us <s rh_response_time_min h then us else rh_response_time_min h),
         rh_handled_requests := rh_handled_requests h + 1\<rparr>))"

section \<open>Cleanup\<close>

text \<open>One iteration of the cleanup loop: \<open>None\<close> when the loop ends.\<close>

definition cleanup_iter :: "('b, 'e) readout \<Rightarrow> 'b \<times> u64 list \<Rightarrow> (exn + ('b \<times> u64 list) option)" where
  "cleanup_iter R = (\<lambda>(b, pops).
     if pops \<noteq> [] \<and> lb_occupancy R b > 1 then
       (case lb_front R b of
          None \<Rightarrow> Inl (UndefinedBehaviour ''m_latency_buffer->front()'')
        | Some x \<Rightarrow>
            if get_timestamp R x \<in> set pops
            then Inr (Some (lb_pop R 1 b, sset_erase (get_timestamp R x) pops))
            else Inr None)
     else Inr None)"

lemma cleanup_iter_shrinks: "cleanup_iter R (b, pops) = Inr (Some (b', pops')) \<Longrightarrow> length pops' < length pops"
  by (auto simp: cleanup_iter_def sset_erase_def length_filter_less split: if_splits option.splits)

function cleanup_loop :: "('b, 'e) readout \<Rightarrow> 'b \<times> u64 list \<Rightarrow> u32 \<Rightarrow> exn + ('b \<times> u64 list) \<times> u32" where
  "cleanup_loop R s popped =
     (case cleanup_iter R s of
        Inl e \<Rightarrow> Inl e
      | Inr None \<Rightarrow> Inr (s, popped)
      | Inr (Some s') \<Rightarrow> cleanup_loop R s' (popped + 1))"
  by pat_completeness auto

termination
  by (relation "measure (\<lambda>(_, s, _). length (snd s))") (auto dest: cleanup_iter_shrinks)

declare cleanup_loop.simps [simp del]

text \<open>The part of \<open>cleanup\<close> after the loop.\<close>

definition cleanup_end :: "('b, 'e) readout \<Rightarrow> u32 \<Rightarrow> ('b, unit) rh_action" where
  "cleanup_end R popped =
     seq (modifies (\<lambda>h. h\<lparr>rh_occupancy := word_of_nat (lb_occupancy R (rh_latency_buffer h)),
            rh_pops_count := rh_pops_count h + popped\<rparr>))
     (bind (front_timestamp R) (\<lambda>ts.
      seq (rh_log (RRemoveErrorsUntil ts))
      (modifies (\<lambda>h. h\<lparr>rh_oldest_timestamp := ts, rh_num_buffer_cleanups := rh_num_buffer_cleanups h + 1\<rparr>))))"

definition cleanup :: "('b, 'e) readout \<Rightarrow> ('b, unit) rh_action" where
  "cleanup R =
     seq (modifies (\<lambda>h. h\<lparr>rh_pop_reqs := rh_pop_reqs h + 1\<rparr>))
     (bind (bind (reads (\<lambda>h. cleanup_loop R (rh_latency_buffer h, rh_pop_list h) 0)) of_result) (\<lambda>((b, pops), popped).
      seq (modifies (\<lambda>h. h\<lparr>rh_latency_buffer := b, rh_pop_list := pops\<rparr>))
      (cleanup_end R popped)))"

section \<open>Waiting requests\<close>

text \<open>One pass over the waiting requests: each is issued again, timed out, or kept.\<close>

fun waiting_pass :: "renv \<Rightarrow> u64 \<Rightarrow> (DataRequest \<times> int) list \<Rightarrow> ('b, (DataRequest \<times> int) list) rh_action" where
  "waiting_pass E newest_ts [] = return []"
| "waiting_pass E newest_ts ((dr, start_time) # rest) =
     (if dr_window_end dr \<le> newest_ts then
        seq (issue_request dr True) (waiting_pass E newest_ts rest)
      else bind (rh_now E) (\<lambda>now. bind (reads (\<lambda>h. (rh_request_timeout_ms h, rh_warn_on_timeout h, rh_sourceid h))) (\<lambda>(timeout, warn, sid).
        if (now - start_time) div 1000 \<ge> timeout then
          seq (issue_request dr True)
          (seq (if warn then rh_log (RWarn (VerboseRequestTimedOut sid dr)) else return ())
          (seq (modifies (\<lambda>h. h\<lparr>rh_num_requests_bad := rh_num_requests_bad h + 1,
                 rh_num_requests_timed_out := rh_num_requests_timed_out h + 1\<rparr>))
          (waiting_pass E newest_ts rest)))
        else bind (waiting_pass E newest_ts rest) (\<lambda>kept. return ((dr, start_time) # kept)))))"

definition newest_timestamp :: "('b, 'e) readout \<Rightarrow> 'b \<Rightarrow> u64" where
  "newest_timestamp R b = (case lb_back R b of None \<Rightarrow> 0 | Some x \<Rightarrow> get_timestamp R x)"

text \<open>One round of \<open>check_waiting_requests\<close>: false when the loop ends.\<close>

definition check_waiting_round :: "('b, 'e) readout \<Rightarrow> renv \<Rightarrow> ('b, bool) rh_action" where
  "check_waiting_round R E =
     bind (reads (\<lambda>h. (rh_run_marker h, rh_waiting_requests h, newest_timestamp R (rh_latency_buffer h)))) (\<lambda>(running, waiting, newest_ts).
       if \<not> running then return False
       else seq (if waiting \<noteq> []
                 then bind (waiting_pass E newest_ts waiting) (\<lambda>kept. modifies (\<lambda>h. h\<lparr>rh_waiting_requests := kept\<rparr>))
                 else return ())
            (return True))"

section \<open>Monitoring\<close>

definition generate_opmon_data :: "renv \<Rightarrow> ('b, unit) rh_action" where
  "generate_opmon_data E =
     bind (reads (\<lambda>h. \<lparr>num_requests_handled = rh_handled_requests h, num_requests_found = rh_num_requests_found h,
        num_requests_bad = rh_num_requests_bad h, num_requests_old_window = rh_num_requests_old_window h,
        num_requests_delayed = rh_num_requests_delayed h,
        num_requests_uncategorized = rh_num_requests_uncategorized h,
        num_requests_timed_out = rh_num_requests_timed_out h,
        num_requests_waiting = length (rh_waiting_requests h),
        tot_request_response_time = rh_response_time_acc h,
        max_request_response_time = rh_response_time_max h,
        min_request_response_time = rh_response_time_min h,
        avg_request_response_time = (if 0 <s rh_handled_requests h
          then Some (sint (rh_response_time_acc h) sdiv sint (rh_handled_requests h)) else None),
        num_buffer_cleanups = rh_num_buffer_cleanups h, num_periodic_sent = rh_num_periodic_sent h,
        num_periodic_send_failed = rh_num_periodic_send_failed h\<rparr>)) (\<lambda>info.
     seq (modifies (\<lambda>h. h\<lparr>rh_handled_requests := 0, rh_num_requests_found := 0, rh_num_requests_bad := 0,
            rh_num_requests_old_window := 0, rh_num_requests_delayed := 0,
            rh_num_requests_uncategorized := 0, rh_num_requests_timed_out := 0,
            rh_response_time_acc := 0, rh_response_time_max := 0, rh_response_time_min := int_max\<rparr>))
     (bind (rh_now E) (\<lambda>now.
      seq (modifies (\<lambda>h. h\<lparr>rh_pop_reqs := 0, rh_pops_count := 0, rh_t0 := now, rh_num_buffer_cleanups := 0,
             rh_num_periodic_sent := 0, rh_num_periodic_send_failed := 0\<rparr>))
      (seq (rh_log (RPublish info))
      (bind (reads (\<lambda>h. RPublishRecording (if rh_recording h then ''Y'' else ''N'') (rh_payloads_written h) (rh_bytes_written h))) (\<lambda>rinfo.
       seq (modifies (\<lambda>h. h\<lparr>rh_payloads_written := 0, rh_bytes_written := 0\<rparr>))
       (rh_log rinfo)))))))"

section \<open>The buffer\<close>

lemma fifo_occupancy: "lb_fifo R \<Longrightarrow> lb_occupancy R b = length (lb_elements R b)"
  by (simp add: lb_fifo_def)

lemma fifo_front: "lb_fifo R \<Longrightarrow> lb_elements R b \<noteq> [] \<Longrightarrow> lb_front R b = Some (hd (lb_elements R b))"
  by (simp add: lb_fifo_def)

lemma fifo_back: "lb_fifo R \<Longrightarrow> lb_elements R b \<noteq> [] \<Longrightarrow> lb_back R b = Some (last (lb_elements R b))"
  by (simp add: lb_fifo_def)

lemma fifo_pop: "lb_fifo R \<Longrightarrow> lb_elements R (lb_pop R n b) = drop n (lb_elements R b)"
  by (simp add: lb_fifo_def)

lemma fifo_write: "lb_fifo R \<Longrightarrow> lb_elements R (lb_write R x b) = lb_elements R b @ [x]"
  by (simp add: lb_fifo_def)

lemmas fifo_rules = fifo_occupancy fifo_front fifo_back fifo_pop fifo_write

lemma run_rh_log [simp]: "rh_log e h = (Ret (), h\<lparr>rh_trace := rh_trace h @ [e]\<rparr>)"
  by (simp add: rh_log_def)

lemma run_rh_now [simp]:
  "rh_now E h = (Ret (steady_us E (rh_trace h)), h\<lparr>rh_trace := rh_trace h @ [RClock (steady_us E (rh_trace h))]\<rparr>)"
  by (simp add: rh_now_def)

lemma run_front_timestamp:
  "lb_fifo R \<Longrightarrow> lb_elements R (rh_latency_buffer h) \<noteq> [] \<Longrightarrow>
     front_timestamp R h = (Ret (get_timestamp R (hd (lb_elements R (rh_latency_buffer h)))), h)"
  by (simp add: front_timestamp_def fifo_front)

lemma run_back_timestamp:
  "lb_fifo R \<Longrightarrow> lb_elements R (rh_latency_buffer h) \<noteq> [] \<Longrightarrow>
     back_timestamp R h = (Ret (get_timestamp R (last (lb_elements R (rh_latency_buffer h)))), h)"
  by (simp add: back_timestamp_def fifo_back)

section \<open>Windows\<close>

text \<open>The elements of a window that no earlier request took.\<close>

definition in_window :: "('b, 'e) readout \<Rightarrow> u64 \<Rightarrow> u64 \<Rightarrow> u64 set \<Rightarrow> 'e \<Rightarrow> bool" where
  "in_window R s e taken x \<longleftrightarrow> s \<le> get_timestamp R x \<and> get_timestamp R x \<le> e \<and> get_timestamp R x \<notin> taken"

abbreviation increasing :: "('b, 'e) readout \<Rightarrow> 'e list \<Rightarrow> bool" where
  "increasing R xs \<equiv> sorted_wrt (\<lambda>x y. get_timestamp R x < get_timestamp R y) xs"

lemma take_pieces_window:
  assumes "increasing R xs"
  shows "fst (take_pieces R s e xs pops) = filter (in_window R s e (set pops)) xs
       \<and> set (snd (take_pieces R s e xs pops))
           = set pops \<union> get_timestamp R ` set (filter (in_window R s e (set pops)) xs)"
  using assms
proof (induction xs arbitrary: pops)
  case (Cons x xs)
  have inc: "increasing R xs" and later: "\<And>y. y \<in> set xs \<Longrightarrow> get_timestamp R x < get_timestamp R y"
    using Cons.prems by auto
  have later_neq: "get_timestamp R y \<noteq> get_timestamp R x" if "y \<in> set xs" for y
    using later[OF that] by simp
  show ?case
  proof (cases "get_timestamp R x \<le> e")
    case False
    then have "filter (in_window R s e (set pops)) (x # xs) = []"
      using later by (fastforce simp: in_window_def filter_empty_conv)
    then show ?thesis using False by simp
  next
    case le: True
    have same: "filter (in_window R s e (insert (get_timestamp R x) (set pops))) xs
        = filter (in_window R s e (set pops)) xs"
      using later_neq by (intro filter_cong) (auto simp: in_window_def)
    show ?thesis
    proof (cases "in_window R s e (set pops) x")
      case True
      then show ?thesis
        using le same Cons.IH[OF inc, of "sset_insert (get_timestamp R x) pops"]
        by (auto simp: piece_step_def in_window_def[of _ _ _ _ x] split: prod.splits)
    next
      case False
      then have "piece_step R s x pops = ([], pops)"
        using le by (auto simp: piece_step_def in_window_def)
      then show ?thesis
        using le False Cons.IH[OF inc, of pops] by (auto split: prod.splits)
    qed
  qed
qed simp

lemma run_window_code:
  assumes "lb_fifo R" "lb_elements R (rh_latency_buffer h) = xs" "xs \<noteq> []"
  shows "window_code R s e h =
     (Ret (if get_timestamp R (last xs) < s \<or> get_timestamp R (last xs) < e then kNotYet
           else if e \<le> get_timestamp R (hd xs) then kTooOld else kFound), h)"
  using assms by (simp add: window_code_def run_front_timestamp run_back_timestamp)

lemma run_get_fragment_pieces:
  assumes "lb_fifo R" "lb_elements R (rh_latency_buffer h) = xs" "xs \<noteq> []" "window_code R s e h = (Ret code, h)"
  shows "get_fragment_pieces R s e h =
     (if code = kFound
      then (Ret (fst (take_pieces R s e xs (rh_pop_list h)), kFound),
            h\<lparr>rh_pop_list := snd (take_pieces R s e xs (rh_pop_list h))\<rparr>)
      else (Ret ([], code), h))"
  using assms by (auto simp: get_fragment_pieces_def split: prod.splits)

section \<open>Answers\<close>

lemma run_categorise:
  "\<exists>fh' h'. categorise R code fh h = (Ret fh', h') \<and> rh_latency_buffer h' = rh_latency_buffer h
     \<and> rh_pop_list h' = rh_pop_list h \<and> rh_waiting_requests h' = rh_waiting_requests h
     \<and> rh_trace h' = rh_trace h"
  by (cases code) (simp_all add: categorise_def)

text \<open>
  The status bits of an answer, by its result code. The code produces four of the seven result
  codes; the others are branches that stay unreached.
\<close>

definition code_bits :: "ResultCode \<Rightarrow> FragmentStatusBits list" where
  "code_bits code =
     (case code of
        kFound \<Rightarrow> []
      | kTooOld \<Rightarrow> [kEmptyFragment, kRequestWindowBeforeBuffer]
      | kPartiallyOld \<Rightarrow> [kIncomplete, kRequestWindowBeforeBuffer]
      | kPartial \<Rightarrow> [kIncomplete, kRequestWindowAfterBuffer]
      | kNotYet \<Rightarrow> [kEmptyFragment, kRequestWindowAfterBuffer]
      | _ \<Rightarrow> [kEmptyFragment])"

lemma categorise_bits:
  "categorise R code fh h = (Ret fh', h') \<Longrightarrow> fh' = fold (add_status R) (code_bits code) fh"
  by (cases code) (auto simp: categorise_def code_bits_def)

text \<open>The answer of a data request by its window.\<close>

lemma data_request_run:
  assumes "lb_fifo R" "increasing R (lb_elements R (rh_latency_buffer h))"
  shows "let xs = lb_elements R (rh_latency_buffer h);
             code = (if xs = [] then kNotFound
                     else if get_timestamp R (last xs) < max (dr_window_begin dr) (dr_window_end dr) then kNotYet
                     else if dr_window_end dr \<le> get_timestamp R (hd xs) then kTooOld else kFound);
             got = (if code = kFound
                    then filter (in_window R (dr_window_begin dr) (dr_window_end dr) (set (rh_pop_list h))) xs else [])
         in \<exists>r h'. data_request R dr h = (Ret r, h') \<and> rr_result_code r = code \<and> rr_data_request r = dr
              \<and> fr_pieces (rr_fragment r) = map (payload R) got
              \<and> fr_header (rr_fragment r) = fold (add_status R)
                  (if xs = [] then [kLatencyBufferEmpty] else code_bits code) (create_fragment_header R h dr)
              \<and> set (rh_pop_list h') = set (rh_pop_list h) \<union> get_timestamp R ` set got
              \<and> rh_latency_buffer h' = rh_latency_buffer h"
proof (cases "lb_elements R (rh_latency_buffer h) = []")
  case True
  then show ?thesis
    using assms(1) by (simp add: data_request_def empty_buffer_result_def build_result_def fifo_occupancy Let_def)
next
  case False
  let ?s = "dr_window_begin dr" and ?e = "dr_window_end dr" and ?xs = "lb_elements R (rh_latency_buffer h)"
  define code where "code = (if get_timestamp R (last ?xs) < ?s \<or> get_timestamp R (last ?xs) < ?e then kNotYet
           else if ?e \<le> get_timestamp R (hd ?xs) then kTooOld else kFound)"
  have wc: "window_code R ?s ?e h = (Ret code, h)"
    using run_window_code[OF assms(1) refl False] by (simp add: code_def)
  note gfp = run_get_fragment_pieces[OF assms(1) refl False wc]
  note tp = take_pieces_window[OF assms(2), of ?s ?e "rh_pop_list h"]
  obtain got h1 where g: "get_fragment_pieces R ?s ?e h = (Ret (got, code), h1)"
      "got = (if code = kFound then filter (in_window R ?s ?e (set (rh_pop_list h))) ?xs else [])"
      "set (rh_pop_list h1) = set (rh_pop_list h) \<union> get_timestamp R ` set got"
      "rh_latency_buffer h1 = rh_latency_buffer h"
    using gfp tp by (cases "code = kFound") auto
  obtain fh h2 where c: "categorise R code (create_fragment_header R h dr) h1 = (Ret fh, h2)"
      "rh_latency_buffer h2 = rh_latency_buffer h1" "rh_pop_list h2 = rh_pop_list h1"
    using run_categorise[of R code "create_fragment_header R h dr" h1] by auto
  have run: "data_request R dr h = (Ret (build_result R code dr got fh), h2)"
    using False assms(1) g(1) c(1) by (simp add: data_request_def fifo_occupancy)
  have code': "code = (if get_timestamp R (last ?xs) < max ?s ?e then kNotYet
      else if ?e \<le> get_timestamp R (hd ?xs) then kTooOld else kFound)"
    by (simp add: code_def less_max_iff_disj)
  show ?thesis
    using False run g c(2,3) categorise_bits[OF c(1)]
    unfolding Let_def code'[symmetric] by (simp add: build_result_def if_not_P[OF False] code'[symmetric])
qed

text \<open>
  C7: a data request on a buffer in time order is answered by its window. It waits when the newest
  element is before the end of the window, is too old when the window ends at or before the oldest
  element, and otherwise returns exactly the elements of the window that no earlier request took,
  in order, and marks them as taken. An empty buffer gives an empty answer. The buffer itself is
  never changed.
\<close>

theorem data_request_by_window:
  assumes "lb_fifo R" "increasing R (lb_elements R (rh_latency_buffer h))"
  shows "let xs = lb_elements R (rh_latency_buffer h);
             code = (if xs = [] then kNotFound
                     else if get_timestamp R (last xs) < max (dr_window_begin dr) (dr_window_end dr) then kNotYet
                     else if dr_window_end dr \<le> get_timestamp R (hd xs) then kTooOld else kFound);
             got = (if code = kFound
                    then filter (in_window R (dr_window_begin dr) (dr_window_end dr) (set (rh_pop_list h))) xs else [])
         in \<exists>r h'. data_request R dr h = (Ret r, h') \<and> rr_result_code r = code \<and> rr_data_request r = dr
              \<and> fr_pieces (rr_fragment r) = map (payload R) got
              \<and> fr_header (rr_fragment r) = fold (add_status R)
                  (if xs = [] then [kLatencyBufferEmpty] else code_bits code) (create_fragment_header R h dr)
              \<and> set (rh_pop_list h') = set (rh_pop_list h) \<union> get_timestamp R ` set got
              \<and> rh_latency_buffer h' = rh_latency_buffer h"
  using assms by (rule data_request_run)

section \<open>What a cleanup removes\<close>

text \<open>The number of elements a cleanup pops: the marked front part, but never the last element.\<close>

definition cleanup_count :: "('b, 'e) readout \<Rightarrow> u64 set \<Rightarrow> 'e list \<Rightarrow> nat" where
  "cleanup_count R taken xs = min (length xs - 1) (length (takeWhile (\<lambda>x. get_timestamp R x \<in> taken) xs))"

lemma cleanup_count_step:
  assumes "increasing R (x # y # zs)" "get_timestamp R x \<in> taken"
  shows "cleanup_count R taken (x # y # zs) = Suc (cleanup_count R (taken - {get_timestamp R x}) (y # zs))"
proof -
  have "get_timestamp R z \<noteq> get_timestamp R x" if "z \<in> set (y # zs)" for z
    using assms(1) that by (auto dest: less_imp_neq[symmetric])
  then have "takeWhile (\<lambda>z. get_timestamp R z \<in> taken - {get_timestamp R x}) (y # zs)
      = takeWhile (\<lambda>z. get_timestamp R z \<in> taken) (y # zs)"
    by (intro takeWhile_cong) auto
  then show ?thesis using assms(2) by (simp add: cleanup_count_def)
qed

lemma cleanup_loop_run:
  assumes "lb_fifo R" "increasing R xs" "lb_elements R b = xs" "xs \<noteq> []" "n = cleanup_count R (set pops) xs"
  shows "\<exists>b' pops'. cleanup_loop R (b, pops) k = Inr ((b', pops'), k + word_of_nat n)
           \<and> lb_elements R b' = drop n xs
           \<and> set pops' = set pops - get_timestamp R ` set (take n xs)"
  using assms(2-)
proof (induction n arbitrary: xs b pops k)
  case 0
  have "cleanup_iter R (b, pops) = Inr None"
    using 0 assms(1) by (cases xs rule: remdups_adj.cases)
      (auto simp: cleanup_iter_def fifo_rules cleanup_count_def min_def split: if_splits)
  then show ?case using 0 by (simp add: cleanup_loop.simps)
next
  case (Suc n)
  obtain x y zs where xs: "xs = x # y # zs"
    using Suc.prems(4) by (cases xs rule: remdups_adj.cases) (auto simp: cleanup_count_def)
  have tx: "get_timestamp R x \<in> set pops"
    using Suc.prems(4) by (auto simp: xs cleanup_count_def split: if_splits)
  let ?pops = "sset_erase (get_timestamp R x) pops"
  have step: "cleanup_iter R (b, pops) = Inr (Some (lb_pop R 1 b, ?pops))"
    using assms(1) Suc.prems(2) tx by (auto simp: cleanup_iter_def fifo_rules xs)
  have "\<exists>b' pops'. cleanup_loop R (lb_pop R 1 b, ?pops) (k + 1) = Inr ((b', pops'), k + 1 + word_of_nat n)
           \<and> lb_elements R b' = drop n (y # zs)
           \<and> set pops' = set ?pops - get_timestamp R ` set (take n (y # zs))"
    using Suc.prems tx assms(1)
    by (intro Suc.IH) (auto simp: xs fifo_pop cleanup_count_step)
  then show ?case
    using step by (auto simp: cleanup_loop.simps[of R "(b, pops)"] xs algebra_simps)
qed

text \<open>A cleanup of a nonempty buffer.\<close>

lemma cleanup_run:
  assumes "lb_fifo R" "increasing R (lb_elements R (rh_latency_buffer h))" "lb_elements R (rh_latency_buffer h) \<noteq> []"
  shows "let xs = lb_elements R (rh_latency_buffer h); n = cleanup_count R (set (rh_pop_list h)) xs
         in n < length xs \<and> (\<exists>h'. cleanup R h = (Ret (), h')
              \<and> lb_elements R (rh_latency_buffer h') = drop n xs
              \<and> set (rh_pop_list h') = set (rh_pop_list h) - get_timestamp R ` set (take n xs)
              \<and> rh_pops_count h' = rh_pops_count h + word_of_nat n
              \<and> rh_occupancy h' = word_of_nat (length xs - n)
              \<and> rh_oldest_timestamp h' = get_timestamp R (xs ! n))"
proof -
  let ?xs = "lb_elements R (rh_latency_buffer h)"
  define n where "n = cleanup_count R (set (rh_pop_list h)) ?xs"
  have n: "n < length ?xs" using assms(3) by (cases ?xs) (auto simp: n_def cleanup_count_def)
  obtain b pops where loop: "cleanup_loop R (rh_latency_buffer h, rh_pop_list h) 0 = Inr ((b, pops), word_of_nat n)"
      "lb_elements R b = drop n ?xs" "set pops = set (rh_pop_list h) - get_timestamp R ` set (take n ?xs)"
    using cleanup_loop_run[OF assms(1,2) refl assms(3) n_def, of 0] by auto
  let ?h1 = "h\<lparr>rh_pop_reqs := rh_pop_reqs h + 1, rh_latency_buffer := b, rh_pop_list := pops\<rparr>"
  have front: "lb_elements R b \<noteq> []" "hd (lb_elements R b) = ?xs ! n" "length (lb_elements R b) = length ?xs - n"
    using n by (simp_all add: loop(2) hd_drop_conv_nth)
  have "cleanup R h = cleanup_end R (word_of_nat n) ?h1"
    using loop(1) by (simp add: cleanup_def)
  moreover have "\<exists>h'. cleanup_end R (word_of_nat n) ?h1 = (Ret (), h') \<and> rh_latency_buffer h' = b
      \<and> rh_pop_list h' = pops \<and> rh_pops_count h' = rh_pops_count h + word_of_nat n
      \<and> rh_occupancy h' = word_of_nat (length ?xs - n) \<and> rh_oldest_timestamp h' = get_timestamp R (?xs ! n)"
    using front assms(1) by (simp add: cleanup_end_def run_front_timestamp fifo_occupancy)
  ultimately show ?thesis
    using n loop(2,3) unfolding Let_def n_def[symmetric] by auto
qed

text \<open>
  C8: a cleanup of a nonempty buffer in time order ends and removes exactly the longest front part
  of elements that requests have taken, except that the last element of the buffer always stays.
  The marks of the removed elements are dropped, all other marks kept; the counters record the
  removed elements and the oldest timestamp is that of the new front.
\<close>

theorem cleanup_removes_taken_front:
  assumes "lb_fifo R" "increasing R (lb_elements R (rh_latency_buffer h))" "lb_elements R (rh_latency_buffer h) \<noteq> []"
  shows "let xs = lb_elements R (rh_latency_buffer h); n = cleanup_count R (set (rh_pop_list h)) xs
         in n < length xs \<and> (\<exists>h'. cleanup R h = (Ret (), h')
              \<and> lb_elements R (rh_latency_buffer h') = drop n xs
              \<and> set (rh_pop_list h') = set (rh_pop_list h) - get_timestamp R ` set (take n xs)
              \<and> rh_pops_count h' = rh_pops_count h + word_of_nat n
              \<and> rh_occupancy h' = word_of_nat (length xs - n)
              \<and> rh_oldest_timestamp h' = get_timestamp R (xs ! n))"
  using assms by (rule cleanup_run)

section \<open>What a pass over the waiting requests does\<close>

text \<open>
  The requests \<open>ws\<close> split into kept and issued ones: how a pass changes the handler's state.
\<close>

definition passed :: "u64 \<Rightarrow> (DataRequest \<times> int) list \<Rightarrow> 'b request_handler \<Rightarrow> (DataRequest \<times> int) list
    \<Rightarrow> (DataRequest \<times> int) list \<Rightarrow> 'b request_handler \<Rightarrow> bool" where
  "passed newest ws h kept issued h' \<longleftrightarrow>
     ws \<in> shuffles kept issued
     \<and> rh_pool h' = rh_pool h @ map (\<lambda>w. (fst w, True)) issued
     \<and> list_all (\<lambda>w. newest < dr_window_end (fst w)) kept
     \<and> rh_num_requests_timed_out h' = rh_num_requests_timed_out h
         + word_of_nat (length (filter (\<lambda>w. newest < dr_window_end (fst w)) issued))
     \<and> rh_latency_buffer h' = rh_latency_buffer h \<and> rh_pop_list h' = rh_pop_list h"

lemma waiting_pass_run: "\<exists>kept issued h'. waiting_pass E newest ws h = (Ret kept, h') \<and> passed newest ws h kept issued h'"
proof (induction ws arbitrary: h)
  case Nil
  then show ?case by (auto simp: passed_def)
next
  case (Cons w ws)
  obtain dr t where w: "w = (dr, t)" by (cases w)
  let ?h1 = "h\<lparr>rh_trace := rh_trace h @ [RClock (steady_us E (rh_trace h))]\<rparr>"
  let ?late = "rh_request_timeout_ms h \<le> (steady_us E (rh_trace h) - t) div 1000"
  consider (ready) "dr_window_end dr \<le> newest" | (late) "newest < dr_window_end dr" ?late
    | (keep) "newest < dr_window_end dr" "\<not> ?late"
    by fastforce
  then show ?case
  proof cases
    case ready
    define h2 where "h2 = h\<lparr>rh_pool := rh_pool h @ [(dr, True)]\<rparr>"
    obtain kept issued h' where "waiting_pass E newest ws h2 = (Ret kept, h')" "passed newest ws h2 kept issued h'"
      using Cons.IH by blast
    then have "waiting_pass E newest (w # ws) h = (Ret kept, h') \<and> passed newest (w # ws) h kept (w # issued) h'"
      using ready by (auto simp: w h2_def issue_request_def passed_def Cons_in_shuffles_rightI)
    then show ?thesis by blast
  next
    case late
    define h1 where "h1 = ?h1\<lparr>rh_pool := rh_pool h @ [(dr, True)]\<rparr>"
    define h2 where "h2 = snd ((if rh_warn_on_timeout h then rh_log (RWarn (VerboseRequestTimedOut (rh_sourceid h) dr))
        else return ()) h1)\<lparr>rh_num_requests_bad := rh_num_requests_bad h + 1,
      rh_num_requests_timed_out := rh_num_requests_timed_out h + 1\<rparr>"
    have run: "waiting_pass E newest (w # ws) h = waiting_pass E newest ws h2"
      using late linorder_not_le[THEN iffD2, OF late(1)]
      by (cases "rh_warn_on_timeout h") (simp_all add: w h1_def h2_def issue_request_def)
    obtain kept issued h' where "waiting_pass E newest ws h2 = (Ret kept, h')" "passed newest ws h2 kept issued h'"
      using Cons.IH by blast
    then have "waiting_pass E newest (w # ws) h = (Ret kept, h') \<and> passed newest (w # ws) h kept (w # issued) h'"
      using late(1) run by (auto simp: w h1_def h2_def passed_def Cons_in_shuffles_rightI)
    then show ?thesis by blast
  next
    case keep
    obtain kept issued h' where "waiting_pass E newest ws ?h1 = (Ret kept, h')" "passed newest ws ?h1 kept issued h'"
      using Cons.IH by blast
    then have "waiting_pass E newest (w # ws) h = (Ret (w # kept), h') \<and> passed newest (w # ws) h (w # kept) issued h'"
      using keep linorder_not_le[THEN iffD2, OF keep(1)] by (simp add: w passed_def Cons_in_shuffles_leftI)
    then show ?thesis by blast
  qed
qed

text \<open>
  C38: a pass over the waiting requests issues each of them again at most once or keeps it, in
  order and without losing any; every request whose window the buffer has passed is issued, and
  the others that are issued are counted as timed out.
\<close>

theorem waiting_round_issues_or_keeps:
  assumes "rh_run_marker h"
  shows "let newest = newest_timestamp R (rh_latency_buffer h)
         in \<exists>kept issued h'. check_waiting_round R E h = (Ret True, h')
           \<and> rh_waiting_requests h \<in> shuffles kept issued \<and> rh_waiting_requests h' = kept
           \<and> rh_pool h' = rh_pool h @ map (\<lambda>w. (fst w, True)) issued
           \<and> list_all (\<lambda>w. newest < dr_window_end (fst w)) kept
           \<and> rh_num_requests_timed_out h' = rh_num_requests_timed_out h
               + word_of_nat (length (filter (\<lambda>w. newest < dr_window_end (fst w)) issued))
           \<and> rh_latency_buffer h' = rh_latency_buffer h \<and> rh_pop_list h' = rh_pop_list h"
proof -
  let ?n = "newest_timestamp R (rh_latency_buffer h)"
  have "\<exists>kept issued h'. check_waiting_round R E h = (Ret True, h') \<and> rh_waiting_requests h' = kept
      \<and> passed ?n (rh_waiting_requests h) h kept issued h'"
  proof (cases "rh_waiting_requests h = []")
    case True
    then show ?thesis using assms by (auto simp: check_waiting_round_def passed_def)
  next
    case False
    obtain kept issued h' where "waiting_pass E ?n (rh_waiting_requests h) h = (Ret kept, h')"
        "passed ?n (rh_waiting_requests h) h kept issued h'"
      using waiting_pass_run by blast
    then show ?thesis using assms False
      by (intro exI[of _ kept] exI[of _ issued] exI[of _ "h'\<lparr>rh_waiting_requests := kept\<rparr>"])
        (simp add: check_waiting_round_def passed_def)
  qed
  then show ?thesis unfolding Let_def passed_def by blast
qed

text \<open>Once the run is stopped, the thread that serves the waiting requests leaves them unanswered.\<close>

lemma stop_leaves_waiting_requests:
  "seq rh_stop (check_waiting_round R E) h = (Ret False, h\<lparr>rh_run_marker := False\<rparr>)"
  by (simp add: rh_stop_def check_waiting_round_def)

section \<open>Copying into a ring\<close>

lemma dump_step_arith:
  fixes pos :: u32 and size todo :: u64
  assumes "unat pos < unat size" "unat size < 2 ^ 32"
  defines "n \<equiv> min todo (size - ucast pos)"
  shows "unat n = min (unat todo) (unat size - unat pos)" "unat (todo - n) = unat todo - unat n"
    "unat (pos + ucast n) = unat pos + unat n"
    "(ucast (pos + ucast n) = size) = (unat pos + unat n = unat size)"
proof -
  have small: "unat x < 2 ^ 32" for x :: u32
    by (rule order_less_le_trans[OF unsigned_less]) simp
  have up: "unat (ucast x :: u64) = unat x" for x :: u32
    using small[of x] by (simp add: unsigned_ucast_eq take_bit_nat_eq_self)
  then have le: "(ucast pos :: u64) \<le> size" using assms(1) by (simp add: word_le_nat_alt)
  have sub: "unat (size - ucast pos) = unat size - unat pos"
    using le up by (simp add: unat_sub)
  show n: "unat n = min (unat todo) (unat size - unat pos)"
    by (simp add: n_def min_def word_le_nat_alt sub)
  have "n \<le> todo" by (simp add: n_def)
  then show "unat (todo - n) = unat todo - unat n" by (simp add: unat_sub)
  have "unat (ucast n :: u32) = unat n"
    using n assms(2) by (simp add: unsigned_ucast_eq take_bit_nat_eq_self)
  then show a: "unat (pos + ucast n) = unat pos + unat n"
    using n assms by (simp add: unat_word_ariths)
  have "unat (ucast (pos + ucast n) :: u64) = unat pos + unat n"
    using a by (simp add: up)
  then show "(ucast (pos + ucast n) = size) = (unat pos + unat n = unat size)"
    by (metis unsigned_word_eqI)
qed

text \<open>
  Copying into a nonempty ring of less than 4 GiB from data that is long enough always ends,
  stays within the ring, and when the bytes fit before its end it is a plain copy. When they do not
  fit, the part that wraps to the start of the ring is the beginning of the data again, not its rest.
\<close>

theorem dump_to_buffer_ends:
  assumes "unat pos < unat sz" "unat sz < 2 ^ 32" "length buf = unat sz" "unat todo \<le> length dat"
  shows "\<exists>buf'. dump_to_buffer dat todo buf pos sz = Some (Inr buf') \<and> length buf' = unat sz
     \<and> (unat pos + unat todo \<le> unat sz \<longrightarrow>
          buf' = take (unat pos) buf @ take (unat todo) dat @ drop (unat pos + unat todo) buf)
     \<and> (unat pos + unat todo > unat sz \<and> unat todo \<le> unat sz \<longrightarrow>
          take (unat pos + unat todo - unat sz) buf' = take (unat pos + unat todo - unat sz) dat)"
  using assms
proof (induction "unat todo" arbitrary: todo pos buf rule: less_induct)
  case (less todo pos buf)
  show ?case
  proof (cases "todo = 0")
    case True
    then show ?thesis using less.prems by (simp add: dump_to_buffer.simps)
  next
    case False
    define n where "n = min todo (sz - ucast pos)"
    note ar = dump_step_arith[OF less.prems(1,2), of todo, folded n_def]
    define buf1 where "buf1 = take (unat pos) buf @ take (unat n) dat @ drop (unat pos + unat n) buf"
    define pos1 where "pos1 = (if unat pos + unat n = unat sz then 0 else pos + ucast n)"
    have T: "0 < unat todo" using False by (simp add: unat_gt_0)
    have cpy: "memcpy_at buf (unat pos) dat (unat n) = Inr buf1"
      using less.prems ar(1) by (auto simp: memcpy_at_def buf1_def)
    have step: "dump_to_buffer dat todo buf pos sz = dump_to_buffer dat (todo - n) buf1 pos1 sz"
      using False cpy ar(4) by (simp add: dump_to_buffer.simps[of dat todo] n_def[symmetric] Let_def pos1_def)
    have len1: "length buf1 = unat sz" using less.prems ar(1) by (simp add: buf1_def)
    have pos1: "unat pos1 < unat sz" "unat pos1 = (if unat pos + unat n = unat sz then 0 else unat pos + unat n)"
      using less.prems ar(1,3) by (auto simp: pos1_def)
    have smaller: "unat (todo - n) < unat todo" and enough: "unat (todo - n) \<le> length dat"
      using less.prems(1,4) ar(1,2) T by linarith+
    obtain buf' where ih: "dump_to_buffer dat (todo - n) buf1 pos1 sz = Some (Inr buf')" "length buf' = unat sz"
        "unat pos1 + unat (todo - n) \<le> unat sz \<longrightarrow>
          buf' = take (unat pos1) buf1 @ take (unat (todo - n)) dat @ drop (unat pos1 + unat (todo - n)) buf1"
      using less.hyps[OF smaller pos1(1) less.prems(2) len1 enough] by blast
    have fit: "buf' = take (unat pos) buf @ take (unat todo) dat @ drop (unat pos + unat todo) buf"
      if "unat pos + unat todo \<le> unat sz"
    proof -
      have "unat n = unat todo" using that ar(1) by simp
      then have "unat (todo - n) = 0" using ar(2) by simp
      then have "buf' = buf1" using ih(3) pos1(1) by simp
      then show ?thesis using \<open>unat n = unat todo\<close> by (simp add: buf1_def)
    qed
    have wrap: "take (unat pos + unat todo - unat sz) buf' = take (unat pos + unat todo - unat sz) dat"
      if "unat pos + unat todo > unat sz" "unat todo \<le> unat sz"
    proof -
      have n: "unat n = unat sz - unat pos" using that ar(1) by simp
      then have "unat pos1 = 0" using less.prems(1) pos1(2) by simp
      moreover have "unat (todo - n) = unat pos + unat todo - unat sz" using n ar(2) less.prems(1) by simp
      moreover have "unat pos + unat todo - unat sz \<le> unat sz" "unat pos + unat todo - unat sz \<le> length dat"
        using that less.prems(1,4) by linarith+
      ultimately show ?thesis using ih(3) by simp
    qed
    show ?thesis using step ih(1,2) fit wrap by auto
  qed
qed

theorem dump_to_buffer_ends_witness:
  "\<exists>buf'. dump_to_buffer [1, 2, 3, 4] 4 [0, 0, 0, 0, 0] 3 5 = Some (Inr buf') \<and> take 2 buf' = [1, 2]"
proof -
  have "(unat (3 :: u32) < unat (5 :: u64))" "unat (5 :: u64) < 2 ^ 32" "unat (4 :: u64) \<le> 4"
      "length [0, 0, 0, 0, 0 :: byte] = unat (5 :: u64)" "length [1, 2, 3, 4 :: byte] = 4"
    by simp_all
  then show ?thesis
    using dump_to_buffer_ends[of 3 5 "[0, 0, 0, 0, 0]" 4 "[1, 2, 3, 4]"] by auto
qed

section \<open>A concrete readout\<close>

text \<open>A buffer that is a list of timestamped payloads, which satisfies the law of the buffer.\<close>

definition list_readout :: "((u64 \<times> byte list) list, u64 \<times> byte list) readout" where
  "list_readout =
     \<lparr>get_timestamp = fst, payload = snd, fragment_type = 1, subsystem = 2, header_size = 72,
      default_status_bits = 0,
      status_bit = (\<lambda>b. case b of kEmptyFragment \<Rightarrow> 0 | kLatencyBufferEmpty \<Rightarrow> 1 | kRequestWindowBeforeBuffer \<Rightarrow> 2
                    | kRequestWindowAfterBuffer \<Rightarrow> 3 | kIncomplete \<Rightarrow> 4),
      lb_occupancy = length, lb_front = (\<lambda>b. if b = [] then None else Some (hd b)),
      lb_back = (\<lambda>b. if b = [] then None else Some (last b)), lb_elements = (\<lambda>b. b),
      lb_pop = drop, lb_write = (\<lambda>x b. b @ [x])\<rparr>"

lemma list_readout_fifo: "lb_fifo list_readout"
  by (simp add: lb_fifo_def list_readout_def)

definition sample_handler :: "'b \<Rightarrow> u64 list \<Rightarrow> 'b request_handler" where
  "sample_handler b pops =
     \<lparr>rh_latency_buffer = b, rh_cleanup_requested = False, rh_requests_running = 0,
      rh_waiting_requests = [], rh_pool = [], rh_run_marker = True, rh_recording = False,
      rh_pop_list = pops, rh_buffer_capacity = 100, rh_sourceid = (2, 7), rh_detid = 3,
      rh_output_file = [], rh_stream_buffer_size = 0, rh_writer_open = False,
      rh_recording_configured = False, rh_warn_on_timeout = True, rh_warn_about_empty_buffer = True,
      rh_periodic_data_transmission_ms = 0, rh_frag_out_conn_ids = [],
      rh_num_request_handling_threads = 4, rh_fragment_send_timeout_ms = 10,
      rh_request_timeout_ms = 1000, rh_t0 = 0, rh_num_buffer_cleanups = 0, rh_pop_reqs = 0,
      rh_pops_count = 0, rh_occupancy = 0, rh_num_requests_found = 0, rh_num_requests_bad = 0,
      rh_num_requests_old_window = 0, rh_num_requests_delayed = 0, rh_num_requests_uncategorized = 0,
      rh_num_requests_timed_out = 0, rh_handled_requests = 0, rh_response_time_acc = 0,
      rh_response_time_min = int_max, rh_response_time_max = 0, rh_payloads_written = 0,
      rh_bytes_written = 0, rh_num_periodic_sent = 0, rh_num_periodic_send_failed = 0,
      rh_oldest_timestamp = 0, rh_trace = []\<rparr>"

definition sample_request :: "u64 \<Rightarrow> u64 \<Rightarrow> DataRequest" where
  "sample_request b e =
     \<lparr>dr_trigger_number = 1, dr_trigger_timestamp = 0, dr_window_begin = b, dr_window_end = e,
      dr_component = (2, 7), dr_run_number = 5, dr_sequence_number = 0, dr_data_destination = ''df''\<rparr>"

definition sample_renv :: renv where
  "sample_renv = \<lparr>steady_us = (\<lambda>t. int (length t)), send_fragment = (\<lambda>_ _ _. True)\<rparr>"

lemma list_readout_sel [simp]:
  "get_timestamp list_readout = fst" "payload list_readout = snd" "lb_elements list_readout b = b"
  by (simp_all add: list_readout_def)

lemma sample_handler_sel [simp]:
  "rh_latency_buffer (sample_handler b pops) = b" "rh_pop_list (sample_handler b pops) = pops"
  "rh_pool (sample_handler b pops) = []" "rh_waiting_requests (sample_handler b pops) = []"
  "rh_run_marker (sample_handler b pops)" "\<not> rh_cleanup_requested (sample_handler b pops)"
  "rh_requests_running (sample_handler b pops) = 0"
  by (simp_all add: sample_handler_def)

lemma sample_request_sel [simp]:
  "dr_window_begin (sample_request b e) = b" "dr_window_end (sample_request b e) = e"
  by (simp_all add: sample_request_def)

theorem data_request_by_window_witness:
  "\<exists>r h'. data_request list_readout (sample_request 15 30)
            (sample_handler [(10, [1]), (20, [2]), (25, [3]), (30, [4]), (40, [5])] [20]) = (Ret r, h')
        \<and> rr_result_code r = kFound \<and> fr_pieces (rr_fragment r) = [[3], [4]]"
proof -
  let ?h = "sample_handler [(10, [1]), (20, [2]), (25, [3]), (30, [4]), (40, [5])] [20] :: (u64 \<times> byte list) list request_handler"
  have inc: "increasing list_readout (lb_elements list_readout (rh_latency_buffer ?h))"
    by simp
  show ?thesis
    using data_request_by_window[OF list_readout_fifo inc, of "sample_request 15 30"]
    by (auto simp: Let_def in_window_def max_def)
qed

theorem cleanup_removes_taken_front_witness:
  "\<exists>h'. cleanup list_readout (sample_handler [(10, [1]), (20, [2]), (30, [3])] [10, 30]) = (Ret (), h')
     \<and> rh_latency_buffer h' = [(20, [2]), (30, [3])] \<and> rh_oldest_timestamp h' = 20"
proof -
  let ?h = "sample_handler [(10, [1]), (20, [2]), (30, [3])] [10, 30] :: (u64 \<times> byte list) list request_handler"
  have "increasing list_readout (lb_elements list_readout (rh_latency_buffer ?h))"
      "lb_elements list_readout (rh_latency_buffer ?h) \<noteq> []"
    by simp_all
  from cleanup_removes_taken_front[OF list_readout_fifo this] show ?thesis
    by (auto simp: Let_def cleanup_count_def)
qed

theorem waiting_round_issues_or_keeps_witness:
  "\<exists>h'. check_waiting_round list_readout sample_renv
          ((sample_handler [(10, [1])] [])\<lparr>rh_waiting_requests := [(sample_request 1 5, 0), (sample_request 1 20, 0)]\<rparr>) = (Ret True, h')
        \<and> length (rh_pool h') + length (rh_waiting_requests h') = 2"
proof -
  let ?h = "(sample_handler [(10, [1])] [])\<lparr>rh_waiting_requests := [(sample_request 1 5, 0), (sample_request 1 20, 0)]\<rparr>
              :: (u64 \<times> byte list) list request_handler"
  have "rh_run_marker ?h" by simp
  from waiting_round_issues_or_keeps[OF this, of list_readout sample_renv]
  obtain kept issued h' where r: "check_waiting_round list_readout sample_renv ?h = (Ret True, h')"
      "rh_waiting_requests ?h \<in> shuffles kept issued" "rh_waiting_requests h' = kept"
      "rh_pool h' = rh_pool ?h @ map (\<lambda>w. (fst w, True)) issued"
    unfolding Let_def by blast
  then have "length kept + length issued = 2"
    using length_shuffles[OF r(2)] by simp
  then show ?thesis using r by auto
qed

end
