(* ===== verification/Request_Threads.thy ===== *)
theory Request_Threads
  imports Request_Handler "HOL-Library.Multiset"
begin

text \<open>
  The threads of \<open>SNBRequestHandlerModel\<close>: pool threads that run the body of \<open>issue_request\<close>, the
  periodic cleanup thread, and the thread of the waiting requests, interleaved with the producer that
  writes into the latency buffer. A step of a thread is the code between two points at which it
  takes or releases a mutex; one element of the window loop (which holds \<open>m_pop_list_mutex\<close>) and one
  pop of a cleanup are a step each. A thread that waits on the condition variable has no step until
  its predicate holds and the mutex is free. History lists record what was written, taken, popped,
  requested and answered; no guard reads them.
\<close>

section \<open>Model\<close>

datatype 'e pc =
    Idle
  | ReqEnter DataRequest bool int
  | ReqStart DataRequest bool int
  | ReqIter DataRequest bool int nat "'e list"
  | ReqLeave DataRequest bool int RequestResult
  | ReqRespond DataRequest bool int RequestResult
  | Check "int option"
  | ClWait "int option"
  | ClPop "int option" u32
  | ReqFinish int

record ('b, 'e) sys =
  sys_h :: "'b request_handler"
  sys_cv_mutex :: bool
  sys_threads :: "'e pc list"
  sys_written :: "'e list"
  sys_taken :: "'e list"
  sys_popped :: "'e list"
  sys_requests :: "DataRequest list"
  sys_answers :: "DataRequest list"

definition goto :: "nat \<Rightarrow> 'e pc \<Rightarrow> 'b request_handler \<Rightarrow> ('b, 'e) sys \<Rightarrow> ('b, 'e) sys" where
  "goto t p h s = s\<lparr>sys_h := h, sys_threads := (sys_threads s)[t := p]\<rparr>"

text \<open>A thread whose code has undefined behaviour is stuck.\<close>

definition run_action :: "('s, 'a) action \<Rightarrow> 's \<Rightarrow> ('a \<times> 's) option" where
  "run_action f h = (case f h of (Ret x, h') \<Rightarrow> Some (x, h') | (Raise _, _) \<Rightarrow> None)"

text \<open>Where a thread continues after \<open>cleanup_check\<close>: a request thread with its statistics.\<close>

definition after_check :: "int option \<Rightarrow> 'e pc" where
  "after_check k = (case k of Some t_req_begin \<Rightarrow> ReqFinish t_req_begin | None \<Rightarrow> Idle)"

definition req_pick :: "renv \<Rightarrow> nat \<Rightarrow> ('b, 'e) sys \<Rightarrow> ('b, 'e) sys option" where
  "req_pick E t s =
     (let h = sys_h s in case rh_pool h of [] \<Rightarrow> None
      | (dr, retry) # rest \<Rightarrow>
          map_option (\<lambda>(t0, h'). goto t (ReqEnter dr retry t0) (h'\<lparr>rh_pool := rest\<rparr>) s) (run_action (rh_now E) h))"

definition req_enter :: "nat \<Rightarrow> DataRequest \<Rightarrow> bool \<Rightarrow> int \<Rightarrow> ('b, 'e) sys \<Rightarrow> ('b, 'e) sys option" where
  "req_enter t dr retry t0 s =
     (let h = sys_h s in
      if sys_cv_mutex s \<or> rh_cleanup_requested h then None
      else Some (goto t (ReqStart dr retry t0) (h\<lparr>rh_requests_running := rh_requests_running h + 1\<rparr>) s))"

definition req_start :: "('b, 'e) readout \<Rightarrow> nat \<Rightarrow> DataRequest \<Rightarrow> bool \<Rightarrow> int \<Rightarrow> ('b, 'e) sys \<Rightarrow> ('b, 'e) sys option" where
  "req_start R t dr retry t0 s =
     (let h = sys_h s in
      if lb_occupancy R (rh_latency_buffer h) \<noteq> 0
         \<and> fst (window_code R (dr_window_begin dr) (dr_window_end dr) h) = Ret kFound
      then Some (goto t (ReqIter dr retry t0 0 []) h s)
      else map_option (\<lambda>(r, h'). goto t (ReqLeave dr retry t0 r) h' s) (run_action (data_request R dr) h))"

definition req_iter :: "('b, 'e) readout \<Rightarrow> nat \<Rightarrow> DataRequest \<Rightarrow> bool \<Rightarrow> int \<Rightarrow> nat \<Rightarrow> 'e list \<Rightarrow> ('b, 'e) sys \<Rightarrow> ('b, 'e) sys option" where
  "req_iter R t dr retry t0 i ps s =
     (let h = sys_h s; xs = lb_elements R (rh_latency_buffer h) in
      if i < length xs \<and> get_timestamp R (xs ! i) \<le> dr_window_end dr then
        (let (qs, pops) = piece_step R (dr_window_begin dr) (xs ! i) (rh_pop_list h)
         in Some ((goto t (ReqIter dr retry t0 (Suc i) (ps @ qs)) (h\<lparr>rh_pop_list := pops\<rparr>) s)
                    \<lparr>sys_taken := sys_taken s @ qs\<rparr>))
      else map_option (\<lambda>(fh, h'). goto t (ReqLeave dr retry t0 (build_result R kFound dr ps fh)) h' s)
             (run_action (categorise R kFound (create_fragment_header R h dr)) h))"

definition req_leave :: "nat \<Rightarrow> DataRequest \<Rightarrow> bool \<Rightarrow> int \<Rightarrow> RequestResult \<Rightarrow> ('b, 'e) sys \<Rightarrow> ('b, 'e) sys option" where
  "req_leave t dr retry t0 r s =
     (let h = sys_h s in
      if sys_cv_mutex s then None
      else Some (goto t (ReqRespond dr retry t0 r) (h\<lparr>rh_requests_running := rh_requests_running h - 1\<rparr>) s))"

text \<open>A fragment whose sending fails skips the cleanup check, which the exception jumps over.\<close>

definition requeues :: "'b request_handler \<Rightarrow> bool \<Rightarrow> RequestResult \<Rightarrow> bool" where
  "requeues h retry r \<longleftrightarrow>
     (rr_result_code r = kNotYet \<or> rr_result_code r = kPartial) \<and> rh_request_timeout_ms h > 0 \<and> \<not> retry"

definition req_respond :: "renv \<Rightarrow> nat \<Rightarrow> DataRequest \<Rightarrow> bool \<Rightarrow> int \<Rightarrow> RequestResult \<Rightarrow> ('b, 'e) sys \<Rightarrow> ('b, 'e) sys option" where
  "req_respond E t dr retry t0 r s =
     map_option (\<lambda>(sent, h').
         (goto t (if sent then Check (Some t0) else ReqFinish t0) h' s)
           \<lparr>sys_answers := sys_answers s @ (if requeues (sys_h s) retry r then [] else [dr])\<rparr>)
       (run_action (respond E dr retry r) (sys_h s))"

definition cleanup_request :: "nat \<Rightarrow> int option \<Rightarrow> ('b, 'e) sys \<Rightarrow> ('b, 'e) sys option" where
  "cleanup_request t k s =
     (let h = sys_h s in
      if sys_cv_mutex s then None
      else if rh_pop_list h \<noteq> [] \<and> \<not> rh_cleanup_requested h
      then Some (goto t (ClWait k) (h\<lparr>rh_cleanup_requested := True\<rparr>) s)
      else Some (goto t (after_check k) h s))"

definition cleanup_begin :: "nat \<Rightarrow> int option \<Rightarrow> ('b, 'e) sys \<Rightarrow> ('b, 'e) sys option" where
  "cleanup_begin t k s =
     (let h = sys_h s in
      if sys_cv_mutex s \<or> rh_requests_running h \<noteq> 0 then None
      else Some ((goto t (ClPop k 0) (h\<lparr>rh_pop_reqs := rh_pop_reqs h + 1\<rparr>) s)\<lparr>sys_cv_mutex := True\<rparr>))"

definition cleanup_pop :: "('b, 'e) readout \<Rightarrow> nat \<Rightarrow> int option \<Rightarrow> u32 \<Rightarrow> ('b, 'e) sys \<Rightarrow> ('b, 'e) sys option" where
  "cleanup_pop R t k popped s =
     (let h = sys_h s in
      case cleanup_iter R (rh_latency_buffer h, rh_pop_list h) of
        Inl _ \<Rightarrow> None
      | Inr (Some (b, pops)) \<Rightarrow>
          Some ((goto t (ClPop k (popped + 1)) (h\<lparr>rh_latency_buffer := b, rh_pop_list := pops\<rparr>) s)
                  \<lparr>sys_popped := sys_popped s @ take 1 (lb_elements R (rh_latency_buffer h))\<rparr>)
      | Inr None \<Rightarrow>
          map_option (\<lambda>(_, h'). (goto t (after_check k) (h'\<lparr>rh_cleanup_requested := False\<rparr>) s)\<lparr>sys_cv_mutex := False\<rparr>)
            (run_action (cleanup_end R popped) h))"

definition req_finish :: "renv \<Rightarrow> nat \<Rightarrow> int \<Rightarrow> ('b, 'e) sys \<Rightarrow> ('b, 'e) sys option" where
  "req_finish E t t0 s = map_option (\<lambda>(_, h'). goto t Idle h' s) (run_action (finish_request E t0) (sys_h s))"

definition thread_step :: "('b, 'e) readout \<Rightarrow> renv \<Rightarrow> nat \<Rightarrow> ('b, 'e) sys \<Rightarrow> ('b, 'e) sys option" where
  "thread_step R E t s =
     (case sys_threads s ! t of
        Idle \<Rightarrow> req_pick E t s
      | ReqEnter dr retry t0 \<Rightarrow> req_enter t dr retry t0 s
      | ReqStart dr retry t0 \<Rightarrow> req_start R t dr retry t0 s
      | ReqIter dr retry t0 i ps \<Rightarrow> req_iter R t dr retry t0 i ps s
      | ReqLeave dr retry t0 r \<Rightarrow> req_leave t dr retry t0 r s
      | ReqRespond dr retry t0 r \<Rightarrow> req_respond E t dr retry t0 r s
      | Check k \<Rightarrow> cleanup_request t k s
      | ClWait k \<Rightarrow> cleanup_begin t k s
      | ClPop k popped \<Rightarrow> cleanup_pop R t k popped s
      | ReqFinish t0 \<Rightarrow> req_finish E t t0 s)"

lemmas section_defs =
  req_pick_def req_enter_def req_start_def req_iter_def req_leave_def req_respond_def
  cleanup_request_def cleanup_begin_def cleanup_pop_def req_finish_def

inductive run_step :: "('b, 'e) readout \<Rightarrow> renv \<Rightarrow> ('b, 'e) sys \<Rightarrow> ('b, 'e) sys \<Rightarrow> bool" for R E where
  run_thread: "t < length (sys_threads s) \<Longrightarrow> thread_step R E t s = Some s' \<Longrightarrow> run_step R E s s'"

text \<open>
  The system: a thread step, the periodic thread reaching its cleanup check, the producer writing an
  element newer than all before, a new request, or a round of the waiting requests.
\<close>

inductive sys_step :: "('b, 'e) readout \<Rightarrow> renv \<Rightarrow> ('b, 'e) sys \<Rightarrow> ('b, 'e) sys \<Rightarrow> bool" for R E where
  step_thread: "run_step R E s s' \<Longrightarrow> sys_step R E s s'"
| step_periodic:
    "t < length (sys_threads s) \<Longrightarrow> sys_threads s ! t = Idle \<Longrightarrow> rh_run_marker (sys_h s) \<Longrightarrow>
     sys_step R E s (goto t (Check None) (sys_h s) s)"
| step_write:
    "list_all (\<lambda>y. get_timestamp R y < get_timestamp R x) (sys_written s) \<Longrightarrow>
     sys_step R E s (s\<lparr>sys_h := (sys_h s)\<lparr>rh_latency_buffer := lb_write R x (rh_latency_buffer (sys_h s))\<rparr>,
                       sys_written := sys_written s @ [x]\<rparr>)"
| step_request:
    "issue_request dr False (sys_h s) = (Ret (), h') \<Longrightarrow>
     sys_step R E s (s\<lparr>sys_h := h', sys_requests := sys_requests s @ [dr]\<rparr>)"
| step_waiting:
    "check_waiting_round R E (sys_h s) = (Ret b, h') \<Longrightarrow> sys_step R E s (s\<lparr>sys_h := h'\<rparr>)"

inductive_cases run_stepE: "run_step R E s s'"

definition sys_init :: "('b, 'e) readout \<Rightarrow> nat \<Rightarrow> 'b request_handler \<Rightarrow> ('b, 'e) sys" where
  "sys_init R n h =
     \<lparr>sys_h = h, sys_cv_mutex = False, sys_threads = replicate n Idle,
      sys_written = lb_elements R (rh_latency_buffer h), sys_taken = [], sys_popped = [],
      sys_requests = [], sys_answers = []\<rparr>"

text \<open>A handler before its first request.\<close>

definition fresh_handler :: "('b, 'e) readout \<Rightarrow> 'b request_handler \<Rightarrow> bool" where
  "fresh_handler R h \<longleftrightarrow>
     \<not> rh_cleanup_requested h \<and> rh_requests_running h = 0 \<and> rh_pop_list h = [] \<and> rh_pool h = []
     \<and> rh_waiting_requests h = [] \<and> increasing R (lb_elements R (rh_latency_buffer h))"

section \<open>Counting threads\<close>

definition pc_count :: "('e pc \<Rightarrow> bool) \<Rightarrow> 'e pc list \<Rightarrow> int" where
  "pc_count P ps = int (length (filter P ps))"

lemma pc_count_update:
  "t < length ps \<Longrightarrow> pc_count P (ps[t := p]) = pc_count P ps - of_bool (P (ps ! t)) + of_bool (P p)"
proof (induction ps arbitrary: t)
  case (Cons q ps)
  show ?case
  proof (cases t)
    case (Suc n)
    then show ?thesis using Cons.IH[of n] Cons.prems by (simp add: pc_count_def)
  qed (simp add: pc_count_def)
qed simp

lemma pc_count_replicate [simp]: "\<not> P p \<Longrightarrow> pc_count P (replicate n p) = 0"
  by (simp add: pc_count_def filter_empty_conv)

lemma pc_count_pos: "t < length ps \<Longrightarrow> P (ps ! t) \<Longrightarrow> 0 < pc_count P ps"
  by (auto simp: pc_count_def filter_empty_conv)

lemma pc_count_zero: "pc_count P ps = 0 \<longleftrightarrow> (\<forall>t<length ps. \<not> P (ps ! t))"
  by (simp add: pc_count_def filter_empty_conv all_set_conv_all_nth)

lemma pc_count_mono: "(\<And>p. P p \<Longrightarrow> Q p) \<Longrightarrow> pc_count P ps \<le> pc_count Q ps"
  by (induction ps) (auto simp: pc_count_def)

lemma pc_count_nonneg [simp]: "0 \<le> pc_count P ps"
  by (simp add: pc_count_def)

text \<open>A thread inside the data request, one in a cleanup, and one that is popping.\<close>

fun inside :: "'e pc \<Rightarrow> bool" where
  "inside (ReqStart dr retry t0) = True"
| "inside (ReqIter dr retry t0 i ps) = True"
| "inside (ReqLeave dr retry t0 r) = True"
| "inside p = False"

fun popping :: "'e pc \<Rightarrow> bool" where
  "popping (ClPop k n) = True"
| "popping p = False"

fun cleaning :: "'e pc \<Rightarrow> bool" where
  "cleaning (ClWait k) = True"
| "cleaning (ClPop k n) = True"
| "cleaning p = False"

lemma after_check_pc [simp]: "\<not> inside (after_check k)" "\<not> popping (after_check k)" "\<not> cleaning (after_check k)"
  by (auto simp: after_check_def split: option.splits)

lemma goto_sel [simp]:
  "sys_h (goto t p h s) = h" "sys_threads (goto t p h s) = (sys_threads s)[t := p]"
  "sys_cv_mutex (goto t p h s) = sys_cv_mutex s" "sys_written (goto t p h s) = sys_written s"
  "sys_taken (goto t p h s) = sys_taken s" "sys_popped (goto t p h s) = sys_popped s"
  "sys_requests (goto t p h s) = sys_requests s" "sys_answers (goto t p h s) = sys_answers s"
  by (simp_all add: goto_def)

section \<open>What the parts of the code leave alone\<close>

text \<open>The fields of the handler that synchronise the threads, and the data they protect.\<close>

definition sync_kept :: "'b request_handler \<Rightarrow> 'b request_handler \<Rightarrow> bool" where
  "sync_kept h h' \<longleftrightarrow>
     rh_latency_buffer h' = rh_latency_buffer h \<and> rh_pop_list h' = rh_pop_list h
     \<and> rh_requests_running h' = rh_requests_running h \<and> rh_cleanup_requested h' = rh_cleanup_requested h"

interpretation sync_kept: frame_order sync_kept
  by unfold_locales (auto simp: sync_kept_def)

lemma keeps_rh_log: "keeps sync_kept (rh_log e)"
  by (simp add: keeps_def sync_kept_def)

lemma keeps_rh_now: "keeps sync_kept (rh_now E)"
  by (simp add: keeps_def sync_kept_def)

lemma keeps_issue_request: "keeps sync_kept (issue_request dr retry)"
  by (simp add: keeps_def sync_kept_def issue_request_def)

lemma keeps_front_timestamp: "keeps sync_kept (front_timestamp R)"
  by (auto simp: front_timestamp_def intro!: sync_kept.frame_rules split: option.split)

lemma keeps_categorise: "keeps sync_kept (categorise R code fh)"
  by (cases code) (simp_all add: categorise_def keeps_def sync_kept_def)

lemma keeps_respond: "keeps sync_kept (respond E dr retry r)"
  by (auto simp: keeps_def sync_kept_def respond_def)

lemma keeps_finish_request: "keeps sync_kept (finish_request E t0)"
  by (auto simp: keeps_def sync_kept_def finish_request_def Let_def)

lemma keeps_cleanup_end: "keeps sync_kept (cleanup_end R n)"
  unfolding cleanup_end_def
  by (intro sync_kept.frame_rules keeps_front_timestamp keeps_rh_log) (simp_all add: keeps_def sync_kept_def)

lemma keeps_waiting_pass: "keeps sync_kept (waiting_pass E newest ws)"
proof (induction ws)
  case (Cons w ws)
  have "keeps sync_kept (modifies (\<lambda>h. h\<lparr>rh_num_requests_bad := rh_num_requests_bad h + 1,
      rh_num_requests_timed_out := rh_num_requests_timed_out h + 1\<rparr>))"
    by (simp add: keeps_def sync_kept_def)
  then show ?case using Cons
    by (cases w) (auto intro!: sync_kept.frame_rules keeps_issue_request keeps_rh_now keeps_rh_log split: prod.split)
qed (simp add: keeps_def sync_kept_def)

lemma keeps_check_waiting_round: "keeps sync_kept (check_waiting_round R E)"
  unfolding check_waiting_round_def
  by (auto intro!: sync_kept.frame_rules keeps_waiting_pass split: prod.split)
    (simp add: keeps_def sync_kept_def)

lemma keeps_empty_buffer_result: "keeps sync_kept (empty_buffer_result R dr)"
  unfolding empty_buffer_result_def
  by (auto intro!: sync_kept.frame_rules keeps_rh_log split: prod.split) (simp add: keeps_def sync_kept_def)

lemma run_action_kept: "keeps sync_kept f \<Longrightarrow> run_action f h = Some (x, h') \<Longrightarrow> sync_kept h h'"
  using keepsD[of sync_kept f h] by (auto simp: run_action_def split: prod.splits outcome.splits)

text \<open>A request that finds no window to read changes nothing the threads share.\<close>

lemma data_request_kept:
  assumes "lb_occupancy R (rh_latency_buffer h) = 0 \<or> fst (window_code R (dr_window_begin dr) (dr_window_end dr) h) \<noteq> Ret kFound"
    and "run_action (data_request R dr) h = Some (r, h')"
  shows "sync_kept h h'"
proof (cases "lb_occupancy R (rh_latency_buffer h) = 0")
  case True
  then have "run_action (empty_buffer_result R dr) h = Some (r, h')"
    using assms(2) by (simp add: run_action_def data_request_def)
  then show ?thesis by (rule run_action_kept[OF keeps_empty_buffer_result])
next
  case False
  obtain out h1 where wc: "window_code R (dr_window_begin dr) (dr_window_end dr) h = (out, h1)" by fastforce
  have "snd (window_code R (dr_window_begin dr) (dr_window_end dr) h) = h"
    by (auto simp: window_code_def front_timestamp_def back_timestamp_def run_bind split: option.splits)
  then have h1: "h1 = h" using wc by simp
  show ?thesis
  proof (cases out)
    case (Ret code)
    then have "run_action (bind (categorise R code (create_fragment_header R h dr))
        (\<lambda>fh. return (build_result R code dr [] fh))) h = Some (r, h')"
      using assms False wc h1 by (simp add: run_action_def data_request_def get_fragment_pieces_def)
    then show ?thesis
      by (rule run_action_kept[rotated]) (intro sync_kept.frame_rules keeps_categorise)
  next
    case (Raise e)
    then show ?thesis
      using assms False wc h1 by (simp add: run_action_def data_request_def get_fragment_pieces_def)
  qed
qed

lemmas data_request_quiet = data_request_kept[OF disjI1] data_request_kept[OF disjI2]

section \<open>Mutual exclusion\<close>

definition sync_inv :: "('b, 'e) sys \<Rightarrow> bool" where
  "sync_inv s \<longleftrightarrow>
     rh_requests_running (sys_h s) = pc_count inside (sys_threads s)
     \<and> pc_count cleaning (sys_threads s) = of_bool (rh_cleanup_requested (sys_h s))
     \<and> pc_count popping (sys_threads s) = of_bool (sys_cv_mutex s)
     \<and> (sys_cv_mutex s \<longrightarrow> pc_count inside (sys_threads s) = 0)"

lemma sync_inv_goto:
  assumes "sync_inv s" "t < length (sys_threads s)" "sync_kept (sys_h s) h"
    and "inside p = inside (sys_threads s ! t)" "cleaning p = cleaning (sys_threads s ! t)"
    and "popping p = popping (sys_threads s ! t)"
  shows "sync_inv (goto t p h s)"
  using assms by (simp add: sync_inv_def sync_kept_def pc_count_update)

text \<open>The histories do not matter for the synchronisation.\<close>

lemma sync_inv_history [simp]:
  "sync_inv (s\<lparr>sys_taken := xs\<rparr>) = sync_inv s" "sync_inv (s\<lparr>sys_popped := xs\<rparr>) = sync_inv s"
  "sync_inv (s\<lparr>sys_answers := ds\<rparr>) = sync_inv s"
  by (simp_all add: sync_inv_def)

lemma sync_inv_thread:
  assumes inv: "sync_inv s" and t: "t < length (sys_threads s)" and step: "thread_step R E t s = Some s'"
  shows "sync_inv s'"
proof (cases "sys_threads s ! t")
  case Idle
  then show ?thesis using inv t step
    by (auto simp: thread_step_def req_pick_def Let_def run_action_def sync_kept_def
        intro!: sync_inv_goto split: list.splits prod.splits)
next
  case (ReqEnter dr retry t0)
  then show ?thesis using inv t step
    by (auto simp: thread_step_def req_enter_def Let_def sync_inv_def pc_count_update split: if_splits)
next
  case (ReqStart dr retry t0)
  then show ?thesis using inv t step
    by (auto simp: thread_step_def req_start_def Let_def intro!: sync_inv_goto
        intro: data_request_quiet sync_kept.frame_refl split: if_splits)
next
  case (ReqIter dr retry t0 i ps)
  then show ?thesis using inv t step
    by (auto simp: thread_step_def req_iter_def Let_def sync_inv_def pc_count_update
        dest: run_action_kept[OF keeps_categorise] simp: sync_kept_def split: if_splits prod.splits)
next
  case (ReqLeave dr retry t0 r)
  then show ?thesis using inv t step
    by (auto simp: thread_step_def req_leave_def Let_def sync_inv_def pc_count_update split: if_splits)
next
  case (ReqRespond dr retry t0 r)
  then show ?thesis using inv t step
    by (auto simp: thread_step_def req_respond_def intro!: sync_inv_goto
        dest: run_action_kept[OF keeps_respond])
next
  case (Check k)
  then show ?thesis using inv t step
    by (auto simp: thread_step_def cleanup_request_def Let_def sync_inv_def pc_count_update split: if_splits)
next
  case (ClWait k)
  then show ?thesis using inv t step
    by (auto simp: thread_step_def cleanup_begin_def Let_def sync_inv_def pc_count_update split: if_splits)
next
  case (ClPop k n)
  have "rh_cleanup_requested (sys_h s)" "sys_cv_mutex s"
    using inv pc_count_pos[OF t, of cleaning] pc_count_pos[OF t, of popping] ClPop
    by (auto simp: sync_inv_def of_bool_def split: if_splits)
  then show ?thesis using inv t step ClPop
    by (auto simp: thread_step_def cleanup_pop_def Let_def sync_inv_def pc_count_update sync_kept_def
        dest: run_action_kept[OF keeps_cleanup_end] split: sum.splits option.splits)
next
  case (ReqFinish t0)
  then show ?thesis using inv t step
    by (auto simp: thread_step_def req_finish_def intro!: sync_inv_goto
        dest: run_action_kept[OF keeps_finish_request])
qed

lemma sync_inv_step:
  assumes "sys_step R E s s'" "sync_inv s"
  shows "sync_inv s'"
  using assms
proof (induction rule: sys_step.induct)
  case (step_thread s s')
  then show ?case by (auto elim!: run_stepE intro: sync_inv_thread)
next
  case (step_periodic t s)
  then show ?case by (intro sync_inv_goto) (auto simp: sync_kept.frame_refl)
next
  case (step_write x s)
  then show ?case by (simp add: sync_inv_def)
next
  case (step_request dr s h')
  then show ?case using keeps_run[OF keeps_issue_request step_request.hyps]
    by (simp add: sync_inv_def sync_kept_def)
next
  case (step_waiting s b h')
  then show ?case using keeps_run[OF keeps_check_waiting_round step_waiting.hyps]
    by (simp add: sync_inv_def sync_kept_def)
qed

lemma sync_inv_reachable:
  assumes "(sys_step R E)\<^sup>*\<^sup>* (sys_init R n h) s" "fresh_handler R h"
  shows "sync_inv s"
  using assms
proof (induction rule: rtranclp_induct)
  case base
  then show ?case by (simp add: sync_inv_def sys_init_def fresh_handler_def)
next
  case (step s s')
  then show ?case by (auto intro: sync_inv_step)
qed

text \<open>
  C1: along every interleaving of request threads, cleanups, new data and waiting requests, while
  a thread removes elements from the latency buffer no thread is inside a data request (whose
  fragment pieces point into the buffer), and no second thread is in a cleanup.
\<close>

theorem cleanup_excludes_requests:
  assumes "(sys_step R E)\<^sup>*\<^sup>* (sys_init R n h) s" "fresh_handler R h"
    and "t < length (sys_threads s)" "popping (sys_threads s ! t)"
    and "u < length (sys_threads s)" "u \<noteq> t"
  shows "\<not> inside (sys_threads s ! u) \<and> \<not> cleaning (sys_threads s ! u)"
proof -
  note inv = sync_inv_reachable[OF assms(1,2)]
  have mutex: "sys_cv_mutex s"
    using inv pc_count_pos[OF assms(3), of popping] assms(4) by (auto simp: sync_inv_def of_bool_def split: if_splits)
  then have "pc_count inside (sys_threads s) = 0" using inv by (simp add: sync_inv_def)
  then have "\<not> inside (sys_threads s ! u)" using assms(5) by (simp add: pc_count_zero)
  moreover have "\<not> cleaning (sys_threads s ! u)"
  proof
    assume c: "cleaning (sys_threads s ! u)"
    let ?ps = "(sys_threads s)[t := Idle]"
    have "pc_count cleaning ?ps = pc_count cleaning (sys_threads s) - 1"
      using assms(3,4) by (cases "sys_threads s ! t") (simp_all add: pc_count_update)
    moreover have "0 < pc_count cleaning ?ps"
      using c assms(5,6) by (intro pc_count_pos[of u]) auto
    ultimately show False using inv by (auto simp: sync_inv_def of_bool_def split: if_splits)
  qed
  ultimately show ?thesis ..
qed

section \<open>What happens to the elements\<close>

definition data_inv :: "('b, 'e) readout \<Rightarrow> ('b, 'e) sys \<Rightarrow> bool" where
  "data_inv R s \<longleftrightarrow>
     (let xs = lb_elements R (rh_latency_buffer (sys_h s)) in
      sys_written s = sys_popped s @ xs \<and> increasing R (sys_written s)
      \<and> set (rh_pop_list (sys_h s)) = get_timestamp R ` (set (sys_taken s) \<inter> set xs)
      \<and> set (sys_popped s) \<subseteq> set (sys_taken s) \<and> set (sys_taken s) \<subseteq> set (sys_written s)
      \<and> distinct (sys_taken s) \<and> (rh_cleanup_requested (sys_h s) \<longrightarrow> xs \<noteq> []))"

lemma data_inv_cong:
  assumes "data_inv R s" "sync_kept (sys_h s) (sys_h s')" "sys_written s' = sys_written s"
    and "sys_taken s' = sys_taken s" "sys_popped s' = sys_popped s"
  shows "data_inv R s'"
  using assms by (simp add: data_inv_def sync_kept_def)

lemma increasing_timestamp_eq:
  assumes "increasing R xs" "x \<in> set xs" "y \<in> set xs" "get_timestamp R x = get_timestamp R y"
  shows "x = y"
  using assms by (induction xs) (auto dest: less_imp_neq)

lemma data_inv_iter:
  assumes inv: "data_inv R s" and x: "x \<in> set (lb_elements R (rh_latency_buffer (sys_h s)))"
    and step: "piece_step R b x (rh_pop_list (sys_h s)) = (qs, pops)"
  shows "data_inv R ((goto t p ((sys_h s)\<lparr>rh_pop_list := pops\<rparr>) s)\<lparr>sys_taken := sys_taken s @ qs\<rparr>)"
proof (cases "qs = []")
  case True
  then have "pops = rh_pop_list (sys_h s)" using step by (auto simp: piece_step_def split: if_splits)
  then show ?thesis using inv True by (simp add: data_inv_def)
next
  case False
  then have q: "qs = [x]" "pops = sset_insert (get_timestamp R x) (rh_pop_list (sys_h s))"
      "get_timestamp R x \<notin> set (rh_pop_list (sys_h s))"
    using step by (auto simp: piece_step_def split: if_splits)
  then have "x \<notin> set (sys_taken s)" using inv x by (auto simp: data_inv_def Let_def)
  then show ?thesis using inv x q(1,2) by (auto simp: data_inv_def Let_def)
qed

lemma data_inv_pop:
  assumes fifo: "lb_fifo R" and inv: "data_inv R s"
    and step: "cleanup_iter R (rh_latency_buffer (sys_h s), rh_pop_list (sys_h s)) = Inr (Some (b, pops))"
  shows "data_inv R ((goto t p ((sys_h s)\<lparr>rh_latency_buffer := b, rh_pop_list := pops\<rparr>) s)
           \<lparr>sys_popped := sys_popped s @ take 1 (lb_elements R (rh_latency_buffer (sys_h s)))\<rparr>)"
proof -
  let ?xs = "lb_elements R (rh_latency_buffer (sys_h s))"
  obtain x y zs where xs: "?xs = x # y # zs" and b: "b = lb_pop R 1 (rh_latency_buffer (sys_h s))"
      and pops: "pops = sset_erase (get_timestamp R x) (rh_pop_list (sys_h s))"
      and mem: "get_timestamp R x \<in> set (rh_pop_list (sys_h s))"
    using step fifo by (cases ?xs rule: remdups_adj.cases)
      (auto simp: cleanup_iter_def fifo_rules split: if_splits)
  have inc: "increasing R (sys_written s)" and w: "sys_written s = sys_popped s @ ?xs"
    using inv by (auto simp: data_inv_def Let_def)
  have inc': "increasing R ?xs" using inc w by (simp add: sorted_wrt_append)
  obtain z where z: "z \<in> set (sys_taken s)" "z \<in> set ?xs" "get_timestamp R z = get_timestamp R x"
    using mem inv by (auto simp: data_inv_def Let_def)
  then have taken: "x \<in> set (sys_taken s)"
    using increasing_timestamp_eq[OF inc' z(2), of x] xs by simp
  have "get_timestamp R ` (set (sys_taken s) \<inter> set ?xs) - {get_timestamp R x}
      = get_timestamp R ` (set (sys_taken s) \<inter> set (y # zs))"
    using increasing_timestamp_eq[OF inc', of _ x] inc' xs by (fastforce simp: image_iff)
  then show ?thesis
    using inv taken w xs b pops fifo by (auto simp: data_inv_def Let_def fifo_pop)
qed

lemma data_inv_thread:
  assumes fifo: "lb_fifo R" and inv: "data_inv R s" and step: "thread_step R E t s = Some s'"
  shows "data_inv R s'"
proof (cases "sys_threads s ! t")
  case Idle
  then show ?thesis using step
    by (auto simp: thread_step_def req_pick_def Let_def run_action_def sync_kept_def
        intro!: data_inv_cong[OF inv] split: list.splits prod.splits)
next
  case (ReqEnter dr retry t0)
  then show ?thesis using inv step
    by (auto simp: thread_step_def req_enter_def Let_def data_inv_def split: if_splits)
next
  case (ReqStart dr retry t0)
  then show ?thesis using step
    by (auto simp: thread_step_def req_start_def Let_def intro!: data_inv_cong[OF inv]
        intro: data_request_quiet sync_kept.frame_refl split: if_splits)
next
  case (ReqIter dr retry t0 i ps)
  let ?xs = "lb_elements R (rh_latency_buffer (sys_h s))"
  show ?thesis
  proof (cases "i < length ?xs \<and> get_timestamp R (?xs ! i) \<le> dr_window_end dr")
    case True
    obtain qs pops where ps: "piece_step R (dr_window_begin dr) (?xs ! i) (rh_pop_list (sys_h s)) = (qs, pops)"
      by fastforce
    show ?thesis using step True ReqIter ps data_inv_iter[OF inv _ ps]
      by (auto simp: thread_step_def req_iter_def Let_def)
  next
    case False
    show ?thesis using step ReqIter run_action_kept[OF keeps_categorise]
      by (auto simp: thread_step_def req_iter_def Let_def if_not_P[OF False] intro!: data_inv_cong[OF inv])
  qed
next
  case (ReqLeave dr retry t0 r)
  then show ?thesis using inv step
    by (auto simp: thread_step_def req_leave_def Let_def data_inv_def split: if_splits)
next
  case (ReqRespond dr retry t0 r)
  then show ?thesis using step
    by (auto simp: thread_step_def req_respond_def intro!: data_inv_cong[OF inv]
        dest: run_action_kept[OF keeps_respond])
next
  case (Check k)
  then show ?thesis using inv step
    by (auto simp: thread_step_def cleanup_request_def Let_def data_inv_def split: if_splits)
next
  case (ClWait k)
  then show ?thesis using inv step
    by (auto simp: thread_step_def cleanup_begin_def Let_def data_inv_def split: if_splits)
next
  case (ClPop k n)
  then show ?thesis using step inv data_inv_pop[OF fifo inv]
    by (auto simp: thread_step_def cleanup_pop_def Let_def data_inv_def sync_kept_def
        dest: run_action_kept[OF keeps_cleanup_end] split: sum.splits option.splits)
next
  case (ReqFinish t0)
  then show ?thesis using step
    by (auto simp: thread_step_def req_finish_def intro!: data_inv_cong[OF inv]
        dest: run_action_kept[OF keeps_finish_request])
qed

lemma data_inv_step:
  assumes "sys_step R E s s'" "lb_fifo R" "data_inv R s"
  shows "data_inv R s'"
  using assms
proof (induction rule: sys_step.induct)
  case (step_thread s s')
  then show ?case by (blast elim: run_stepE intro: data_inv_thread)
next
  case (step_periodic t s)
  show ?case by (rule data_inv_cong[OF step_periodic.prems(2)]) (simp_all add: sync_kept.frame_refl)
next
  case (step_write x s)
  let ?xs = "lb_elements R (rh_latency_buffer (sys_h s))"
  have new: "x \<notin> set (sys_written s)" using step_write.hyps by (auto simp: list_all_iff)
  have "increasing R (sys_written s)" using step_write.prems(2) unfolding data_inv_def Let_def by blast
  then have inc: "increasing R (sys_written s @ [x])"
    using step_write.hyps by (simp add: list_all_iff sorted_wrt_append)
  have "set (sys_taken s) \<inter> set (?xs @ [x]) = set (sys_taken s) \<inter> set ?xs"
    using new step_write.prems by (auto simp: data_inv_def Let_def)
  moreover have "set (sys_taken s) \<subseteq> insert x (set (sys_popped s) \<union> set ?xs)"
    using step_write.prems(2) unfolding data_inv_def Let_def by auto
  ultimately show ?case using step_write.prems inc by (simp add: data_inv_def Let_def fifo_write)
next
  case (step_request dr s h')
  show ?case using keeps_run[OF keeps_issue_request step_request.hyps]
    by (intro data_inv_cong[OF step_request.prems(2)]) simp_all
next
  case (step_waiting s b h')
  show ?case using keeps_run[OF keeps_check_waiting_round step_waiting.hyps]
    by (intro data_inv_cong[OF step_waiting.prems(2)]) simp_all
qed

lemma data_inv_reachable:
  assumes "(sys_step R E)\<^sup>*\<^sup>* (sys_init R n h) s" "fresh_handler R h" "lb_fifo R"
  shows "data_inv R s"
  using assms
proof (induction rule: rtranclp_induct)
  case base
  then show ?case by (simp add: data_inv_def sys_init_def fresh_handler_def)
next
  case (step s s')
  then show ?case by (auto intro: data_inv_step)
qed

text \<open>
  C2: along every interleaving, the elements written are the popped ones followed by the ones in the
  buffer, so nothing is lost or reordered; every popped element has been taken by a data request, no
  element is taken twice, and the pop list marks exactly the taken elements still in the buffer.
\<close>

theorem elements_taken_once_before_popped:
  assumes "(sys_step R E)\<^sup>*\<^sup>* (sys_init R n h) s" "fresh_handler R h" "lb_fifo R"
  shows "let xs = lb_elements R (rh_latency_buffer (sys_h s))
         in sys_written s = sys_popped s @ xs \<and> set (sys_popped s) \<subseteq> set (sys_taken s)
            \<and> set (sys_taken s) \<subseteq> set (sys_written s) \<and> distinct (sys_taken s)
            \<and> set (rh_pop_list (sys_h s)) = get_timestamp R ` (set (sys_taken s) \<inter> set xs)"
  using data_inv_reachable[OF assms] unfolding data_inv_def Let_def by blast

section \<open>Progress\<close>

lemma run_action_Ret: "f h = (Ret x, h') \<Longrightarrow> run_action f h = Some (x, h')"
  by (simp add: run_action_def)

lemma run_action_eq_Some: "run_action f h = Some (x, h') \<longleftrightarrow> f h = (Ret x, h')"
  by (simp add: run_action_def split: prod.splits outcome.splits)

lemma data_request_returns: "lb_fifo R \<Longrightarrow> \<exists>r h'. run_action (data_request R dr) h = Some (r, h')"
proof (cases "lb_elements R (rh_latency_buffer h) = []")
  case True
  moreover assume "lb_fifo R"
  ultimately show ?thesis
    by (auto simp: run_action_def data_request_def empty_buffer_result_def fifo_occupancy)
next
  case False
  assume fifo: "lb_fifo R"
  obtain code where wc: "window_code R (dr_window_begin dr) (dr_window_end dr) h = (Ret code, h)"
    using run_window_code[OF fifo refl False] by auto
  obtain ps h1 where g: "get_fragment_pieces R (dr_window_begin dr) (dr_window_end dr) h = (Ret (ps, code), h1)"
    using run_get_fragment_pieces[OF fifo refl False wc] by (cases "code = kFound") auto
  obtain fh h2 where "categorise R code (create_fragment_header R h dr) h1 = (Ret fh, h2)"
    using run_categorise[of R code "create_fragment_header R h dr" h1] by auto
  then show ?thesis using g False fifo by (simp add: run_action_def data_request_def fifo_occupancy)
qed

lemma respond_returns: "\<exists>x h'. run_action (respond E dr retry r) h = Some (x, h')"
  by (auto simp: run_action_def respond_def)

lemma finish_request_returns: "\<exists>x h'. run_action (finish_request E t0) h = Some (x, h')"
  by (auto simp: run_action_def finish_request_def Let_def)

lemma cleanup_end_returns:
  "lb_fifo R \<Longrightarrow> lb_elements R (rh_latency_buffer h) \<noteq> [] \<Longrightarrow> \<exists>x h'. run_action (cleanup_end R n) h = Some (x, h')"
  by (simp add: run_action_def cleanup_end_def run_front_timestamp)

lemma cleanup_iter_defined:
  "lb_fifo R \<Longrightarrow> \<exists>x. cleanup_iter R (b, pops) = Inr x"
  by (cases "lb_elements R b") (auto simp: cleanup_iter_def fifo_rules)

text \<open>The steps that need no lock and no other thread.\<close>

lemma step_enabled_inside:
  assumes "lb_fifo R" "\<not> sys_cv_mutex s" "inside (sys_threads s ! t)"
  shows "\<exists>s'. thread_step R E t s = Some s'"
proof (cases "sys_threads s ! t")
  case (ReqStart dr retry t0)
  then show ?thesis using data_request_returns[OF assms(1), of dr "sys_h s"]
    by (auto simp: thread_step_def req_start_def Let_def)
next
  case (ReqIter dr retry t0 i ps)
  have "\<exists>x h'. run_action (categorise R kFound fh) h = Some (x, h')" for fh h
    by (simp add: categorise_def run_action_def)
  then show ?thesis using ReqIter
    by (fastforce simp: thread_step_def req_iter_def Let_def split: prod.split)
next
  case (ReqLeave dr retry t0 r)
  then show ?thesis using assms(2) by (simp add: thread_step_def req_leave_def Let_def)
qed (use assms(3) in simp_all)

lemma step_enabled_popping:
  assumes "lb_fifo R" "lb_elements R (rh_latency_buffer (sys_h s)) \<noteq> []" "popping (sys_threads s ! t)"
  shows "\<exists>s'. thread_step R E t s = Some s'"
proof -
  obtain k n where p: "sys_threads s ! t = ClPop k n" using assms(3) by (cases "sys_threads s ! t") auto
  obtain x where "cleanup_iter R (rh_latency_buffer (sys_h s), rh_pop_list (sys_h s)) = Inr x"
    using cleanup_iter_defined[OF assms(1)] by blast
  then show ?thesis using p cleanup_end_returns[OF assms(1,2)]
    by (cases x) (auto simp: thread_step_def cleanup_pop_def Let_def)
qed

lemma step_enabled_outside:
  assumes "\<not> sys_cv_mutex s" "rh_requests_running (sys_h s) = 0"
    and "rh_cleanup_requested (sys_h s) \<longrightarrow> cleaning (sys_threads s ! t)"
    and "sys_threads s ! t \<noteq> Idle \<or> rh_pool (sys_h s) \<noteq> []" "\<not> inside (sys_threads s ! t)" "\<not> popping (sys_threads s ! t)"
  shows "\<exists>s'. thread_step R E t s = Some s'"
proof (cases "sys_threads s ! t")
  case Idle
  then show ?thesis using assms(4)
    by (auto simp: thread_step_def req_pick_def Let_def run_action_def neq_Nil_conv)
next
  case (ReqEnter dr retry t0)
  then show ?thesis using assms(1,3) by (auto simp: thread_step_def req_enter_def Let_def)
next
  case (ReqRespond dr retry t0 r)
  then show ?thesis using respond_returns[of E dr retry r "sys_h s"] by (auto simp: thread_step_def req_respond_def)
next
  case (Check k)
  then show ?thesis using assms(1) by (auto simp: thread_step_def cleanup_request_def Let_def)
next
  case (ClWait k)
  then show ?thesis using assms(1,2) by (auto simp: thread_step_def cleanup_begin_def Let_def)
next
  case (ReqFinish t0)
  then show ?thesis using finish_request_returns[of E t0 "sys_h s"] by (auto simp: thread_step_def req_finish_def)
qed (use assms(5,6) in simp_all)

lemma some_thread_runs:
  assumes "lb_fifo R" "sync_inv s" "data_inv R s" "t < length (sys_threads s)"
    and "sys_threads s ! t \<noteq> Idle \<or> rh_pool (sys_h s) \<noteq> []"
  shows "\<exists>s'. run_step R E s s'"
proof -
  consider (pop) u where "u < length (sys_threads s)" "popping (sys_threads s ! u)"
    | (ins) u where "\<not> sys_cv_mutex s" "u < length (sys_threads s)" "inside (sys_threads s ! u)"
    | (out) "\<not> sys_cv_mutex s" "pc_count inside (sys_threads s) = 0" "pc_count popping (sys_threads s) = 0"
    using assms(2) pc_count_zero[of popping "sys_threads s"] pc_count_zero[of inside "sys_threads s"]
    by (auto simp: sync_inv_def of_bool_def split: if_splits)
  then show ?thesis
  proof cases
    case pop
    then have "0 < pc_count cleaning (sys_threads s)"
      by (intro pc_count_pos) (auto elim: popping.elims)
    then have "lb_elements R (rh_latency_buffer (sys_h s)) \<noteq> []"
      using assms(2,3) by (auto simp: sync_inv_def data_inv_def Let_def of_bool_def split: if_splits)
    then show ?thesis using step_enabled_popping[OF assms(1)] pop run_thread by metis
  next
    case ins
    then show ?thesis using step_enabled_inside[OF assms(1)] run_thread by metis
  next
    case out
    have zero: "rh_requests_running (sys_h s) = 0" using assms(2) out by (simp add: sync_inv_def)
    have quiet: "\<not> inside (sys_threads s ! u) \<and> \<not> popping (sys_threads s ! u)" if "u < length (sys_threads s)" for u
      using out that by (simp add: pc_count_zero)
    show ?thesis
    proof (cases "rh_cleanup_requested (sys_h s)")
      case True
      then obtain u where u: "u < length (sys_threads s)" "cleaning (sys_threads s ! u)"
        using assms(2) pc_count_zero[of cleaning "sys_threads s"] by (auto simp: sync_inv_def)
      then have "sys_threads s ! u \<noteq> Idle" by auto
      then show ?thesis
        using step_enabled_outside[OF out(1) zero, of u] u quiet[OF u(1)] run_thread by metis
    next
      case False
      then show ?thesis
        using step_enabled_outside[OF out(1) zero, of t] assms(4,5) quiet[OF assms(4)] run_thread by metis
    qed
  qed
qed

section \<open>Termination of the threads\<close>

lemma sum_list_map_update:
  fixes f :: "'a \<Rightarrow> 'b::comm_monoid_add"
  assumes "t < length ps"
  shows "sum_list (map f (ps[t := p])) + f (ps ! t) = sum_list (map f ps) + f p"
  using assms
proof (induction ps arbitrary: t)
  case (Cons q ps)
  show ?case
  proof (cases t)
    case 0
    then show ?thesis by (simp add: ac_simps)
  next
    case (Suc m)
    then show ?thesis using Cons.IH[of m] Cons.prems by (simp add: ac_simps)
  qed
qed simp

definition queues_kept :: "'b request_handler \<Rightarrow> 'b request_handler \<Rightarrow> bool" where
  "queues_kept h h' \<longleftrightarrow> rh_pool h' = rh_pool h \<and> rh_waiting_requests h' = rh_waiting_requests h"

interpretation queues_kept: frame_order queues_kept
  by unfold_locales (auto simp: queues_kept_def)

lemma queues_rh_log: "keeps queues_kept (rh_log e)"
  by (simp add: keeps_def queues_kept_def)

lemma queues_timestamps: "keeps queues_kept (front_timestamp R)" "keeps queues_kept (back_timestamp R)"
  by (auto simp: front_timestamp_def back_timestamp_def intro!: queues_kept.frame_rules split: option.split)

lemma queues_categorise: "keeps queues_kept (categorise R code fh)"
  by (cases code) (simp_all add: categorise_def keeps_def queues_kept_def)

lemma queues_finish_request: "keeps queues_kept (finish_request E t0)"
  by (auto simp: keeps_def queues_kept_def finish_request_def Let_def)

lemma queues_cleanup_end: "keeps queues_kept (cleanup_end R n)"
  unfolding cleanup_end_def
  by (intro queues_kept.frame_rules queues_timestamps queues_rh_log) (simp_all add: keeps_def queues_kept_def)

lemma queues_data_request: "keeps queues_kept (data_request R dr)"
proof -
  have "keeps queues_kept (empty_buffer_result R dr)"
    unfolding empty_buffer_result_def
    by (auto intro!: queues_kept.frame_rules queues_rh_log split: prod.split) (simp add: keeps_def queues_kept_def)
  moreover have "keeps queues_kept (get_fragment_pieces R b e)" for b e
    unfolding get_fragment_pieces_def window_code_def
    by (auto intro!: queues_kept.frame_rules queues_timestamps split: prod.split) (simp add: keeps_def queues_kept_def)
  ultimately show ?thesis
    unfolding data_request_def
    by (auto intro!: queues_kept.frame_rules queues_categorise split: prod.split)
qed

lemma run_action_queues: "keeps queues_kept f \<Longrightarrow> run_action f h = Some (x, h') \<Longrightarrow> queues_kept h h'"
  using keepsD[of queues_kept f h] by (auto simp: run_action_def split: prod.splits outcome.splits)

text \<open>The steps a thread has left at most, with \<open>n\<close> elements in the buffer.\<close>

fun pc_work :: "nat \<Rightarrow> 'e pc \<Rightarrow> nat" where
  "pc_work n Idle = 0"
| "pc_work n (ReqFinish t0) = 1"
| "pc_work n (ClPop k m) = 2 + n"
| "pc_work n (ClWait k) = 3 + n"
| "pc_work n (Check k) = 4 + n"
| "pc_work n (ReqRespond dr retry t0 r) = 5 + n"
| "pc_work n (ReqLeave dr retry t0 r) = 6 + n"
| "pc_work n (ReqIter dr retry t0 i ps) = 7 + n + (n - i)"
| "pc_work n (ReqStart dr retry t0) = 8 + 2 * n"
| "pc_work n (ReqEnter dr retry t0) = 9 + 2 * n"

definition sys_work :: "('b, 'e) readout \<Rightarrow> ('b, 'e) sys \<Rightarrow> nat" where
  "sys_work R s =
     (let n = length (lb_elements R (rh_latency_buffer (sys_h s)))
      in (\<Sum>p\<leftarrow>sys_threads s. pc_work n p) + (10 + 2 * n) * length (rh_pool (sys_h s)))"

lemma pc_work_mono: "m \<le> n \<Longrightarrow> pc_work m p \<le> pc_work n p"
  by (cases p) auto

lemma pc_work_after_check [simp]: "pc_work n (after_check k) < 4 + n" "pc_work n (after_check k) < Suc (Suc n)"
  by (simp_all add: after_check_def split: option.split)

lemma sys_work_goto:
  assumes "t < length (sys_threads s)" "sys_threads s' = (sys_threads s)[t := p]"
    and "rh_latency_buffer (sys_h s') = rh_latency_buffer (sys_h s)" "rh_pool (sys_h s') = rh_pool (sys_h s)"
    and "pc_work (length (lb_elements R (rh_latency_buffer (sys_h s)))) p
         < pc_work (length (lb_elements R (rh_latency_buffer (sys_h s)))) (sys_threads s ! t)"
  shows "sys_work R s' < sys_work R s"
  using sum_list_map_update[OF assms(1), of "pc_work (length (lb_elements R (rh_latency_buffer (sys_h s))))" p] assms
  by (simp add: sys_work_def Let_def)

lemma sys_work_pop:
  assumes "lb_fifo R" "t < length (sys_threads s)" "sys_threads s ! t = ClPop k n"
    and "cleanup_iter R (rh_latency_buffer (sys_h s), rh_pop_list (sys_h s)) = Inr (Some (b, pops))"
    and "sys_threads s' = (sys_threads s)[t := ClPop k m]" "rh_latency_buffer (sys_h s') = b"
    and "rh_pool (sys_h s') = rh_pool (sys_h s)"
  shows "sys_work R s' < sys_work R s"
proof -
  let ?n = "length (lb_elements R (rh_latency_buffer (sys_h s)))"
  have n: "length (lb_elements R b) = ?n - 1" "0 < ?n"
    using assms(1,4) by (auto simp: cleanup_iter_def fifo_rules split: if_splits option.splits)
  have "(\<Sum>p\<leftarrow>(sys_threads s)[t := ClPop k m]. pc_work (?n - 1) p) + pc_work (?n - 1) (ClPop k n)
      = (\<Sum>p\<leftarrow>sys_threads s. pc_work (?n - 1) p) + pc_work (?n - 1) (ClPop k m)"
    using sum_list_map_update[OF assms(2), of "pc_work (?n - 1)" "ClPop k m"] assms(3) by simp
  then have same: "(\<Sum>p\<leftarrow>(sys_threads s)[t := ClPop k m]. pc_work (?n - 1) p) = (\<Sum>p\<leftarrow>sys_threads s. pc_work (?n - 1) p)"
    by simp
  have "(\<Sum>p\<leftarrow>sys_threads s. pc_work (?n - 1) p) < (\<Sum>p\<leftarrow>sys_threads s. pc_work ?n p)"
  proof -
    have "(\<Sum>p\<leftarrow>(sys_threads s)[t := Idle]. pc_work (?n - 1) p) \<le> (\<Sum>p\<leftarrow>(sys_threads s)[t := Idle]. pc_work ?n p)"
      by (intro sum_list_mono pc_work_mono) simp
    then show ?thesis
      using n(2) sum_list_map_update[OF assms(2), of "pc_work (?n - 1)" Idle]
        sum_list_map_update[OF assms(2), of "pc_work ?n" Idle] assms(3) by simp
  qed
  moreover have "(10 + 2 * (?n - 1)) * length (rh_pool (sys_h s)) \<le> (10 + 2 * ?n) * length (rh_pool (sys_h s))"
    by (intro mult_le_mono1) simp
  ultimately have "(\<Sum>p\<leftarrow>sys_threads s. pc_work (?n - 1) p) + (10 + 2 * (?n - 1)) * length (rh_pool (sys_h s)) < sys_work R s"
    unfolding sys_work_def Let_def by (rule add_less_le_mono)
  then show ?thesis using same n(1) assms(5-7) by (simp add: sys_work_def[of R s'] Let_def)
qed

lemma thread_step_work:
  assumes fifo: "lb_fifo R" and t: "t < length (sys_threads s)" and step: "thread_step R E t s = Some s'"
  shows "sys_work R s' < sys_work R s"
proof (cases "sys_threads s ! t")
  case Idle
  let ?n = "length (lb_elements R (rh_latency_buffer (sys_h s)))"
  obtain dr retry rest t0 h' where p: "rh_pool (sys_h s) = (dr, retry) # rest"
      "s' = goto t (ReqEnter dr retry t0) (h'\<lparr>rh_pool := rest\<rparr>) s" "rh_latency_buffer h' = rh_latency_buffer (sys_h s)"
    using Idle step by (auto simp: thread_step_def req_pick_def Let_def run_action_def split: list.splits)
  then show ?thesis
    using sum_list_map_update[OF t, of "pc_work ?n" "ReqEnter dr retry t0"] Idle
    by (simp add: sys_work_def Let_def)
next
  case (ReqEnter dr retry t0)
  then show ?thesis using step
    by (auto simp: thread_step_def req_enter_def Let_def intro!: sys_work_goto[OF t] split: if_splits)
next
  case (ReqStart dr retry t0)
  then show ?thesis using step
    by (auto simp: thread_step_def req_start_def Let_def intro!: sys_work_goto[OF t]
        dest: data_request_quiet run_action_queues[OF queues_data_request]
        simp: sync_kept_def queues_kept_def split: if_splits)
next
  case (ReqIter dr retry t0 i ps)
  then show ?thesis using step
    by (auto simp: thread_step_def req_iter_def Let_def intro!: sys_work_goto[OF t]
        dest: run_action_kept[OF keeps_categorise] run_action_queues[OF queues_categorise]
        simp: sync_kept_def queues_kept_def split: if_splits prod.splits)
next
  case (ReqLeave dr retry t0 r)
  then show ?thesis using step
    by (auto simp: thread_step_def req_leave_def Let_def intro!: sys_work_goto[OF t] split: if_splits)
next
  case (ReqRespond dr retry t0 r)
  have "rh_pool h' = rh_pool (sys_h s)" if "run_action (respond E dr retry r) (sys_h s) = Some (x, h')" for x h'
    using that by (auto simp: respond_def run_action_def split: if_splits)
  then show ?thesis using step ReqRespond
    by (auto simp: thread_step_def req_respond_def intro!: sys_work_goto[OF t]
        dest: run_action_kept[OF keeps_respond] simp: sync_kept_def)
next
  case (Check k)
  then show ?thesis using step
    by (auto simp: thread_step_def cleanup_request_def Let_def intro!: sys_work_goto[OF t] split: if_splits)
next
  case (ClWait k)
  then show ?thesis using step
    by (auto simp: thread_step_def cleanup_begin_def Let_def intro!: sys_work_goto[OF t] split: if_splits)
next
  case (ClPop k n)
  show ?thesis
  proof (cases "\<exists>b pops. cleanup_iter R (rh_latency_buffer (sys_h s), rh_pop_list (sys_h s)) = Inr (Some (b, pops))")
    case True
    then obtain b pops where it: "cleanup_iter R (rh_latency_buffer (sys_h s), rh_pop_list (sys_h s)) = Inr (Some (b, pops))"
      by blast
    then show ?thesis using step ClPop
      by (auto simp: thread_step_def cleanup_pop_def Let_def intro!: sys_work_pop[OF fifo t ClPop it])
  next
    case False
    then show ?thesis using step ClPop
      by (auto simp: thread_step_def cleanup_pop_def Let_def intro!: sys_work_goto[OF t]
          dest: run_action_kept[OF keeps_cleanup_end] run_action_queues[OF queues_cleanup_end]
          simp: sync_kept_def queues_kept_def split: sum.splits option.splits)
  qed
next
  case (ReqFinish t0)
  then show ?thesis using step
    by (auto simp: thread_step_def req_finish_def intro!: sys_work_goto[OF t]
        dest: run_action_kept[OF keeps_finish_request] run_action_queues[OF queues_finish_request]
        simp: sync_kept_def queues_kept_def)
qed

lemma thread_step_length: "thread_step R E t s = Some s' \<Longrightarrow> length (sys_threads s') = length (sys_threads s)"
  by (cases "sys_threads s ! t")
    (auto simp: thread_step_def section_defs Let_def split: if_splits prod.splits sum.splits option.splits list.splits)

lemma sys_step_length: "sys_step R E s s' \<Longrightarrow> length (sys_threads s') = length (sys_threads s)"
  by (induction rule: sys_step.induct) (auto elim!: run_stepE dest: thread_step_length)

lemma reachable_length: "(sys_step R E)\<^sup>*\<^sup>* s s' \<Longrightarrow> length (sys_threads s') = length (sys_threads s)"
  by (induction rule: rtranclp_induct) (auto dest: sys_step_length)

lemma run_steps_sys_steps: "(run_step R E)\<^sup>*\<^sup>* s s' \<Longrightarrow> (sys_step R E)\<^sup>*\<^sup>* s s'"
  by (induction rule: rtranclp_induct) (auto intro: rtranclp.rtrancl_into_rtrancl step_thread)


section \<open>No request is lost\<close>

text \<open>The request a thread works on, until it answers or requeues it.\<close>

fun pc_request :: "'e pc \<Rightarrow> DataRequest multiset" where
  "pc_request (ReqEnter dr retry t0) = {#dr#}"
| "pc_request (ReqStart dr retry t0) = {#dr#}"
| "pc_request (ReqIter dr retry t0 i ps) = {#dr#}"
| "pc_request (ReqLeave dr retry t0 r) = {#dr#}"
| "pc_request (ReqRespond dr retry t0 r) = {#dr#}"
| "pc_request p = {#}"

definition pending :: "('b, 'e) sys \<Rightarrow> DataRequest multiset" where
  "pending s = mset (map fst (rh_pool (sys_h s))) + (\<Sum>p\<leftarrow>sys_threads s. pc_request p)
     + mset (map fst (rh_waiting_requests (sys_h s)))"

lemma pc_request_after_check [simp]: "pc_request (after_check k) = {#}"
  by (simp add: after_check_def split: option.split)

lemma pending_goto:
  assumes "t < length (sys_threads s)" "pc_request p = pc_request (sys_threads s ! t)" "queues_kept (sys_h s) h"
  shows "pending (goto t p h s) = pending s"
  using sum_list_map_update[OF assms(1), of pc_request p] assms
  by (simp add: pending_def queues_kept_def)

lemma pending_history [simp]:
  "pending (s\<lparr>sys_taken := xs\<rparr>) = pending s" "pending (s\<lparr>sys_popped := xs\<rparr>) = pending s"
  "pending (s\<lparr>sys_answers := ds\<rparr>) = pending s" "pending (s\<lparr>sys_cv_mutex := b\<rparr>) = pending s"
  by (simp_all add: pending_def)

lemma respond_pending:
  assumes "t < length (sys_threads s)" "sys_threads s ! t = ReqRespond dr retry t0 r"
    and "run_action (respond E dr retry r) (sys_h s) = Some (sent, h')" "pc_request p = {#}"
  shows "pending (goto t p h' s) + mset (if requeues (sys_h s) retry r then [] else [dr]) = pending s"
proof -
  have sum: "(\<Sum>q\<leftarrow>(sys_threads s)[t := p]. pc_request q) + {#dr#} = (\<Sum>q\<leftarrow>sys_threads s. pc_request q)"
    using sum_list_map_update[OF assms(1), of pc_request p] assms(2,4) by simp
  have "if requeues (sys_h s) retry r
      then rh_pool h' = rh_pool (sys_h s) \<and> (\<exists>u. rh_waiting_requests h' = rh_waiting_requests (sys_h s) @ [(dr, u)])
      else queues_kept (sys_h s) h'"
    using assms(3) by (auto simp: respond_def run_action_def requeues_def queues_kept_def split: if_splits)
  then show ?thesis
    unfolding pending_def sum[symmetric] by (auto simp: queues_kept_def ac_simps split: if_splits)
qed

lemma pending_thread:
  assumes t: "t < length (sys_threads s)" and step: "thread_step R E t s = Some s'"
  shows "pending s' + mset (sys_answers s') = pending s + mset (sys_answers s) \<and> sys_requests s' = sys_requests s"
proof (cases "sys_threads s ! t")
  case Idle
  obtain dr retry rest t0 h' where p: "rh_pool (sys_h s) = (dr, retry) # rest"
      "s' = goto t (ReqEnter dr retry t0) (h'\<lparr>rh_pool := rest\<rparr>) s"
      "rh_waiting_requests h' = rh_waiting_requests (sys_h s)"
    using Idle step by (auto simp: thread_step_def req_pick_def Let_def run_action_def split: list.splits)
  then show ?thesis
    using sum_list_map_update[OF t, of pc_request "ReqEnter dr retry t0"] Idle by (simp add: pending_def)
next
  case (ReqEnter dr retry t0)
  then show ?thesis using step pending_goto[OF t]
    by (auto simp: thread_step_def req_enter_def Let_def queues_kept_def split: if_splits)
next
  case (ReqStart dr retry t0)
  then show ?thesis using step pending_goto[OF t]
    by (auto simp: thread_step_def req_start_def Let_def queues_kept.frame_refl
        dest!: run_action_queues[OF queues_data_request] split: if_splits)
next
  case (ReqIter dr retry t0 i ps)
  then show ?thesis using step pending_goto[OF t]
    by (auto simp: thread_step_def req_iter_def Let_def queues_kept_def
        dest!: run_action_queues[OF queues_categorise] split: if_splits prod.splits)
next
  case (ReqLeave dr retry t0 r)
  then show ?thesis using step pending_goto[OF t]
    by (auto simp: thread_step_def req_leave_def Let_def queues_kept_def split: if_splits)
next
  case (ReqRespond dr retry t0 r)
  obtain sent h' where run: "run_action (respond E dr retry r) (sys_h s) = Some (sent, h')"
    using respond_returns by blast
  have "pending (goto t (if sent then Check (Some t0) else ReqFinish t0) h' s)
      + mset (if requeues (sys_h s) retry r then [] else [dr]) = pending s"
    by (rule respond_pending[OF t ReqRespond run]) simp
  then show ?thesis using step ReqRespond run
    by (auto simp: thread_step_def req_respond_def)
next
  case (Check k)
  then show ?thesis using step pending_goto[OF t]
    by (auto simp: thread_step_def cleanup_request_def Let_def queues_kept_def split: if_splits)
next
  case (ClWait k)
  then show ?thesis using step pending_goto[OF t]
    by (auto simp: thread_step_def cleanup_begin_def Let_def queues_kept_def split: if_splits)
next
  case (ClPop k n)
  then show ?thesis using step pending_goto[OF t]
    by (auto simp: thread_step_def cleanup_pop_def Let_def queues_kept_def
        dest!: run_action_queues[OF queues_cleanup_end] split: sum.splits option.splits)
next
  case (ReqFinish t0)
  then show ?thesis using step pending_goto[OF t]
    by (auto simp: thread_step_def req_finish_def dest!: run_action_queues[OF queues_finish_request])
qed

lemma waiting_round_pending:
  assumes "check_waiting_round R E h = (Ret b, h')"
  shows "mset (map fst (rh_pool h')) + mset (map fst (rh_waiting_requests h'))
       = mset (map fst (rh_pool h)) + mset (map fst (rh_waiting_requests h))"
proof (cases "rh_run_marker h \<and> rh_waiting_requests h \<noteq> []")
  case True
  let ?n = "newest_timestamp R (rh_latency_buffer h)"
  obtain kept issued h1 where p: "waiting_pass E ?n (rh_waiting_requests h) h = (Ret kept, h1)"
      "passed ?n (rh_waiting_requests h) h kept issued h1"
    using waiting_pass_run by blast
  then have "h' = h1\<lparr>rh_waiting_requests := kept\<rparr>" using assms True by (simp add: check_waiting_round_def)
  moreover have "mset (rh_waiting_requests h) = mset kept + mset issued"
    using p(2) by (auto simp: passed_def dest: mset_shuffles)
  ultimately show ?thesis using p(2) by (simp add: passed_def flip: mset_map) (simp add: comp_def)
next
  case False
  then show ?thesis using assms by (auto simp: check_waiting_round_def split: if_splits)
qed

lemma pending_step:
  assumes "sys_step R E s s'" "mset (sys_requests s) = pending s + mset (sys_answers s)"
  shows "mset (sys_requests s') = pending s' + mset (sys_answers s')"
  using assms
proof (induction rule: sys_step.induct)
  case (step_thread s s')
  then show ?case using pending_thread by (metis run_stepE)
next
  case (step_periodic t s)
  then show ?case by (simp add: pending_goto queues_kept.frame_refl)
next
  case (step_write x s)
  then show ?case by (simp add: pending_def)
next
  case (step_request dr s h')
  then show ?case by (auto simp: pending_def issue_request_def)
next
  case (step_waiting s b h')
  then show ?case using waiting_round_pending[OF step_waiting.hyps] by (simp add: pending_def ac_simps)
qed


section \<open>The small steps implement the data request\<close>

abbreviation alone :: "('b, 'e) readout \<Rightarrow> renv \<Rightarrow> nat \<Rightarrow> ('b, 'e) sys \<Rightarrow> ('b, 'e) sys \<Rightarrow> bool" where
  "alone R E t \<equiv> (\<lambda>s s'. thread_step R E t s = Some s')"

lemma create_fragment_header_pops [simp]:
  "create_fragment_header R (h\<lparr>rh_pop_list := pops\<rparr>) dr = create_fragment_header R h dr"
  by (simp add: create_fragment_header_def)

lemma iter_steps:
  assumes "t < length (sys_threads s)" "sys_threads s ! t = ReqIter dr retry t0 i ps"
    and "lb_elements R (rh_latency_buffer (sys_h s)) = xs"
    and "take_pieces R (dr_window_begin dr) (dr_window_end dr) (drop i xs) (rh_pop_list (sys_h s)) = (qs, pops)"
    and "categorise R kFound (create_fragment_header R (sys_h s) dr) ((sys_h s)\<lparr>rh_pop_list := pops\<rparr>) = (Ret fh, h')"
  shows "(alone R E t)\<^sup>*\<^sup>* s ((goto t (ReqLeave dr retry t0 (build_result R kFound dr (ps @ qs) fh)) h' s)
            \<lparr>sys_taken := sys_taken s @ qs\<rparr>)"
  using assms
proof (induction "length xs - i" arbitrary: i s ps qs)
  case (0 i s ps qs)
  then have q: "qs = []" "pops = rh_pop_list (sys_h s)" by simp_all
  have "thread_step R E t s = Some (goto t (ReqLeave dr retry t0 (build_result R kFound dr ps fh)) h' s)"
    using 0 q by (simp add: thread_step_def req_iter_def Let_def run_action_Ret)
  then show ?case using q by (simp add: goto_def r_into_rtranclp)
next
  case (Suc k i s ps qs)
  have i: "i < length xs" using Suc.hyps(2) by simp
  then have drop: "drop i xs = xs ! i # drop (Suc i) xs" by (simp add: Cons_nth_drop_Suc)
  show ?case
  proof (cases "get_timestamp R (xs ! i) \<le> dr_window_end dr")
    case False
    then have q: "qs = []" "pops = rh_pop_list (sys_h s)" using Suc.prems(4) drop by simp_all
    have "thread_step R E t s = Some (goto t (ReqLeave dr retry t0 (build_result R kFound dr ps fh)) h' s)"
      using Suc.prems q False by (simp add: thread_step_def req_iter_def Let_def run_action_Ret)
    then show ?thesis using q by (simp add: goto_def r_into_rtranclp)
  next
    case True
    obtain q1 p1 where p1: "piece_step R (dr_window_begin dr) (xs ! i) (rh_pop_list (sys_h s)) = (q1, p1)"
      by fastforce
    obtain q2 where q2: "take_pieces R (dr_window_begin dr) (dr_window_end dr) (drop (Suc i) xs) p1 = (q2, pops)"
        "qs = q1 @ q2"
      using Suc.prems(4) True p1 drop by (auto split: prod.splits)
    define s1 where "s1 = (goto t (ReqIter dr retry t0 (Suc i) (ps @ q1)) ((sys_h s)\<lparr>rh_pop_list := p1\<rparr>) s)
      \<lparr>sys_taken := sys_taken s @ q1\<rparr>"
    have "thread_step R E t s = Some s1"
      using Suc.prems(2,3) i True p1 by (simp add: thread_step_def req_iter_def Let_def s1_def)
    moreover have "(alone R E t)\<^sup>*\<^sup>* s1 ((goto t (ReqLeave dr retry t0 (build_result R kFound dr ((ps @ q1) @ q2) fh)) h' s1)
            \<lparr>sys_taken := sys_taken s1 @ q2\<rparr>)"
      using Suc.prems Suc.hyps(2) q2(1) by (intro Suc.hyps(1)) (simp_all add: s1_def)
    ultimately show ?thesis
      using q2(2) by (simp add: s1_def goto_def converse_rtranclp_into_rtranclp)
  qed
qed

text \<open>
  C6: the window loop that a request thread runs element by element, between which other threads may
  run, implements the data request: run without interference, the steps of the thread end with the
  result, the pop list and the counters of \<open>data_request\<close>.
\<close>

theorem request_steps_refine_data_request:
  assumes "lb_fifo R" "t < length (sys_threads s)" "sys_threads s ! t = ReqStart dr retry t0"
  shows "\<exists>r h' taken. data_request R dr (sys_h s) = (Ret r, h')
           \<and> (alone R E t)\<^sup>*\<^sup>* s ((goto t (ReqLeave dr retry t0 r) h' s)\<lparr>sys_taken := taken\<rparr>)"
proof -
  let ?h = "sys_h s" and ?xs = "lb_elements R (rh_latency_buffer (sys_h s))"
  obtain r h' where run: "data_request R dr ?h = (Ret r, h')"
    using data_request_returns[OF assms(1), of dr ?h] unfolding run_action_eq_Some by blast
  show ?thesis
  proof (cases "?xs \<noteq> [] \<and> fst (window_code R (dr_window_begin dr) (dr_window_end dr) ?h) = Ret kFound")
    case False
    then have "thread_step R E t s = Some (goto t (ReqLeave dr retry t0 r) h' s)"
      using assms run by (auto simp: thread_step_def req_start_def Let_def run_action_Ret fifo_occupancy)
    then have "(alone R E t)\<^sup>*\<^sup>* s ((goto t (ReqLeave dr retry t0 r) h' s)\<lparr>sys_taken := sys_taken s\<rparr>)"
      by (simp add: goto_def r_into_rtranclp)
    then show ?thesis using run by blast
  next
    case True
    then have wc: "window_code R (dr_window_begin dr) (dr_window_end dr) ?h = (Ret kFound, ?h)"
      using run_window_code[OF assms(1) refl, of ?h] by auto
    obtain qs pops where tp: "take_pieces R (dr_window_begin dr) (dr_window_end dr) ?xs (rh_pop_list ?h) = (qs, pops)"
      by fastforce
    obtain fh h2 where c: "categorise R kFound (create_fragment_header R ?h dr) (?h\<lparr>rh_pop_list := pops\<rparr>) = (Ret fh, h2)"
      using run_categorise by blast
    have res: "r = build_result R kFound dr qs fh" "h' = h2"
      using run run_get_fragment_pieces[OF assms(1) refl conjunct1[OF True] wc] tp c True assms(1)
      by (simp_all add: data_request_def fifo_occupancy)
    define s1 where "s1 = goto t (ReqIter dr retry t0 0 []) ?h s"
    have "thread_step R E t s = Some s1"
      using assms True by (simp add: thread_step_def req_start_def Let_def fifo_occupancy s1_def)
    moreover have "(alone R E t)\<^sup>*\<^sup>* s1 ((goto t (ReqLeave dr retry t0 (build_result R kFound dr ([] @ qs) fh)) h2 s1)
        \<lparr>sys_taken := sys_taken s1 @ qs\<rparr>)"
      using assms(2) tp c by (intro iter_steps[where xs = ?xs and pops = pops and i = 0]) (simp_all add: s1_def)
    ultimately have "(alone R E t)\<^sup>*\<^sup>* s ((goto t (ReqLeave dr retry t0 r) h' s)\<lparr>sys_taken := sys_taken s @ qs\<rparr>)"
      using res by (simp add: s1_def goto_def converse_rtranclp_into_rtranclp)
    then show ?thesis using run by blast
  qed
qed

section \<open>A run\<close>

text \<open>
  A handler with two threads and two elements, a request for the first of them, and the first thread
  carried through the request, the answer and the cleanup.
\<close>

definition sample_sys :: "((u64 \<times> byte list) list, u64 \<times> byte list) sys" where
  "sample_sys = sys_init list_readout 2 (sample_handler [(10, [1]), (20, [2])] [])"

fun run_threads :: "nat \<Rightarrow> ((u64 \<times> byte list) list, u64 \<times> byte list) sys \<Rightarrow> ((u64 \<times> byte list) list, u64 \<times> byte list) sys" where
  "run_threads 0 s = s"
| "run_threads (Suc n) s =
     (case thread_step list_readout sample_renv 0 s of None \<Rightarrow> s | Some s' \<Rightarrow> run_threads n s')"

definition sample_requested :: "((u64 \<times> byte list) list, u64 \<times> byte list) sys" where
  "sample_requested = sample_sys\<lparr>sys_h := snd (issue_request (sample_request 5 15) False (sys_h sample_sys)),
     sys_requests := [sample_request 5 15]\<rparr>"

lemma run_threads_reachable:
  "0 < length (sys_threads s) \<Longrightarrow> (sys_step list_readout sample_renv)\<^sup>*\<^sup>* s (run_threads n s)"
proof (induction n arbitrary: s)
  case (Suc n)
  show ?case
  proof (cases "thread_step list_readout sample_renv 0 s")
    case (Some s')
    then have "sys_step list_readout sample_renv s s'"
      using Suc.prems by (auto intro: step_thread run_thread)
    moreover have "(sys_step list_readout sample_renv)\<^sup>*\<^sup>* s' (run_threads n s')"
      using Suc.prems thread_step_length[OF Some] by (intro Suc.IH) simp
    ultimately show ?thesis using Some by (simp add: converse_rtranclp_into_rtranclp)
  qed simp
qed simp

lemma sample_fresh: "fresh_handler list_readout (sample_handler [(10, [1]), (20, [2])] [])"
  by (simp add: fresh_handler_def)

lemma sample_reachable:
  "(sys_step list_readout sample_renv)\<^sup>*\<^sup>*
     (sys_init list_readout 2 (sample_handler [(10, [1]), (20, [2])] [])) (run_threads n sample_requested)"
proof -
  have "sys_step list_readout sample_renv sample_sys sample_requested"
    unfolding sample_requested_def
    using step_request[where dr = "sample_request 5 15" and s = sample_sys and R = list_readout and E = sample_renv]
    by (simp add: issue_request_def sample_sys_def sys_init_def)
  moreover have "(sys_step list_readout sample_renv)\<^sup>*\<^sup>* sample_requested (run_threads n sample_requested)"
    by (rule run_threads_reachable) (simp add: sample_requested_def sample_sys_def sys_init_def)
  ultimately show ?thesis by (simp add: sample_sys_def converse_rtranclp_into_rtranclp)
qed

lemma sample_popping: "popping (sys_threads (run_threads 9 sample_requested) ! 0)"
    "length (sys_threads (run_threads 9 sample_requested)) = 2"
    "sys_threads (run_threads 2 sample_requested) ! 0 = ReqStart (sample_request 5 15) False 0"
    "length (sys_threads (run_threads 2 sample_requested)) = 2"
  by code_simp+

theorem cleanup_excludes_requests_witness:
  "popping (sys_threads (run_threads 9 sample_requested) ! 0)
   \<and> \<not> inside (sys_threads (run_threads 9 sample_requested) ! 1)"
  using cleanup_excludes_requests[OF sample_reachable[of 9] sample_fresh, of 0 1] sample_popping by simp

theorem elements_taken_once_before_popped_witness:
  "set (sys_popped (run_threads 12 sample_requested)) \<subseteq> set (sys_taken (run_threads 12 sample_requested))
   \<and> sys_popped (run_threads 12 sample_requested) = [(10, [1])]"
proof -
  have "sys_popped (run_threads 12 sample_requested) = [(10, [1])]" by code_simp
  then show ?thesis
    using elements_taken_once_before_popped[OF sample_reachable[of 12] sample_fresh list_readout_fifo]
    by (simp add: Let_def)
qed



theorem request_steps_refine_data_request_witness:
  "\<exists>r h' taken. data_request list_readout (sample_request 5 15) (sys_h (run_threads 2 sample_requested)) = (Ret r, h')
     \<and> (alone list_readout sample_renv 0)\<^sup>*\<^sup>* (run_threads 2 sample_requested)
         ((goto 0 (ReqLeave (sample_request 5 15) False 0 r) h' (run_threads 2 sample_requested))\<lparr>sys_taken := taken\<rparr>)"
  using sample_popping(4) by (intro request_steps_refine_data_request[OF list_readout_fifo _ sample_popping(3)]) simp

end
