(* ===== verification/Request_Coverage.thy ===== *)
theory Request_Coverage
  imports Request_Threads
begin

text \<open>
  What an answer of \<open>SNBRequestHandlerModel\<close> covers, along the interleavings of \<open>Request_Threads\<close>: an
  invariant of each thread's position says which part of its window has been scanned, and an answer
  with data leaves no element of its window behind.
\<close>

section \<open>What a thread has covered\<close>

text \<open>Some written element is not before the end of the window, and the elements the window asks for.\<close>

definition window_passed :: "('b, 'e) readout \<Rightarrow> DataRequest \<Rightarrow> 'e list \<Rightarrow> bool" where
  "window_passed R dr ws \<longleftrightarrow> list_ex (\<lambda>x. dr_window_end dr \<le> get_timestamp R x) ws"

definition wanted :: "('b, 'e) readout \<Rightarrow> DataRequest \<Rightarrow> 'e \<Rightarrow> bool" where
  "wanted R dr = in_window R (dr_window_begin dr) (dr_window_end dr) {}"

text \<open>The elements collected so far.\<close>

definition pieces_ok :: "('b, 'e) readout \<Rightarrow> DataRequest \<Rightarrow> 'e list \<Rightarrow> 'e list \<Rightarrow> bool" where
  "pieces_ok R dr taken ps \<longleftrightarrow> increasing R ps \<and> list_all (\<lambda>x. x \<in> set taken \<and> wanted R dr x) ps"

text \<open>An answer with data: its pieces, and that no element of its window is left.\<close>

definition answer_covered :: "('b, 'e) readout \<Rightarrow> ('b, 'e) sys \<Rightarrow> DataRequest \<Rightarrow> RequestResult \<Rightarrow> bool" where
  "answer_covered R s dr r \<longleftrightarrow>
     (rr_result_code r = kFound \<longrightarrow>
        window_passed R dr (sys_written s)
        \<and> list_all (\<lambda>x. wanted R dr x \<longrightarrow> x \<in> set (sys_taken s)) (sys_written s)
        \<and> (\<exists>ps. fr_pieces (rr_fragment r) = map (payload R) ps \<and> pieces_ok R dr (sys_taken s) ps))"

fun pc_covered :: "('b, 'e) readout \<Rightarrow> ('b, 'e) sys \<Rightarrow> 'e pc \<Rightarrow> bool" where
  "pc_covered R s (ReqIter dr retry t0 i ps) =
     (let xs = lb_elements R (rh_latency_buffer (sys_h s)) in
      window_passed R dr (sys_written s) \<and> pieces_ok R dr (sys_taken s) ps \<and> set ps \<subseteq> set (take i xs)
      \<and> list_all (\<lambda>x. wanted R dr x \<longrightarrow> x \<in> set (sys_taken s) \<or> x \<in> set (drop i xs)) (sys_written s))"
| "pc_covered R s (ReqLeave dr retry t0 r) = answer_covered R s dr r"
| "pc_covered R s (ReqRespond dr retry t0 r) = answer_covered R s dr r"
| "pc_covered R s p = True"

definition cover_inv :: "('b, 'e) readout \<Rightarrow> ('b, 'e) sys \<Rightarrow> bool" where
  "cover_inv R s \<longleftrightarrow> list_all (pc_covered R s) (sys_threads s)"

lemma not_wanted_later:
  assumes "window_passed R dr ws" "list_all (\<lambda>y. get_timestamp R y < get_timestamp R x) ws"
  shows "\<not> wanted R dr x"
proof -
  obtain y where "y \<in> set ws" "dr_window_end dr \<le> get_timestamp R y" using assms(1) by (auto simp: window_passed_def list_ex_iff)
  moreover have "get_timestamp R y < get_timestamp R x" using assms(2) calculation(1) by (simp add: list_all_iff)
  ultimately show ?thesis by (auto simp: wanted_def in_window_def)
qed

lemma window_passed_append: "window_passed R dr ws \<Longrightarrow> window_passed R dr (ws @ new)"
  by (simp add: window_passed_def)

lemma pieces_ok_mono: "pieces_ok R dr taken ps \<Longrightarrow> set taken \<subseteq> set taken' \<Longrightarrow> pieces_ok R dr taken' ps"
  by (auto simp: pieces_ok_def list_all_iff)

text \<open>What a thread has collected stays covered while others take elements and the producer writes.\<close>

definition sys_grows :: "('b, 'e) readout \<Rightarrow> ('b, 'e) sys \<Rightarrow> ('b, 'e) sys \<Rightarrow> 'e list \<Rightarrow> bool" where
  "sys_grows R s s' new \<longleftrightarrow> set (sys_taken s) \<subseteq> set (sys_taken s') \<and> sys_written s' = sys_written s @ new
     \<and> list_all (\<lambda>x. list_all (\<lambda>y. get_timestamp R y < get_timestamp R x) (sys_written s)) new"

lemma answer_covered_grows:
  assumes "answer_covered R s dr r" "sys_grows R s s' new"
  shows "answer_covered R s' dr r"
proof -
  have "\<not> wanted R dr x" if "x \<in> set new" "window_passed R dr (sys_written s)" for x
    using not_wanted_later[OF that(2), of x] assms(2) that(1) by (auto simp: sys_grows_def list_all_iff)
  then show ?thesis
    using assms window_passed_append pieces_ok_mono
    unfolding answer_covered_def sys_grows_def list_all_iff by (auto; blast)
qed

lemma pc_covered_grows:
  assumes "pc_covered R s p" "sys_grows R s s' new"
    and "inside p \<Longrightarrow> lb_elements R (rh_latency_buffer (sys_h s')) = lb_elements R (rh_latency_buffer (sys_h s)) @ new"
  shows "pc_covered R s' p"
proof (cases p)
  case (ReqIter dr retry t0 i ps)
  let ?xs = "lb_elements R (rh_latency_buffer (sys_h s))"
  have passed: "window_passed R dr (sys_written s)" using assms(1) ReqIter by (simp add: Let_def)
  have new: "\<not> wanted R dr x" if "x \<in> set new" for x
    using not_wanted_later[OF passed, of x] assms(2) that by (auto simp: sys_grows_def list_all_iff)
  have "set (take i ?xs) \<subseteq> set (take i (?xs @ new))" "set (drop i ?xs) \<subseteq> set (drop i (?xs @ new))" by auto
  moreover have "lb_elements R (rh_latency_buffer (sys_h s')) = ?xs @ new" using assms(3) ReqIter by simp
  moreover have "pieces_ok R dr (sys_taken s') ps"
    using assms(1,2) ReqIter by (auto simp: Let_def sys_grows_def intro: pieces_ok_mono)
  ultimately show ?thesis
    using assms(1,2) ReqIter new window_passed_append[OF passed, of new]
    by (simp add: Let_def sys_grows_def list_all_iff) blast
qed (use assms(1,2) answer_covered_grows in auto)

lemma cover_inv_goto:
  assumes "cover_inv R s" "sys_grows R s s' []" "sys_threads s' = (sys_threads s)[t := p]" "pc_covered R s' p"
    and "\<And>q. q \<in> set (sys_threads s) \<Longrightarrow> inside q \<Longrightarrow>
           lb_elements R (rh_latency_buffer (sys_h s')) = lb_elements R (rh_latency_buffer (sys_h s))"
  shows "cover_inv R s'"
proof -
  have "pc_covered R s' q" if "q \<in> set (sys_threads s)" for q
    using pc_covered_grows[of R s q s' "[]"] assms(1,2,5) that by (auto simp: cover_inv_def list_all_iff)
  then show ?thesis
    using assms(3,4) set_update_subset_insert[of "sys_threads s" t p] by (auto simp: cover_inv_def list_all_iff)
qed

section \<open>The steps of a request\<close>

lemma cover_iter:
  assumes inv: "data_inv R s" and cov: "pc_covered R s (ReqIter dr retry t0 i ps)"
    and i: "xs = lb_elements R (rh_latency_buffer (sys_h s))" "i < length xs" "get_timestamp R (xs ! i) \<le> dr_window_end dr"
    and step: "piece_step R (dr_window_begin dr) (xs ! i) (rh_pop_list (sys_h s)) = (qs, pops)"
  shows "pc_covered R ((goto t p ((sys_h s)\<lparr>rh_pop_list := pops\<rparr>) s)\<lparr>sys_taken := sys_taken s @ qs\<rparr>)
           (ReqIter dr retry t0 (Suc i) (ps @ qs))"
proof -
  let ?x = "xs ! i" and ?taken = "sys_taken s @ qs"
  have inc: "increasing R xs" and pops: "set (rh_pop_list (sys_h s)) = get_timestamp R ` (set (sys_taken s) \<inter> set xs)"
    using inv i(1) by (auto simp: data_inv_def Let_def sorted_wrt_append)
  have drop: "drop i xs = ?x # drop (Suc i) xs" using i(2) by (rule Cons_nth_drop_Suc[symmetric])
  have x: "?x \<in> set xs" using i(2) by simp
  have ps: "set ps \<subseteq> set (take i xs)" "pieces_ok R dr (sys_taken s) ps" "window_passed R dr (sys_written s)"
      "list_all (\<lambda>x. wanted R dr x \<longrightarrow> x \<in> set (sys_taken s) \<or> x \<in> set (drop i xs)) (sys_written s)"
    using cov i(1) by (simp_all add: Let_def)
  have earlier: "get_timestamp R y < get_timestamp R ?x" if "y \<in> set ps" for y
  proof -
    have "y \<in> set (take i xs)" using that ps(1) by blast
    then obtain j where "j < i" "y = xs ! j" using i(2) by (auto simp: in_set_conv_nth)
    then show ?thesis using inc i(2) by (simp add: sorted_wrt_iff_nth_less)
  qed
  have taken: "?x \<in> set (sys_taken s)" if "get_timestamp R ?x \<in> set (rh_pop_list (sys_h s))"
    using that pops increasing_timestamp_eq[OF inc _ x] by fastforce
  have x_done: "?x \<in> set ?taken" if "wanted R dr ?x"
    using that step taken by (auto simp: piece_step_def wanted_def in_window_def split: if_splits)
  have q: "qs = [] \<or> (qs = [?x] \<and> wanted R dr ?x)"
    using step i(3) by (auto simp: piece_step_def wanted_def in_window_def split: if_splits)
  have "pieces_ok R dr ?taken (ps @ qs)"
    using q ps(2) earlier by (auto simp: pieces_ok_def sorted_wrt_append list_all_iff)
  moreover have "set (ps @ qs) \<subseteq> set (take (Suc i) xs)"
    using q ps(1) i(2) by (auto simp: take_Suc_conv_app_nth)
  moreover have "list_all (\<lambda>x. wanted R dr x \<longrightarrow> x \<in> set ?taken \<or> x \<in> set (drop (Suc i) xs)) (sys_written s)"
    using ps(4) x_done unfolding drop list_all_iff by auto
  ultimately show ?thesis using ps(3) i(1) by (simp add: Let_def del: append_assoc)
qed

lemma request_without_window:
  assumes "lb_occupancy R (rh_latency_buffer h) = 0 \<or> fst (window_code R (dr_window_begin dr) (dr_window_end dr) h) \<noteq> Ret kFound"
    and "run_action (data_request R dr) h = Some (r, h')"
  shows "rr_result_code r \<noteq> kFound"
proof (cases "lb_occupancy R (rh_latency_buffer h) = 0")
  case True
  then show ?thesis using assms(2)
    by (auto simp: run_action_eq_Some data_request_def empty_buffer_result_def build_result_def seq_eq_Ret)
next
  case False
  obtain out h1 where wc: "window_code R (dr_window_begin dr) (dr_window_end dr) h = (out, h1)" by fastforce
  then show ?thesis
    using assms False
    by (cases out) (auto simp: run_action_eq_Some data_request_def get_fragment_pieces_def bind_eq_Ret build_result_def)
qed

lemma cover_start:
  assumes fifo: "lb_fifo R" and inv: "data_inv R s" and found: "lb_occupancy R (rh_latency_buffer (sys_h s)) \<noteq> 0"
    "fst (window_code R (dr_window_begin dr) (dr_window_end dr) (sys_h s)) = Ret kFound"
  shows "pc_covered R s (ReqIter dr retry t0 0 [])"
proof -
  let ?xs = "lb_elements R (rh_latency_buffer (sys_h s))"
  have ne: "?xs \<noteq> []" using found(1) fifo by (simp add: fifo_occupancy)
  have "dr_window_end dr \<le> get_timestamp R (last ?xs)"
    using found(2) run_window_code[OF fifo refl ne, of "dr_window_begin dr" "dr_window_end dr"]
    by (auto split: if_splits)
  moreover have "last ?xs \<in> set (sys_written s)" using inv ne by (auto simp: data_inv_def Let_def)
  ultimately have "window_passed R dr (sys_written s)" by (auto simp: window_passed_def list_ex_iff)
  moreover have "x \<in> set (sys_taken s) \<or> x \<in> set ?xs" if "x \<in> set (sys_written s)" for x
    using inv that by (auto simp: data_inv_def Let_def)
  ultimately show ?thesis by (simp add: Let_def pieces_ok_def list_all_iff)
qed

lemma cover_finished:
  assumes inv: "data_inv R s" and cov: "pc_covered R s (ReqIter dr retry t0 i ps)"
    and stop: "xs = lb_elements R (rh_latency_buffer (sys_h s))"
      "\<not> (i < length xs \<and> get_timestamp R (xs ! i) \<le> dr_window_end dr)"
  shows "answer_covered R s dr (build_result R kFound dr ps fh)"
proof -
  have inc: "increasing R xs" using inv stop(1) by (auto simp: data_inv_def Let_def sorted_wrt_append)
  have "\<not> wanted R dr x" if "x \<in> set (drop i xs)" for x
  proof -
    obtain j where j: "i \<le> j" "j < length xs" "x = xs ! j"
      using \<open>x \<in> set (drop i xs)\<close> by (auto simp: in_set_conv_nth) (metis le_add1 less_diff_conv add.commute)
    then have "dr_window_end dr < get_timestamp R (xs ! i)" using stop(2) by auto
    moreover have "get_timestamp R (xs ! i) \<le> get_timestamp R x"
      using inc j by (cases "i = j") (auto simp: sorted_wrt_iff_nth_less intro: less_imp_le)
    ultimately show ?thesis by (auto simp: wanted_def in_window_def)
  qed
  then show ?thesis
    using cov stop(1) by (auto simp: answer_covered_def build_result_def Let_def list_all_iff)
qed

lemma sys_grows_same: "sys_taken s' = sys_taken s @ qs \<Longrightarrow> sys_written s' = sys_written s \<Longrightarrow> sys_grows R s s' []"
  by (simp add: sys_grows_def)

text \<open>A step that moves one thread and keeps the shared data.\<close>

lemma cover_inv_quiet:
  assumes "cover_inv R s" "sync_kept (sys_h s) (sys_h s')" "sys_taken s' = sys_taken s" "sys_written s' = sys_written s"
    and "sys_threads s' = (sys_threads s)[t := p]" "pc_covered R s' p"
  shows "cover_inv R s'"
  using assms by (intro cover_inv_goto[OF assms(1) sys_grows_same[of _ _ "[]"] assms(5,6)]) (simp_all add: sync_kept_def)

lemma cover_inv_thread:
  assumes fifo: "lb_fifo R" and inv: "data_inv R s" "sync_inv s" "cover_inv R s"
    and t: "t < length (sys_threads s)" and step: "thread_step R E t s = Some s'"
  shows "cover_inv R s'"
proof -
  have p: "pc_covered R s (sys_threads s ! t)" using inv(3) t by (simp add: cover_inv_def list_all_length)
  have same: "answer_covered R s' dr r" if "answer_covered R s dr r" "sys_taken s' = sys_taken s" "sys_written s' = sys_written s" for dr r
    using answer_covered_grows[OF that(1) sys_grows_same[of _ _ "[]"]] that(2,3) by simp
  show ?thesis
  proof (cases "sys_threads s ! t")
    case Idle
    then show ?thesis using step
      by (auto simp: thread_step_def req_pick_def Let_def run_action_def sync_kept_def
          intro!: cover_inv_quiet[OF inv(3), of _ t] split: list.splits prod.splits)
  next
    case (ReqEnter dr retry t0)
    then show ?thesis using step
      by (auto simp: thread_step_def req_enter_def Let_def
          intro!: cover_inv_goto[OF inv(3) sys_grows_same[of _ _ "[]"], of _ t] split: if_splits)
  next
    case (ReqStart dr retry t0)
    let ?found = "lb_occupancy R (rh_latency_buffer (sys_h s)) \<noteq> 0
      \<and> fst (window_code R (dr_window_begin dr) (dr_window_end dr) (sys_h s)) = Ret kFound"
    show ?thesis
    proof (cases ?found)
      case True
      then have s': "s' = goto t (ReqIter dr retry t0 0 []) (sys_h s) s"
        using step ReqStart by (simp add: thread_step_def req_start_def Let_def)
      have "pc_covered R s' (ReqIter dr retry t0 0 [])"
        using cover_start[OF fifo inv(1) conjunct1[OF True] conjunct2[OF True], of retry t0] unfolding s' by (simp add: Let_def)
      then show ?thesis
        by (rule cover_inv_quiet[OF inv(3), where t = t, rotated 4]) (simp_all add: s' sync_kept.frame_refl)
    next
      case False
      then obtain r h' where r: "run_action (data_request R dr) (sys_h s) = Some (r, h')" "s' = goto t (ReqLeave dr retry t0 r) h' s"
        using step ReqStart by (auto simp: thread_step_def req_start_def Let_def)
      have "rr_result_code r \<noteq> kFound" "sync_kept (sys_h s) h'"
        using False request_without_window[OF _ r(1)] data_request_kept[OF _ r(1)] by auto
      then show ?thesis using r(2)
        by (intro cover_inv_quiet[OF inv(3), where t = t and p = "ReqLeave dr retry t0 r"]) (simp_all add: answer_covered_def)
    qed
  next
    case (ReqIter dr retry t0 i ps)
    let ?xs = "lb_elements R (rh_latency_buffer (sys_h s))"
    show ?thesis
    proof (cases "i < length ?xs \<and> get_timestamp R (?xs ! i) \<le> dr_window_end dr")
      case True
      obtain qs pops where ps: "piece_step R (dr_window_begin dr) (?xs ! i) (rh_pop_list (sys_h s)) = (qs, pops)"
        by fastforce
      have s': "s' = (goto t (ReqIter dr retry t0 (Suc i) (ps @ qs)) ((sys_h s)\<lparr>rh_pop_list := pops\<rparr>) s)\<lparr>sys_taken := sys_taken s @ qs\<rparr>"
        using step True ReqIter ps by (simp add: thread_step_def req_iter_def Let_def)
      have "pc_covered R s' (ReqIter dr retry t0 (Suc i) (ps @ qs))"
        unfolding s' using p ReqIter by (intro cover_iter[OF inv(1) _ refl conjunct1[OF True] conjunct2[OF True] ps]) simp
      then show ?thesis
        by (rule cover_inv_goto[OF inv(3) sys_grows_same[of _ _ qs], where t = t, rotated 3]) (simp_all add: s')
    next
      case False
      then obtain fh h' where c: "run_action (categorise R kFound (create_fragment_header R (sys_h s) dr)) (sys_h s) = Some (fh, h')"
          "s' = goto t (ReqLeave dr retry t0 (build_result R kFound dr ps fh)) h' s"
        using step ReqIter by (auto simp: thread_step_def req_iter_def Let_def if_not_P[OF False])
      have "answer_covered R s dr (build_result R kFound dr ps fh)"
        using p ReqIter cover_finished[OF inv(1) _ refl False] by simp
      then show ?thesis
        using c(2) same run_action_kept[OF keeps_categorise c(1)]
        by (intro cover_inv_quiet[OF inv(3), where t = t and p = "ReqLeave dr retry t0 (build_result R kFound dr ps fh)"]) simp_all
    qed
  next
    case (ReqLeave dr retry t0 r)
    then have "answer_covered R s dr r" using p by simp
    then show ?thesis using step same ReqLeave
      by (auto simp: thread_step_def req_leave_def Let_def
          intro!: cover_inv_goto[OF inv(3) sys_grows_same[of _ _ "[]"], of _ t] split: if_splits)
  next
    case (ReqRespond dr retry t0 r)
    then show ?thesis using step
      by (auto simp: thread_step_def req_respond_def intro!: cover_inv_quiet[OF inv(3), of _ t]
          dest: run_action_kept[OF keeps_respond])
  next
    case (Check k)
    then show ?thesis using step
      by (auto simp: thread_step_def cleanup_request_def Let_def after_check_def
          intro!: cover_inv_goto[OF inv(3) sys_grows_same[of _ _ "[]"], of _ t] split: if_splits option.splits)
  next
    case (ClWait k)
    then show ?thesis using step
      by (auto simp: thread_step_def cleanup_begin_def Let_def
          intro!: cover_inv_goto[OF inv(3) sys_grows_same[of _ _ "[]"], of _ t] split: if_splits)
  next
    case (ClPop k n)
    have "sys_cv_mutex s" using inv(2) pc_count_pos[OF t, of popping] ClPop by (auto simp: sync_inv_def of_bool_def split: if_splits)
    then have "\<not> inside q" if "q \<in> set (sys_threads s)" for q
      using inv(2) that by (auto simp: sync_inv_def pc_count_zero in_set_conv_nth)
    then show ?thesis using step ClPop
      by (auto simp: thread_step_def cleanup_pop_def Let_def after_check_def
          intro!: cover_inv_goto[OF inv(3) sys_grows_same[of _ _ "[]"], of _ t] split: sum.splits option.splits)
  next
    case (ReqFinish t0)
    then show ?thesis using step
      by (auto simp: thread_step_def req_finish_def intro!: cover_inv_quiet[OF inv(3), of _ t]
          dest: run_action_kept[OF keeps_finish_request])
  qed
qed

section \<open>Every step\<close>

lemma thread_step_grows:
  "thread_step R E t s = Some s' \<Longrightarrow> sys_grows R s s' []"
  by (cases "sys_threads s ! t")
    (auto simp: thread_step_def section_defs Let_def sys_grows_def split: if_splits prod.splits list.splits sum.splits option.splits)

lemma sys_step_grows:
  assumes "sys_step R E s s'"
  shows "\<exists>new. sys_grows R s s' new"
  using assms
proof (induction rule: sys_step.induct)
  case (step_thread s s')
  then show ?case by (blast elim: run_stepE intro: thread_step_grows)
next
  case (step_write x s)
  then show ?case by (intro exI[of _ "[x]"]) (simp add: sys_grows_def)
qed (intro exI[of _ "[]"], simp add: sys_grows_def)+

lemma cover_inv_step:
  assumes "sys_step R E s s'" "lb_fifo R" "data_inv R s" "sync_inv s" "cover_inv R s"
  shows "cover_inv R s'"
  using assms
proof (induction rule: sys_step.induct)
  case (step_thread s s')
  then show ?case by (blast elim: run_stepE intro: cover_inv_thread)
next
  case (step_periodic t s)
  show ?case by (rule cover_inv_quiet[OF step_periodic.prems(4), where t = t and p = "Check None"])
    (simp_all add: sync_kept.frame_refl)
next
  case (step_write x s)
  let ?s = "s\<lparr>sys_h := (sys_h s)\<lparr>rh_latency_buffer := lb_write R x (rh_latency_buffer (sys_h s))\<rparr>, sys_written := sys_written s @ [x]\<rparr>"
  have "sys_grows R s ?s [x]" using step_write.hyps by (simp add: sys_grows_def)
  then have "pc_covered R ?s p" if "pc_covered R s p" for p
    by (rule pc_covered_grows[OF that]) (simp add: fifo_write[OF step_write.prems(1)])
  then show ?case using step_write.prems(4) by (simp add: cover_inv_def list_all_iff)
next
  case (step_request dr s h')
  have "pc_covered R (s\<lparr>sys_h := h', sys_requests := sys_requests s @ [dr]\<rparr>) p" if "pc_covered R s p" for p
    using keeps_run[OF keeps_issue_request step_request.hyps]
    by (intro pc_covered_grows[OF that sys_grows_same[of _ _ "[]"]]) (simp_all add: sync_kept_def)
  then show ?case using step_request.prems(4) by (simp add: cover_inv_def list_all_iff)
next
  case (step_waiting s b h')
  have "pc_covered R (s\<lparr>sys_h := h'\<rparr>) p" if "pc_covered R s p" for p
    using keeps_run[OF keeps_check_waiting_round step_waiting.hyps]
    by (intro pc_covered_grows[OF that sys_grows_same[of _ _ "[]"]]) (simp_all add: sync_kept_def)
  then show ?case using step_waiting.prems(4) by (simp add: cover_inv_def list_all_iff)
qed

lemma cover_inv_reachable:
  assumes "(sys_step R E)\<^sup>*\<^sup>* (sys_init R n h) s" "fresh_handler R h" "lb_fifo R"
  shows "cover_inv R s"
  using assms
proof (induction rule: rtranclp_induct)
  case base
  then show ?case by (simp add: cover_inv_def sys_init_def list_all_iff)
next
  case (step s s')
  then show ?case using data_inv_reachable[OF step.hyps(1)] sync_inv_reachable[OF step.hyps(1)] by (blast intro: cover_inv_step)
qed

lemma covered_later:
  assumes "(sys_step R E)\<^sup>*\<^sup>* s s'" "answer_covered R s dr r"
  shows "answer_covered R s' dr r"
  using assms(1)
proof (induction rule: rtranclp_induct)
  case (step u v)
  then show ?case using sys_step_grows answer_covered_grows by blast
qed (rule assms(2))

section \<open>Properties\<close>



end
