(* ===== verification/Data_Handling.thy ===== *)
theory Data_Handling
  imports Request_Handler "HOL-Library.Multiset"
begin

text \<open>
  \<open>include/snbmodules/readout/SNBDataHandlingModel.hpp\<close> and \<open>detail/SNBDataHandlingModel.hxx\<close>: the
  producer side of the readout. Payloads go through the raw data processor into the latency buffer it
  shares with the request handler; a scheduler post-processes them with a delay; a timesync thread
  announces the data time; data requests are dispatched to the request handler. The processor and
  the remaining operations of the latency buffer are parameters. The loops of the threads are
  modelled by their bodies, with the local variables of the loop as a record.
\<close>

section \<open>Data of the other packages\<close>

text \<open>
  Beyond \<open>readout\<close>: the fallible insertions of the two kinds of buffer (\<open>write\<close> and
  \<open>write_and_return\<close>, which returns the stored element), \<open>lower_bound\<close> as a position in
  \<open>lb_elements\<close>, and the processor, whose \<open>preprocess_item\<close> may change the payload.
\<close>

record ('b, 'e, 'p) handling = "('b, 'e) readout" +
  lb_expects_order :: bool
  lb_is_full :: "'b \<Rightarrow> bool"
  lb_try_write :: "'e \<Rightarrow> 'b \<Rightarrow> 'b \<times> bool"
  lb_write_and_return :: "'e \<Rightarrow> 'b \<Rightarrow> 'b \<times> 'e \<times> bool"
  lb_lower_bound :: "'b \<Rightarrow> u64 \<Rightarrow> nat"
  lb_flush :: "'b \<Rightarrow> 'b"
  lb_scrap :: "'b \<Rightarrow> 'b"
  rp_preprocess :: "'e \<Rightarrow> 'p \<Rightarrow> 'e \<times> 'p"
  rp_postprocess :: "'e \<Rightarrow> 'p \<Rightarrow> 'p"
  rp_last_daq_time :: "'p \<Rightarrow> u64"
  rp_reset_last_daq_time :: "'p \<Rightarrow> 'p"
  rp_start :: "'p \<Rightarrow> 'p"
  rp_stop :: "'p \<Rightarrow> 'p"
  rp_scrap :: "'p \<Rightarrow> 'p"
  rh_cutoff :: "u64 option"
  default_request :: DataRequest

text \<open>
  What the code relies on of the buffer: it is in time order, \<open>lower_bound\<close> finds the first element
  not before a time, popping removes from the front, and a flush removes all. An insertion adds
  its element, at the back for a queue that expects ordered data, or leaves the elements alone.
\<close>

definition lb_ordered :: "('b, 'e, 'p) handling \<Rightarrow> bool" where
  "lb_ordered R \<longleftrightarrow>
     (\<forall>b. lb_occupancy R b = length (lb_elements R b)
        \<and> lb_front R b = (if lb_elements R b = [] then None else Some (hd (lb_elements R b)))
        \<and> lb_back R b = (if lb_elements R b = [] then None else Some (last (lb_elements R b)))
        \<and> sorted (map (get_timestamp R) (lb_elements R b))
        \<and> (\<forall>ts. lb_lower_bound R b ts = length (takeWhile (\<lambda>x. get_timestamp R x < ts) (lb_elements R b)))
        \<and> (\<forall>n. lb_elements R (lb_pop R n b) = drop n (lb_elements R b))
        \<and> lb_elements R (lb_flush R b) = [])"

definition lb_inserts :: "('b, 'e, 'p) handling \<Rightarrow> bool" where
  "lb_inserts R \<longleftrightarrow>
     (if lb_expects_order R
      then \<forall>x b b' ok. lb_try_write R x b = (b', ok)
             \<longrightarrow> lb_elements R b' = lb_elements R b @ (if ok then [x] else []) \<and> (ok \<longrightarrow> lb_back R b' = Some x)
      else \<forall>x b b' y ok. lb_write_and_return R x b = (b', y, ok)
             \<longrightarrow> y = x \<and> mset (lb_elements R b') = (if ok then add_mset x else id) (mset (lb_elements R b)))"

text \<open>The part of the parameters the request handler sees.\<close>

abbreviation rh_readout :: "('b, 'e, 'p) handling \<Rightarrow> ('b, 'e) readout" where
  "rh_readout R \<equiv> readout.truncate R"

record TimeSync =
  tsy_daq_time :: u64
  tsy_run_number :: u32
  tsy_sequence_number :: u64
  tsy_source_id :: u32

datatype dissue =
    ConfigurationError "u16 \<times> u32" string
  | DataPacketArrivedTooLate "u16 \<times> u32" u32 u64 u64 i64
  | TimeSyncTransmissionFailed "u16 \<times> u32" string
  | RequestSourceIDMismatch "u16 \<times> u32" "u16 \<times> u32"
  | NonZeroLatencyBufferInsertFailures "u16 \<times> u32" u64 u64

record DataHandlerInfo =
  di_sum_payloads :: u64
  di_num_payloads :: u64
  di_num_data_input_timeouts :: u64
  di_num_lb_insert_failures :: u64
  di_sum_requests :: u64
  di_num_requests :: u64
  di_num_post_processing_delay_max_waits :: u64
  di_last_daq_timestamp :: u64
  di_newest_timestamp :: u64
  di_oldest_timestamp :: u64

datatype devent =
    DWarn dissue
  | DError dissue
  | DClock int
  | DTimeSync TimeSync bool
  | DAddCallback string
  | DRemoveCallback string
  | DRegisterCallback string
  | DPublish DataHandlerInfo

type_synonym dtrace = "devent list"

text \<open>
  The system clock in nanoseconds, which connections exist, whether a timesync is sent or its
  sender throws an issue, and whether the baton is posted before the wait of the scheduler times out.
\<close>

record denv =
  system_ns :: "dtrace \<Rightarrow> int"
  connects :: "string \<Rightarrow> bool"
  send_timesync :: "dtrace \<Rightarrow> TimeSync \<Rightarrow> bool"
  baton_posted :: "dtrace \<Rightarrow> bool"

section \<open>State\<close>

text \<open>
  The request handler holds the shared latency buffer. The counters have the types of a metric of
  another package and are taken as 64 bits.
\<close>

record ('b, 'p) data_handling =
  dh_handler :: "'b request_handler"
  dh_processor :: 'p
  dh_run_marker :: bool
  dh_fake_trigger :: bool
  dh_generate_timesync :: bool
  dh_current_fake_trigger_id :: i32
  dh_sourceid :: "u16 \<times> u32"
  dh_run_number :: u32
  dh_processing_delay_ticks :: u64
  dh_post_processing_delay_min_wait :: u64
  dh_post_processing_delay_max_wait :: u64
  dh_supports_cutoff :: bool
  dh_request_receiver :: "string option"
  dh_timesync_connection_name :: string
  dh_baton :: bool
  dh_timekeeper :: bool
  dh_raw_data_callback_conf :: string
  dh_num_payloads :: u64
  dh_sum_payloads :: u64
  dh_num_requests :: u64
  dh_sum_requests :: u64
  dh_rawq_timeout_count :: u64
  dh_num_lb_insert_failures :: u64
  dh_num_post_processing_delay_max_waits :: u64
  dh_stats_packet_count :: i32
  dh_trace :: dtrace

type_synonym ('b, 'p, 'a) dh_action = "(('b, 'p) data_handling, 'a) action"

definition dh_log :: "devent \<Rightarrow> ('b, 'p, unit) dh_action" where
  "dh_log e = modifies (\<lambda>d. d\<lparr>dh_trace := dh_trace d @ [e]\<rparr>)"

definition dh_now :: "denv \<Rightarrow> ('b, 'p, int) dh_action" where
  "dh_now E = bind (reads (\<lambda>d. system_ns E (dh_trace d))) (\<lambda>t. seq (dh_log (DClock t)) (return t))"

definition on_handler :: "('b, 'a) rh_action \<Rightarrow> ('b, 'p, 'a) dh_action" where
  "on_handler = focus dh_handler (\<lambda>h d. d\<lparr>dh_handler := h\<rparr>)"

definition dh_buffer :: "('b, 'p) data_handling \<Rightarrow> 'b" where
  "dh_buffer d = rh_latency_buffer (dh_handler d)"

definition set_buffer :: "'b \<Rightarrow> ('b, 'p) data_handling \<Rightarrow> ('b, 'p) data_handling" where
  "set_buffer b d = d\<lparr>dh_handler := (dh_handler d)\<lparr>rh_latency_buffer := b\<rparr>\<rparr>"

section \<open>Commands\<close>

record input_conf =
  in_data_type :: string
  in_uid :: string

record data_conf = handler_conf +
  dc_inputs :: "input_conf list"
  dc_delay_ticks :: u64
  dc_delay_min_wait :: u64
  dc_delay_max_wait :: u64
  dc_buffer_allocates :: bool
  dc_raw_data_callback :: string

definition init_inputs :: "denv \<Rightarrow> input_conf list \<Rightarrow> ('b, 'p, unit) dh_action" where
  "init_inputs E = for_each (\<lambda>input.
     if in_data_type input = ''DataRequest'' then
       if connects E (in_uid input) then modifies (\<lambda>d. d\<lparr>dh_request_receiver := Some (in_uid input)\<rparr>)
       else throw (ErsIssue ''ResourceQueueError'')
     else return ())"

definition init_outputs :: "denv \<Rightarrow> output_conf list \<Rightarrow> ('b, 'p, unit) dh_action" where
  "init_outputs E outputs =
     (case List.find (\<lambda>out. out_data_type out = ''TimeSync'') outputs of
        None \<Rightarrow> return ()
      | Some out \<Rightarrow>
          seq (modifies (\<lambda>d. d\<lparr>dh_generate_timesync := True\<rparr>))
          (if connects E (out_uid out) then modifies (\<lambda>d. d\<lparr>dh_timesync_connection_name := out_uid out\<rparr>)
           else throw (ErsIssue ''ResourceQueueError'')))"

text \<open>
  \<open>new_buffer\<close> and \<open>new_processor\<close> are the constructed and configured objects, \<open>junk\<close> is the memory of the
  new request handler.
\<close>

definition dh_init ::
  "denv \<Rightarrow> ('b, 'e, 'p) handling \<Rightarrow> 'b \<Rightarrow> 'p \<Rightarrow> 'b request_handler \<Rightarrow> data_conf \<Rightarrow> ('b, 'p, unit) dh_action" where
  "dh_init E R new_buffer new_processor junk c =
     seq (init_inputs E (dc_inputs c))
     (seq (init_outputs E (hc_outputs c))
     (seq (modifies (\<lambda>d. d\<lparr>dh_raw_data_callback_conf := dc_raw_data_callback c,
             dh_processor := new_processor, dh_handler := new_handler new_buffer junk,
             dh_supports_cutoff := rh_cutoff R \<noteq> None, dh_fake_trigger := False,
             dh_sourceid := (subsystem R, hc_source_id c),
             dh_processing_delay_ticks := dc_delay_ticks c,
             dh_post_processing_delay_min_wait := dc_delay_min_wait c,
             dh_post_processing_delay_max_wait := dc_delay_max_wait c\<rparr>))
     (bind (reads dh_sourceid) (\<lambda>sid.
      seq (if dc_delay_ticks c \<noteq> 0 \<and> lb_expects_order R
           then dh_log (DError (ConfigurationError sid ''Queue buffers (FixedRateQueue, BinarySearchQueue) expect in-order data and must use post_processing_delay_ticks = 0.''))
           else return ())
      (seq (if \<not> dc_buffer_allocates c
            then dh_log (DError (ConfigurationError sid ''Latency Buffer can't be allocated with size!''))
            else return ())
      (on_handler (rh_conf (rh_readout R) (handler_conf.truncate c))))))))"

definition dh_conf :: "('b, 'p, unit) dh_action" where
  "dh_conf =
     seq (bind (reads dh_raw_data_callback_conf) (\<lambda>c. dh_log (DRegisterCallback c)))
     (modifies (\<lambda>d. if dh_processing_delay_ticks d \<noteq> 0 then d\<lparr>dh_timekeeper := True\<rparr> else d))"

definition dh_scrap :: "('b, 'e, 'p) handling \<Rightarrow> ('b, 'p, unit) dh_action" where
  "dh_scrap R =
     seq (on_handler rh_scrap)
     (modifies (\<lambda>d. (set_buffer (lb_scrap R (dh_buffer d)) d)\<lparr>dh_processor := rp_scrap R (dh_processor d)\<rparr>))"

definition dh_start :: "renv \<Rightarrow> ('b, 'e, 'p) handling \<Rightarrow> u32 option \<Rightarrow> ('b, 'p, unit) dh_action" where
  "dh_start E R run =
     seq (modifies (\<lambda>d. d\<lparr>dh_sum_payloads := 0, dh_num_payloads := 0, dh_sum_requests := 0,
            dh_num_requests := 0, dh_num_lb_insert_failures := 0, dh_stats_packet_count := 0,
            dh_rawq_timeout_count := 0, dh_num_post_processing_delay_max_waits := 0,
            dh_run_number := (case run of Some n \<Rightarrow> n | None \<Rightarrow> 1),
            dh_processor := rp_start R (dh_processor d)\<rparr>))
     (seq (on_handler (rh_start E))
     (bind (reads dh_request_receiver) (\<lambda>r. case r of
         None \<Rightarrow> throw (UndefinedBehaviour ''m_data_request_receiver'')
       | Some uid \<Rightarrow> dh_log (DAddCallback uid))))"

text \<open>What \<open>stop\<close> changes; in between it waits for the two threads to end.\<close>

definition dh_stop :: "('b, 'e, 'p) handling \<Rightarrow> ('b, 'p, unit) dh_action" where
  "dh_stop R =
     bind (reads dh_request_receiver) (\<lambda>r. case r of
       None \<Rightarrow> throw (UndefinedBehaviour ''m_data_request_receiver'')
     | Some uid \<Rightarrow>
         seq (dh_log (DRemoveCallback uid))
         (seq (on_handler rh_stop)
         (seq (modifies (\<lambda>d. if dh_processing_delay_ticks d \<noteq> 0 then d\<lparr>dh_baton := True\<rparr> else d))
         (modifies (\<lambda>d. (set_buffer (lb_flush R (dh_buffer d)) d)
            \<lparr>dh_processor := rp_reset_last_daq_time R (rp_stop R (dh_processor d))\<rparr>)))))"

definition dh_record :: "('b, 'p, unit) dh_action" where
  "dh_record = on_handler rh_record"

section \<open>Payloads\<close>

text \<open>
  The loop that waits for room in the buffer: other threads change the buffer while this one sleeps,
  \<open>others i\<close> is what they do during the \<open>i\<close>-th sleep. Waiting forever is \<open>None\<close>.
\<close>

partial_function (option) wait_not_full :: "('b \<Rightarrow> bool) \<Rightarrow> (nat \<Rightarrow> 'b \<Rightarrow> 'b) \<Rightarrow> nat \<Rightarrow> 'b \<Rightarrow> 'b option" where
  "wait_not_full full others i b = (if full b then wait_not_full full others (Suc i) (others i b) else Some b)"

definition warn_too_late :: "('b, 'e, 'p) handling \<Rightarrow> 'e \<Rightarrow> ('b, 'p, unit) dh_action" where
  "warn_too_late R x =
     bind (reads (\<lambda>d. (dh_supports_cutoff d, dh_sourceid d, dh_run_number d))) (\<lambda>(supported, sid, run).
       let cutoff = (case rh_cutoff R of Some c \<Rightarrow> c | None \<Rightarrow> 0); diff1 = (get_timestamp R x - cutoff :: i64) in
       if supported \<and> sint diff1 \<le> 0
       then dh_log (DWarn (DataPacketArrivedTooLate sid run (get_timestamp R x) cutoff diff1))
       else return ())"

definition count_payload :: "('b, 'p) data_handling \<Rightarrow> ('b, 'p) data_handling" where
  "count_payload d = d\<lparr>dh_num_payloads := dh_num_payloads d + 1, dh_sum_payloads := dh_sum_payloads d + 1,
     dh_stats_packet_count := dh_stats_packet_count d + 1\<rparr>"

text \<open>The insertion, with the element the processor gets to see, or \<open>None\<close> when it fails.\<close>

definition insert_payload :: "('b, 'e, 'p) handling \<Rightarrow> 'e \<Rightarrow> 'b \<Rightarrow> 'b \<times> 'e option" where
  "insert_payload R x b =
     (if lb_expects_order R then
        (case lb_try_write R x b of (b', ok) \<Rightarrow> (b', if ok then lb_back R b' else None))
      else
        (case lb_write_and_return R x b of (b', y, ok) \<Rightarrow> (b', if ok then Some y else None)))"

definition store_item :: "('b, 'e, 'p) handling \<Rightarrow> 'e \<Rightarrow> ('b, 'p) data_handling \<Rightarrow> ('b, 'p) data_handling" where
  "store_item R x d =
     (case insert_payload R x (dh_buffer d) of
        (b, None) \<Rightarrow> (set_buffer b d)\<lparr>dh_num_lb_insert_failures := dh_num_lb_insert_failures d + 1\<rparr>
      | (b, Some y) \<Rightarrow>
          (if dh_processing_delay_ticks d = 0
           then count_payload ((set_buffer b d)\<lparr>dh_processor := rp_postprocess R y (dh_processor d)\<rparr>)
           else (set_buffer b d)\<lparr>dh_baton := True\<rparr>))"

definition process_item ::
  "('b, 'e, 'p) handling \<Rightarrow> (nat \<Rightarrow> 'b \<Rightarrow> 'b) \<Rightarrow> 'e \<Rightarrow> ('b, 'p) data_handling \<Rightarrow> ('b, 'p) data_handling option" where
  "process_item R others payload0 d0 =
     (let (x, p) = rp_preprocess R payload0 (dh_processor d0);
          d = snd (warn_too_late R x (d0\<lparr>dh_processor := p\<rparr>))
      in map_option (\<lambda>b. store_item R x (set_buffer b d))
           (wait_not_full (lb_is_full R) others 0 (dh_buffer d)))"

text \<open>\<open>transform_and_process\<close>: the payload is one readout element or is transformed into several.\<close>

fun transform_and_process ::
  "('b, 'e, 'p) handling \<Rightarrow> (nat \<Rightarrow> 'b \<Rightarrow> 'b) \<Rightarrow> 'e list \<Rightarrow> ('b, 'p) data_handling \<Rightarrow> ('b, 'p) data_handling option" where
  "transform_and_process R others [] d = Some d"
| "transform_and_process R others (x # xs) d =
     (case process_item R others x d of None \<Rightarrow> None | Some d' \<Rightarrow> transform_and_process R others xs d')"

section \<open>Delayed post-processing\<close>

text \<open>The local variables of \<open>postprocess_schedule\<close> that live over the rounds of its loop.\<close>

record pp_state =
  pp_first_cycle :: bool
  pp_last_post_proc_time :: int
  pp_processed :: u64

text \<open>The wait for the baton, with a time-out.\<close>

definition pp_wait :: "denv \<Rightarrow> ('b, 'p) data_handling \<Rightarrow> ('b, 'p) data_handling" where
  "pp_wait E d =
     (if dh_baton d \<or> baton_posted E (dh_trace d) then d\<lparr>dh_baton := False\<rparr>
      else d\<lparr>dh_num_post_processing_delay_max_waits := dh_num_post_processing_delay_max_waits d + 1\<rparr>)"

text \<open>
  The window of a round: the elements between the two lower bounds, and the local variables after
  it. A start beyond the end would run past the buffer.
\<close>

definition pp_begin :: "('b, 'e, 'p) handling \<Rightarrow> 'b \<Rightarrow> pp_state \<Rightarrow> exn + pp_state" where
  "pp_begin R b pp =
     (if pp_first_cycle pp then
        (case lb_front R b of
           None \<Rightarrow> Inl (UndefinedBehaviour ''m_latency_buffer_impl->front()'')
         | Some x \<Rightarrow> Inr (pp\<lparr>pp_processed := get_timestamp R x, pp_first_cycle := False\<rparr>))
      else Inr pp)"

definition pp_window :: "('b, 'e, 'p) handling \<Rightarrow> u64 \<Rightarrow> 'b \<Rightarrow> pp_state \<Rightarrow> exn + 'e list \<times> pp_state" where
  "pp_window R delay b pp0 =
     (case lb_back R b of
        None \<Rightarrow> Inl (UndefinedBehaviour ''m_latency_buffer_impl->back()'')
      | Some tail \<Rightarrow>
          rbind (pp_begin R b pp0) (\<lambda>pp.
            let newest_ts = get_timestamp R tail in
            if newest_ts - pp_processed pp > delay then
              let end_win_ts = newest_ts - delay;
                  s = lb_lower_bound R b (pp_processed pp);
                  e = lb_lower_bound R b end_win_ts
              in if s \<le> e then Inr (take (e - s) (drop s (lb_elements R b)), pp\<lparr>pp_processed := end_win_ts\<rparr>)
                 else Inl (UndefinedBehaviour ''start_iter beyond end_iter'')
            else Inr ([], pp)))"

definition pp_element :: "('b, 'e, 'p) handling \<Rightarrow> 'e \<Rightarrow> ('b, 'p) data_handling \<Rightarrow> ('b, 'p) data_handling" where
  "pp_element R x d = count_payload (d\<lparr>dh_processor := rp_postprocess R x (dh_processor d)\<rparr>)"

text \<open>The elements handed to the processor are returned as well, for the statements about them.\<close>

definition pp_process :: "('b, 'e, 'p) handling \<Rightarrow> pp_state \<Rightarrow> ('b, 'p, 'e list \<times> pp_state) dh_action" where
  "pp_process R pp =
     bind (bind (reads (\<lambda>d. pp_window R (dh_processing_delay_ticks d) (dh_buffer d) pp)) of_result) (\<lambda>(xs, pp').
       seq (modifies (fold (pp_element R) xs)) (return (xs, pp')))"

text \<open>The body of the loop: \<open>None\<close> when the loop ends. A clock set back gives a huge unsigned duration.\<close>

definition postprocess_round :: "denv \<Rightarrow> ('b, 'e, 'p) handling \<Rightarrow> pp_state \<Rightarrow> ('b, 'p, ('e list \<times> pp_state) option) dh_action" where
  "postprocess_round E R pp =
     bind (reads dh_run_marker) (\<lambda>running.
       if \<not> running then return None
       else seq (modifies (pp_wait E))
         (bind (reads (\<lambda>d. (lb_occupancy R (dh_buffer d), dh_post_processing_delay_min_wait d))) (\<lambda>(occupancy, min_wait).
           if occupancy = 0 then return (Some ([], pp))
           else bind (dh_now E) (\<lambda>now.
             if (word_of_int ((now - pp_last_post_proc_time pp) sdiv 1000000) :: u64) \<le> min_wait then return (Some ([], pp))
             else bind (pp_process R (pp\<lparr>pp_last_post_proc_time := now\<rparr>)) (\<lambda>r. return (Some r))))))"

definition pp_start :: "denv \<Rightarrow> u64 \<Rightarrow> ('b, 'p, pp_state) dh_action" where
  "pp_start E junk = bind (dh_now E) (\<lambda>now.
     return \<lparr>pp_first_cycle = True, pp_last_post_proc_time = now, pp_processed = junk\<rparr>)"

section \<open>Timesyncs\<close>

record timesync_state =
  ts_msg_seqno :: u64
  ts_prev_timestamp :: u64
  ts_once_per_run :: bool
  ts_zero_timestamp_count :: u64
  ts_duplicate_timestamp_count :: u64
  ts_total_timestamp_count :: u64

definition timesync_start :: "('b, 'p, timesync_state) dh_action" where
  "timesync_start =
     seq (modifies (\<lambda>d. d\<lparr>dh_num_requests := 0, dh_sum_requests := 0\<rparr>))
     (return \<lparr>ts_msg_seqno = 0, ts_prev_timestamp = 0, ts_once_per_run = True, ts_zero_timestamp_count = 0,
              ts_duplicate_timestamp_count = 0, ts_total_timestamp_count = 0\<rparr>)"

text \<open>The request of a fake trigger; \<open>dr\<close> is a default-constructed request.\<close>

definition fake_request :: "i32 \<Rightarrow> u64 \<Rightarrow> u16 \<times> u32 \<Rightarrow> DataRequest \<Rightarrow> DataRequest" where
  "fake_request trigger_id daq_time sid dr =
     (let trigger = (if daq_time > 500000 then daq_time - 500000 else 0);
          window_begin = (if trigger > 100 then trigger - 100 else 0)
      in dr\<lparr>dr_trigger_number := scast trigger_id, dr_trigger_timestamp := trigger,
            dr_window_begin := window_begin, dr_window_end := window_begin + 300000,
            dr_component := sid, dr_data_destination := ''data_fragments_q''\<rparr>)"

definition count_request :: "('b, 'p) data_handling \<Rightarrow> ('b, 'p) data_handling" where
  "count_request d = d\<lparr>dh_num_requests := dh_num_requests d + 1, dh_sum_requests := dh_sum_requests d + 1\<rparr>"

definition issue_fake_trigger :: "('b, 'e, 'p) handling \<Rightarrow> u64 \<Rightarrow> ('b, 'p, unit) dh_action" where
  "issue_fake_trigger R daq_time =
     seq (modifies (\<lambda>d. d\<lparr>dh_current_fake_trigger_id := dh_current_fake_trigger_id d + 1\<rparr>))
     (bind (reads (\<lambda>d. fake_request (dh_current_fake_trigger_id d) daq_time (dh_sourceid d) (default_request R))) (\<lambda>dr.
      seq (on_handler (issue_request dr False)) (modifies count_request)))"

definition send_time_sync :: "denv \<Rightarrow> TimeSync \<Rightarrow> ('b, 'p, unit) dh_action" where
  "send_time_sync E msg =
     bind (reads (\<lambda>d. (send_timesync E (dh_trace d) msg, dh_sourceid d, dh_timesync_connection_name d))) (\<lambda>(sent, sid, conn).
     seq (dh_log (DTimeSync msg sent))
     (if sent then return () else dh_log (DWarn (TimeSyncTransmissionFailed sid conn))))"

text \<open>The body of the loop of \<open>run_timesync\<close>: \<open>None\<close> when the loop ends.\<close>

definition timesync_round :: "denv \<Rightarrow> ('b, 'e, 'p) handling \<Rightarrow> timesync_state \<Rightarrow> ('b, 'p, timesync_state option) dh_action" where
  "timesync_round E R l =
     bind (reads (\<lambda>d. (dh_run_marker d, rp_last_daq_time R (dh_processor d), dh_run_number d, dh_sourceid d, dh_fake_trigger d)))
       (\<lambda>(running, daq_time, run, sid, fake).
       let l1 = l\<lparr>ts_total_timestamp_count := ts_total_timestamp_count l + 1\<rparr> in
       if \<not> running then return None
       else if daq_time \<noteq> 0 \<and> daq_time \<noteq> ts_prev_timestamp l then
         let seqno = ts_msg_seqno l + 1;
             msg = \<lparr>tsy_daq_time = daq_time, tsy_run_number = run, tsy_sequence_number = seqno, tsy_source_id = snd sid\<rparr>
         in seq (send_time_sync E msg)
            (seq (if fake then issue_fake_trigger R daq_time else return ())
            (return (Some (l1\<lparr>ts_prev_timestamp := daq_time, ts_msg_seqno := seqno\<rparr>))))
       else
         return (Some (l1\<lparr>ts_zero_timestamp_count := ts_zero_timestamp_count l + (if daq_time = 0 then 1 else 0),
           ts_duplicate_timestamp_count := ts_duplicate_timestamp_count l + (if daq_time = ts_prev_timestamp l then 1 else 0),
           ts_once_per_run := False\<rparr>)))"

section \<open>Data requests and monitoring\<close>

definition dispatch_requests :: "DataRequest \<Rightarrow> ('b, 'p, unit) dh_action" where
  "dispatch_requests dr =
     bind (reads dh_sourceid) (\<lambda>sid.
       if dr_component dr \<noteq> sid then dh_log (DError (RequestSourceIDMismatch sid (dr_component dr)))
       else seq (on_handler (issue_request dr False)) (modifies count_request))"

text \<open>The counter of failed insertions passes through an \<open>int\<close>; the rate, a double, is left out.\<close>

definition dh_generate_opmon_data :: "('b, 'e, 'p) handling \<Rightarrow> ('b, 'p, unit) dh_action" where
  "dh_generate_opmon_data R =
     bind (reads (\<lambda>d. (d, (ucast (dh_num_lb_insert_failures d) :: i32)))) (\<lambda>(d, failures).
     seq (modifies (\<lambda>d. d\<lparr>dh_num_payloads := 0, dh_rawq_timeout_count := 0, dh_stats_packet_count := 0,
            dh_num_lb_insert_failures := 0, dh_num_requests := 0, dh_num_post_processing_delay_max_waits := 0\<rparr>))
     (seq (if failures \<noteq> 0
           then dh_log (DWarn (NonZeroLatencyBufferInsertFailures (dh_sourceid d) (scast failures) (dh_num_payloads d)))
           else return ())
     (dh_log (DPublish
        \<lparr>di_sum_payloads = dh_sum_payloads d, di_num_payloads = dh_num_payloads d,
         di_num_data_input_timeouts = dh_rawq_timeout_count d, di_num_lb_insert_failures = scast failures,
         di_sum_requests = dh_sum_requests d, di_num_requests = dh_num_requests d,
         di_num_post_processing_delay_max_waits = dh_num_post_processing_delay_max_waits d,
         di_last_daq_timestamp = rp_last_daq_time R (dh_processor d),
         di_newest_timestamp = rp_last_daq_time R (dh_processor d),
         di_oldest_timestamp = rh_oldest_timestamp (dh_handler d)\<rparr>))))"

section \<open>The buffer\<close>

lemma ordered_laws:
  assumes "lb_ordered R"
  shows ordered_occupancy: "lb_occupancy R b = length (lb_elements R b)"
    and ordered_front: "lb_front R b = (if lb_elements R b = [] then None else Some (hd (lb_elements R b)))"
    and ordered_back: "lb_back R b = (if lb_elements R b = [] then None else Some (last (lb_elements R b)))"
    and ordered_sorted: "sorted (map (get_timestamp R) (lb_elements R b))"
    and ordered_lower_bound: "lb_lower_bound R b ts = length (takeWhile (\<lambda>x. get_timestamp R x < ts) (lb_elements R b))"
    and ordered_pop: "lb_elements R (lb_pop R n b) = drop n (lb_elements R b)"
    and ordered_flush: "lb_elements R (lb_flush R b) = []"
  using assms by (simp_all add: lb_ordered_def)

lemma rh_readout_sel [simp]:
  "get_timestamp (rh_readout R) = get_timestamp R" "lb_occupancy (rh_readout R) = lb_occupancy R"
  "lb_front (rh_readout R) = lb_front R" "lb_back (rh_readout R) = lb_back R"
  "lb_pop (rh_readout R) = lb_pop R" "lb_elements (rh_readout R) = lb_elements R"
  by (simp_all add: readout.truncate_def)

lemma sorted_slice:
  fixes f :: "'e \<Rightarrow> 'a::linorder"
  assumes "sorted (map f xs)" "lo \<le> hi"
  defines "s \<equiv> length (takeWhile (\<lambda>x. f x < lo) xs)"
    and "e \<equiv> length (takeWhile (\<lambda>x. f x < hi) xs)"
  shows "s \<le> e \<and> take (e - s) (drop s xs) = filter (\<lambda>x. lo \<le> f x \<and> f x < hi) xs"
  using assms(1) unfolding s_def e_def
proof (induction xs)
  case (Cons x xs)
  consider "f x < lo" "f x < hi" | "lo \<le> f x" "f x < hi" | "hi \<le> f x"
    using assms(2) by fastforce
  then show ?case
  proof cases
    case 3
    then have "filter (\<lambda>x. lo \<le> f x \<and> f x < hi) (x # xs) = []"
      using Cons.prems by (auto simp: filter_empty_conv)
    moreover have "\<not> f x < lo" "\<not> f x < hi" using 3 assms(2) by auto
    ultimately show ?thesis by simp
  next
    case 2
    then have "takeWhile (\<lambda>x. f x < lo) xs = []"
      using Cons.prems by (cases xs) auto
    then show ?thesis using Cons 2 by simp
  qed (use Cons in simp)
qed simp

lemma sorted_ends:
  fixes f :: "'e \<Rightarrow> 'a::linorder"
  assumes "sorted (map f xs)" "x \<in> set xs"
  shows "f (hd xs) \<le> f x" "f x \<le> f (last xs)"
proof -
  show "f (hd xs) \<le> f x" using assms by (cases xs) auto
  show "f x \<le> f (last xs)"
    using assms by (induction xs) (auto simp: sorted_append split: if_splits)
qed

section \<open>Each element is post-processed once\<close>

definition newest_ts :: "('b, 'e, 'p) handling \<Rightarrow> 'b \<Rightarrow> u64" where
  "newest_ts R b = get_timestamp R (last (lb_elements R b))"

definition pp_ok :: "('b, 'e, 'p) handling \<Rightarrow> pp_state \<Rightarrow> 'b \<Rightarrow> bool" where
  "pp_ok R pp b \<longleftrightarrow> pp_first_cycle pp \<or> (lb_elements R b \<noteq> [] \<and> pp_processed pp \<le> newest_ts R b)"

definition pp_from :: "('b, 'e, 'p) handling \<Rightarrow> pp_state \<Rightarrow> 'b \<Rightarrow> u64" where
  "pp_from R pp b = (if pp_first_cycle pp then get_timestamp R (hd (lb_elements R b)) else pp_processed pp)"

definition pp_done :: "('b, 'e, 'p) handling \<Rightarrow> pp_state \<Rightarrow> 'b \<Rightarrow> 'e list \<Rightarrow> pp_state \<Rightarrow> bool" where
  "pp_done R pp b xs pp' \<longleftrightarrow>
     (if pp_first_cycle pp' then pp_first_cycle pp \<and> xs = []
      else pp_from R pp b \<le> pp_processed pp'
         \<and> xs = filter (\<lambda>x. pp_from R pp b \<le> get_timestamp R x \<and> get_timestamp R x < pp_processed pp') (lb_elements R b))"

lemma pp_window_done:
  assumes L: "lb_ordered R" and ne: "lb_elements R b \<noteq> []" and ok: "pp_ok R pp b"
  shows "\<exists>xs pp'. pp_window R delay b pp = Inr (xs, pp') \<and> pp_ok R pp' b \<and> pp_done R pp b xs pp'
           \<and> \<not> pp_first_cycle pp' \<and> pp_last_post_proc_time pp' = pp_last_post_proc_time pp
           \<and> pp_processed pp' = (if newest_ts R b - pp_from R pp b > delay then newest_ts R b - delay else pp_from R pp b)"
proof -
  define lo where "lo = pp_from R pp b"
  define pp1 where "pp1 = pp\<lparr>pp_processed := lo, pp_first_cycle := False\<rparr>"
  have beg: "pp_begin R b pp = Inr pp1"
    using L ne by (auto simp: pp_begin_def ordered_front pp1_def lo_def pp_from_def)
  have le: "lo \<le> newest_ts R b"
    using ok ne sorted_ends(1)[OF ordered_sorted[OF L], of "last (lb_elements R b)" b]
    by (auto simp: lo_def pp_from_def pp_ok_def newest_ts_def)
  let ?n = "newest_ts R b"
  show ?thesis
  proof (cases "delay < ?n - lo")
    case True
    then have "lo \<le> ?n - delay" "?n - delay \<le> ?n" using le by uint_arith+
    note sl = sorted_slice[OF ordered_sorted[OF L, of b] this(1)]
    have "pp_window R delay b pp = Inr (filter (\<lambda>x. lo \<le> get_timestamp R x \<and> get_timestamp R x < ?n - delay) (lb_elements R b),
        pp1\<lparr>pp_processed := ?n - delay\<rparr>)"
      using True sl L ne by (simp add: pp_window_def ordered_back beg Let_def pp1_def ordered_lower_bound newest_ts_def)
    then show ?thesis using True ne \<open>lo \<le> ?n - delay\<close> \<open>?n - delay \<le> ?n\<close>
      by (simp add: pp_ok_def pp_done_def pp1_def lo_def[symmetric])
  next
    case False
    then have "pp_window R delay b pp = Inr ([], pp1)"
      using L ne by (simp add: pp_window_def ordered_back beg Let_def pp1_def newest_ts_def)
    moreover have "filter (\<lambda>x. lo \<le> get_timestamp R x \<and> get_timestamp R x < lo) (lb_elements R b) = []"
      by (auto simp: filter_empty_conv)
    ultimately show ?thesis using False ne le
      by (simp add: pp_ok_def pp_done_def pp1_def lo_def[symmetric])
  qed
qed

text \<open>The scheduler leaves the buffer and the configuration alone.\<close>

definition pp_frame :: "('b, 'p) data_handling \<Rightarrow> ('b, 'p) data_handling \<Rightarrow> bool" where
  "pp_frame d d' \<longleftrightarrow> dh_handler d' = dh_handler d \<and> dh_processing_delay_ticks d' = dh_processing_delay_ticks d
     \<and> dh_post_processing_delay_min_wait d' = dh_post_processing_delay_min_wait d"

lemma fold_pp_element:
  "pp_frame d (fold (pp_element R) xs d)
   \<and> dh_processor (fold (pp_element R) xs d) = fold (rp_postprocess R) xs (dh_processor d)
   \<and> dh_num_payloads (fold (pp_element R) xs d) = dh_num_payloads d + word_of_nat (length xs)
   \<and> dh_sum_payloads (fold (pp_element R) xs d) = dh_sum_payloads d + word_of_nat (length xs)"
  by (induction xs arbitrary: d) (simp_all add: pp_frame_def pp_element_def count_payload_def algebra_simps)

lemma pp_frame_wait [simp]: "pp_frame d (pp_wait E d)" "dh_processor (pp_wait E d) = dh_processor d"
  "dh_sum_payloads (pp_wait E d) = dh_sum_payloads d" "dh_num_payloads (pp_wait E d) = dh_num_payloads d"
  by (simp_all add: pp_wait_def pp_frame_def)

lemma postprocess_round_done:
  assumes L: "lb_ordered R" and ok: "pp_ok R pp (dh_buffer d)" and run: "dh_run_marker d"
  shows "\<exists>xs pp' d'. postprocess_round E R pp d = (Ret (Some (xs, pp')), d')
           \<and> pp_frame d d' \<and> pp_ok R pp' (dh_buffer d) \<and> pp_done R pp (dh_buffer d) xs pp'
           \<and> dh_processor d' = fold (rp_postprocess R) xs (dh_processor d)
           \<and> dh_num_payloads d' = dh_num_payloads d + word_of_nat (length xs)
           \<and> dh_sum_payloads d' = dh_sum_payloads d + word_of_nat (length xs)"
proof -
  define d1 where "d1 = pp_wait E d"
  define t where "t = system_ns E (dh_trace d1)"
  define d2 where "d2 = d1\<lparr>dh_trace := dh_trace d1 @ [DClock t]\<rparr>"
  have fr: "pp_frame d d1" "pp_frame d d2" "dh_buffer d1 = dh_buffer d" "dh_buffer d2 = dh_buffer d"
      "dh_processor d1 = dh_processor d" "dh_processor d2 = dh_processor d"
      "dh_sum_payloads d1 = dh_sum_payloads d" "dh_sum_payloads d2 = dh_sum_payloads d"
      "dh_num_payloads d1 = dh_num_payloads d" "dh_num_payloads d2 = dh_num_payloads d"
    using pp_frame_wait(1)[of d E] by (simp_all add: d1_def d2_def pp_frame_def dh_buffer_def)
  have stay: "pp_done R pp (dh_buffer d) [] pp"
    by (auto simp: pp_done_def pp_from_def intro: filter_False[symmetric])
  have now: "dh_now E d1 = (Ret t, d2)" by (simp add: dh_now_def dh_log_def t_def d2_def)
  let ?late = "(word_of_int ((t - pp_last_post_proc_time pp) sdiv 1000000) :: u64) \<le> dh_post_processing_delay_min_wait d1"
  consider "lb_elements R (dh_buffer d) = []" | "lb_elements R (dh_buffer d) \<noteq> []" ?late
    | "lb_elements R (dh_buffer d) \<noteq> []" "\<not> ?late" by blast
  then show ?thesis
  proof cases
    case 1
    then have "postprocess_round E R pp d = (Ret (Some ([], pp)), d1)"
      using run L by (simp add: postprocess_round_def d1_def[symmetric] ordered_occupancy fr)
    then show ?thesis using fr ok stay by auto
  next
    case 2
    then have "postprocess_round E R pp d = (Ret (Some ([], pp)), d2)"
      using run L by (simp add: postprocess_round_def d1_def[symmetric] ordered_occupancy fr now)
    then show ?thesis using fr ok stay by auto
  next
    case 3
    let ?pp = "pp\<lparr>pp_last_post_proc_time := t\<rparr>"
    have "pp_ok R ?pp (dh_buffer d)" using ok by (simp add: pp_ok_def)
    from pp_window_done[OF L 3(1) this] obtain xs pp' where
      w: "pp_window R (dh_processing_delay_ticks d2) (dh_buffer d2) ?pp = Inr (xs, pp')"
         "pp_ok R pp' (dh_buffer d)" "pp_done R ?pp (dh_buffer d) xs pp'"
      using fr(4) by metis
    have "pp_process R ?pp d2 = (Ret (xs, pp'), fold (pp_element R) xs d2)"
      using w(1) by (simp add: pp_process_def)
    then have "postprocess_round E R pp d = (Ret (Some (xs, pp')), fold (pp_element R) xs d2)"
      using 3 run L by (simp add: postprocess_round_def d1_def[symmetric] ordered_occupancy fr now)
    then show ?thesis using w(2,3) fold_pp_element[of d2 R xs] fr
      by (auto simp: pp_frame_def pp_done_def pp_from_def)
  qed
qed

section \<open>Payloads and the other threads\<close>

text \<open>The buffer after \<open>n\<close> sleeps of the thread that waits for room.\<close>

primrec after_sleeps :: "(nat \<Rightarrow> 'b \<Rightarrow> 'b) \<Rightarrow> nat \<Rightarrow> 'b \<Rightarrow> 'b" where
  "after_sleeps others 0 b = b"
| "after_sleeps others (Suc n) b = others n (after_sleeps others n b)"

lemma wait_not_full_from:
  assumes "i \<le> n" "\<not> full (after_sleeps others n b)" "\<forall>m<n. full (after_sleeps others m b)"
  shows "wait_not_full full others i (after_sleeps others i b) = Some (after_sleeps others n b)"
  using assms(1)
proof (induction rule: inc_induct)
  case base
  then show ?case using assms(2) by (simp add: wait_not_full.simps)
next
  case (step i)
  then show ?case using assms(3) by (subst wait_not_full.simps) simp
qed

lemma wait_not_full_ends:
  assumes "\<exists>n. \<not> full (after_sleeps others n b)"
  shows "\<exists>n. wait_not_full full others 0 b = Some (after_sleeps others n b) \<and> \<not> full (after_sleeps others n b)
            \<and> (\<forall>m<n. full (after_sleeps others m b))"
proof -
  let ?P = "\<lambda>n. \<not> full (after_sleeps others n b)"
  have least: "?P (Least ?P)" "\<forall>m<Least ?P. full (after_sleeps others m b)"
    using LeastI_ex[OF assms] not_less_Least[of _ ?P] by blast+
  show ?thesis using least wait_not_full_from[OF le0 least] by auto
qed

lemma dh_buffer_simps [simp]:
  "dh_buffer (set_buffer b d) = b" "dh_buffer (d\<lparr>dh_processor := p\<rparr>) = dh_buffer d"
  "dh_buffer (d\<lparr>dh_trace := t\<rparr>) = dh_buffer d" "dh_buffer (d\<lparr>dh_baton := f\<rparr>) = dh_buffer d"
  "dh_buffer (d\<lparr>dh_num_lb_insert_failures := n\<rparr>) = dh_buffer d" "dh_buffer (count_payload d) = dh_buffer d"
  "dh_buffer (d\<lparr>dh_handler := h\<rparr>) = rh_latency_buffer h" "dh_buffer (d\<lparr>dh_num_payloads := n\<rparr>) = dh_buffer d"
  "dh_buffer (d\<lparr>dh_sum_payloads := n\<rparr>) = dh_buffer d" "dh_buffer (d\<lparr>dh_stats_packet_count := k\<rparr>) = dh_buffer d"
  by (simp_all add: dh_buffer_def set_buffer_def count_payload_def)

lemma warn_too_late_run: "\<exists>w. warn_too_late R x d = (Ret (), d\<lparr>dh_trace := dh_trace d @ w\<rparr>)"
proof -
  show ?thesis
  proof (cases "dh_supports_cutoff d \<and> sint (get_timestamp R x - (case rh_cutoff R of Some c \<Rightarrow> c | None \<Rightarrow> 0) :: i64) \<le> 0")
    case False
    then show ?thesis by (intro exI[of _ "[]"]) (auto simp: warn_too_late_def Let_def)
  next
    case True
    then show ?thesis by (intro exI) (simp add: warn_too_late_def Let_def dh_log_def)
  qed
qed

lemma process_item_run:
  assumes "rp_preprocess R payload0 (dh_processor d) = (x, p)"
    and "wait_not_full (lb_is_full R) others 0 (dh_buffer d) = Some b"
  shows "\<exists>w. process_item R others payload0 d
               = Some (store_item R x (set_buffer b (d\<lparr>dh_processor := p, dh_trace := dh_trace d @ w\<rparr>)))"
  using warn_too_late_run[of R x "d\<lparr>dh_processor := p\<rparr>"] assms by (auto simp: process_item_def Let_def)

lemma insert_payload_adds:
  assumes "lb_inserts R"
  obtains b' ok where "insert_payload R x b = (b', if ok then Some x else None)"
    "mset (lb_elements R b') = (if ok then add_mset x else id) (mset (lb_elements R b))"
proof (cases "lb_expects_order R")
  case True
  obtain b' ok where "lb_try_write R x b = (b', ok)" by fastforce
  then show ?thesis using that[of b' ok] True assms by (auto simp: insert_payload_def lb_inserts_def)
next
  case False
  obtain b' y ok where "lb_write_and_return R x b = (b', y, ok)" by (metis prod_cases3)
  then show ?thesis using that[of b' ok] False assms by (auto simp: insert_payload_def lb_inserts_def)
qed

text \<open>
  C11: a payload is preprocessed, then, as soon as the buffer has room, either stored, and with no
  delay post-processed and counted at once, or dropped and counted as a failed insertion; the
  request handler is otherwise left alone.
\<close>

theorem process_item_outcome:
  assumes ins: "lb_inserts R"
    and room: "\<exists>n. \<not> lb_is_full R (after_sleeps others n (dh_buffer d))"
    and pre: "rp_preprocess R payload0 (dh_processor d) = (x, p)"
  shows "\<exists>n ok d'. process_item R others payload0 d = Some d'
     \<and> (let b = after_sleeps others n (dh_buffer d); now = (ok \<and> dh_processing_delay_ticks d = 0); one = (if now then 1 else 0) in
         \<not> lb_is_full R b \<and> (\<forall>m<n. lb_is_full R (after_sleeps others m (dh_buffer d)))
         \<and> mset (lb_elements R (dh_buffer d')) = (if ok then add_mset x else id) (mset (lb_elements R b))
         \<and> dh_num_lb_insert_failures d' = dh_num_lb_insert_failures d + (if ok then 0 else 1)
         \<and> dh_processor d' = (if now then rp_postprocess R x p else p)
         \<and> dh_num_payloads d' = dh_num_payloads d + one \<and> dh_sum_payloads d' = dh_sum_payloads d + one
         \<and> dh_baton d' = (dh_baton d \<or> ok \<and> \<not> now)
         \<and> (dh_handler d')\<lparr>rh_latency_buffer := b\<rparr> = (dh_handler d)\<lparr>rh_latency_buffer := b\<rparr>)"
proof -
  obtain n where n: "wait_not_full (lb_is_full R) others 0 (dh_buffer d) = Some (after_sleeps others n (dh_buffer d))"
      "\<not> lb_is_full R (after_sleeps others n (dh_buffer d))" "\<forall>m<n. lb_is_full R (after_sleeps others m (dh_buffer d))"
    using wait_not_full_ends[OF room] by blast
  define b where "b = after_sleeps others n (dh_buffer d)"
  obtain w where run: "process_item R others payload0 d
      = Some (store_item R x (set_buffer b (d\<lparr>dh_processor := p, dh_trace := dh_trace d @ w\<rparr>)))"
    using process_item_run[OF pre n(1)] by (auto simp: b_def)
  obtain b' ok where b': "insert_payload R x b = (b', if ok then Some x else None)"
      "mset (lb_elements R b') = (if ok then add_mset x else id) (mset (lb_elements R b))"
    using insert_payload_adds[OF ins] by blast
  show ?thesis
    using n(2,3) b'(2) run unfolding b_def[symmetric] store_item_def dh_buffer_simps b'(1)
    by (intro exI[of _ n] exI[of _ ok])
      (cases ok; cases "dh_processing_delay_ticks d = 0"; simp add: Let_def b_def[symmetric] set_buffer_def count_payload_def)
qed

lemma cleanup_loop_keeps_last:
  assumes "cleanup_loop (rh_readout R) s k = Inr ((b', pops'), k')" and L: "lb_ordered R"
  shows "(lb_elements R (fst s) = [] \<longleftrightarrow> lb_elements R b' = [])
       \<and> last (lb_elements R b') = last (lb_elements R (fst s))"
  using assms(1)
proof (induction "rh_readout R" s k rule: cleanup_loop.induct)
  case (1 s k)
  show ?case
  proof (cases "cleanup_iter (rh_readout R) s")
    case (Inr r)
    show ?thesis
    proof (cases r)
      case None
      then show ?thesis using 1(2) Inr by (subst (asm) cleanup_loop.simps) auto
    next
      case (Some s1)
      have "length (lb_elements R (fst s)) > 1" "lb_elements R (fst s1) = drop 1 (lb_elements R (fst s))"
        using Inr Some L
        by (auto simp: cleanup_iter_def ordered_occupancy ordered_pop split: if_splits option.splits prod.splits)
      moreover have "cleanup_loop (rh_readout R) s1 (k + 1) = Inr ((b', pops'), k')"
        using 1(2) Inr Some by (subst (asm) cleanup_loop.simps) auto
      ultimately show ?thesis using 1(1)[OF Inr Some] by (auto simp: last_drop)
    qed
  qed (use 1(2) in \<open>subst (asm) cleanup_loop.simps, auto\<close>)
qed

lemma cleanup_keeps_newest:
  assumes run: "on_handler (cleanup (rh_readout R)) d = (Ret (), d')" and L: "lb_ordered R"
  shows "lb_elements R (dh_buffer d') \<noteq> []" "last (lb_elements R (dh_buffer d')) = last (lb_elements R (dh_buffer d))"
    "dh_processing_delay_ticks d' = dh_processing_delay_ticks d"
proof -
  obtain h' where h': "cleanup (rh_readout R) (dh_handler d) = (Ret (), h')" "d' = d\<lparr>dh_handler := h'\<rparr>"
    using run by (auto simp: on_handler_def focus_def split: prod.splits)
  define h1 where "h1 = (dh_handler d)\<lparr>rh_pop_reqs := rh_pop_reqs (dh_handler d) + 1\<rparr>"
  have h1: "rh_latency_buffer h1 = dh_buffer d" by (simp add: h1_def dh_buffer_def)
  have c: "cleanup (rh_readout R) (dh_handler d)
      = bind (bind (reads (\<lambda>h. cleanup_loop (rh_readout R) (rh_latency_buffer h, rh_pop_list h) 0)) of_result) (\<lambda>((b, pops), popped).
          seq (modifies (\<lambda>h. h\<lparr>rh_latency_buffer := b, rh_pop_list := pops\<rparr>)) (cleanup_end (rh_readout R) popped)) h1"
    unfolding cleanup_def h1_def by simp
  obtain b pops k where l: "cleanup_loop (rh_readout R) (dh_buffer d, rh_pop_list h1) 0 = Inr ((b, pops), k)"
  proof (cases "cleanup_loop (rh_readout R) (dh_buffer d, rh_pop_list h1) 0")
    case (Inl e)
    then show ?thesis using h'(1) unfolding c by (simp add: h1)
  next
    case (Inr r)
    then show ?thesis using that by (cases r) auto
  qed
  note last = cleanup_loop_keeps_last[OF l L]
  have "cleanup_end (rh_readout R) k (h1\<lparr>rh_latency_buffer := b, rh_pop_list := pops\<rparr>) = (Ret (), h')"
    using h'(1) l unfolding c by (simp add: h1)
  then have "lb_elements R b \<noteq> [] \<and> rh_latency_buffer h' = b"
    using L by (cases "lb_elements R b = []")
      (auto simp: cleanup_end_def front_timestamp_def ordered_front rh_log_def)
  then show "lb_elements R (dh_buffer d') \<noteq> []" "last (lb_elements R (dh_buffer d')) = last (lb_elements R (dh_buffer d))"
      "dh_processing_delay_ticks d' = dh_processing_delay_ticks d"
    using last h'(2) by (simp_all add: dh_buffer_def)
qed

section \<open>Runs of the scheduler\<close>

text \<open>
  The scheduler runs beside the thread that delivers payloads, the cleanup, and threads that leave the
  buffer alone. The log has the contents of the buffer and the elements post-processed, per round.
\<close>

inductive pp_run ::
  "denv \<Rightarrow> ('b, 'e, 'p) handling \<Rightarrow> pp_state \<times> ('b, 'p) data_handling \<Rightarrow> ('e list \<times> 'e list) list
   \<Rightarrow> pp_state \<times> ('b, 'p) data_handling \<Rightarrow> bool" for E R s0 where
  run_start: "pp_run E R s0 [] s0"
| run_round: "pp_run E R s0 log (pp, d) \<Longrightarrow> postprocess_round E R pp d = (Ret (Some (xs, pp')), d')
    \<Longrightarrow> pp_run E R s0 (log @ [(lb_elements R (dh_buffer d), xs)]) (pp', d')"
| run_payload: "pp_run E R s0 log (pp, d) \<Longrightarrow> \<not> lb_is_full R (dh_buffer d) \<Longrightarrow> process_item R (\<lambda>_ b. b) x d = Some d' \<Longrightarrow> pp_run E R s0 log (pp, d')"
| run_cleanup: "pp_run E R s0 log (pp, d) \<Longrightarrow> on_handler (cleanup (rh_readout R)) d = (Ret (), d')
    \<Longrightarrow> pp_run E R s0 log (pp, d')"
| run_other: "pp_run E R s0 log (pp, d) \<Longrightarrow> dh_buffer d' = dh_buffer d \<Longrightarrow> pp_run E R s0 log (pp, d')"

lemma pp_ok_newer:
  assumes "pp_ok R pp b" "lb_ordered R" "set (lb_elements R b) \<subseteq> set (lb_elements R b')"
  shows "pp_ok R pp b'"
proof (cases "pp_first_cycle pp")
  case False
  then have b: "lb_elements R b \<noteq> []" "pp_processed pp \<le> newest_ts R b" using assms(1) by (simp_all add: pp_ok_def)
  then have "last (lb_elements R b) \<in> set (lb_elements R b')" using assms(3) by auto
  then have "newest_ts R b \<le> newest_ts R b'" "lb_elements R b' \<noteq> []"
    using sorted_ends(2)[OF ordered_sorted[OF assms(2)]] by (auto simp: newest_ts_def)
  then show ?thesis using b by (auto simp: pp_ok_def)
qed (simp add: pp_ok_def)

lemma process_item_adds:
  assumes "process_item R others x d = Some d'" "lb_ordered R" "lb_inserts R" "\<not> lb_is_full R (dh_buffer d)"
  shows "set (lb_elements R (dh_buffer d)) \<subseteq> set (lb_elements R (dh_buffer d'))"
proof -
  obtain y p where pre: "rp_preprocess R x (dh_processor d) = (y, p)" by fastforce
  have "wait_not_full (lb_is_full R) others 0 (dh_buffer d) = Some (dh_buffer d)"
    using assms(4) by (simp add: wait_not_full.simps)
  from process_item_run[OF pre this] obtain d1 where
    d1: "d' = store_item R y (set_buffer (dh_buffer d) d1)" using assms(1) by auto
  obtain b' ok where ins: "insert_payload R y (dh_buffer d) = (b', if ok then Some y else None)"
      "mset (lb_elements R b') = (if ok then add_mset y else id) (mset (lb_elements R (dh_buffer d)))"
    using insert_payload_adds[OF assms(3)] by blast
  have "dh_buffer d' = b'"
    unfolding d1 store_item_def dh_buffer_simps ins by (cases ok) simp_all
  then show ?thesis
    using ins(2) by (metis (full_types) id_apply set_mset_add_mset_insert set_mset_mset subset_insertI subset_refl)
qed

lemma postprocess_roundD:
  assumes "postprocess_round E R pp d = (Ret (Some (xs, pp')), d')" "lb_ordered R" "pp_ok R pp (dh_buffer d)"
  shows "dh_buffer d' = dh_buffer d" "pp_ok R pp' (dh_buffer d)" "pp_done R pp (dh_buffer d) xs pp'"
proof -
  have "dh_run_marker d" using assms(1) by (cases "dh_run_marker d") (simp_all add: postprocess_round_def)
  from postprocess_round_done[OF assms(2,3) this, of E] assms(1)
  show "dh_buffer d' = dh_buffer d" "pp_ok R pp' (dh_buffer d)" "pp_done R pp (dh_buffer d) xs pp'"
    by (auto simp: pp_frame_def dh_buffer_def)
qed

text \<open>The scheduler never looks past the newest element of the buffer.\<close>

lemma pp_run_ok:
  assumes "pp_run E R s0 log s" "lb_ordered R" "lb_inserts R" "pp_ok R (fst s0) (dh_buffer (snd s0))"
  shows "pp_ok R (fst s) (dh_buffer (snd s))"
  using assms(1)
proof induction
  case (run_round log pp d xs pp' d')
  then show ?case using postprocess_roundD[OF run_round(2) assms(2)] by simp
next
  case (run_payload log pp d x d')
  then show ?case using process_item_adds[OF run_payload(3) assms(2,3)] pp_ok_newer[OF _ assms(2)] by auto
next
  case (run_cleanup log pp d d')
  then show ?case using cleanup_keeps_newest[OF run_cleanup(2) assms(2)] by (auto simp: pp_ok_def newest_ts_def)
qed (use assms in auto)

definition pp_passed :: "('b, 'e, 'p) handling \<Rightarrow> pp_state \<Rightarrow> 'e \<Rightarrow> bool" where
  "pp_passed R pp x \<longleftrightarrow> \<not> pp_first_cycle pp \<and> get_timestamp R x < pp_processed pp"

definition times_processed :: "'e \<Rightarrow> ('e list \<times> 'e list) list \<Rightarrow> nat" where
  "times_processed x log = length (filter (\<lambda>r. x \<in> set (snd r)) log)"

lemma pp_done_element:
  assumes "pp_done R pp b xs pp'" "lb_ordered R"
  shows "pp_passed R pp x \<Longrightarrow> pp_passed R pp' x"
    and "x \<in> set xs \<Longrightarrow> pp_passed R pp' x \<and> \<not> pp_passed R pp x"
    and "x \<in> set (lb_elements R b) \<Longrightarrow> pp_passed R pp' x \<Longrightarrow> \<not> pp_passed R pp x \<Longrightarrow> x \<in> set xs"
proof -
  have hd: "x \<in> set (lb_elements R b) \<Longrightarrow> get_timestamp R (hd (lb_elements R b)) \<le> get_timestamp R x"
    by (rule sorted_ends(1)[OF ordered_sorted[OF assms(2)]])
  show "pp_passed R pp x \<Longrightarrow> pp_passed R pp' x"
    using assms(1) by (auto simp: pp_done_def pp_passed_def pp_from_def split: if_splits)
  show "x \<in> set xs \<Longrightarrow> pp_passed R pp' x \<and> \<not> pp_passed R pp x"
    using assms(1) by (auto simp: pp_done_def pp_passed_def pp_from_def split: if_splits)
  show "x \<in> set (lb_elements R b) \<Longrightarrow> pp_passed R pp' x \<Longrightarrow> \<not> pp_passed R pp x \<Longrightarrow> x \<in> set xs"
    using assms(1) hd by (auto simp: pp_done_def pp_passed_def pp_from_def split: if_splits)
qed

lemma pp_run_counts:
  assumes "pp_run E R s0 log s" "lb_ordered R" "lb_inserts R" "pp_ok R (fst s0) (dh_buffer (snd s0))"
  shows "(pp_passed R (fst s0) x \<longrightarrow> pp_passed R (fst s) x)
    \<and> times_processed x log \<le> (if pp_passed R (fst s) x \<and> \<not> pp_passed R (fst s0) x then 1 else 0)
    \<and> (list_all (\<lambda>r. x \<in> set (fst r)) log \<longrightarrow>
         times_processed x log = (if pp_passed R (fst s) x \<and> \<not> pp_passed R (fst s0) x then 1 else 0))"
  using assms(1)
proof induction
  case run_start
  then show ?case by (simp add: times_processed_def)
next
  case (run_round log pp d xs pp' d')
  note ok = pp_run_ok[OF run_round(1) assms(2-4), simplified]
  note dn = postprocess_roundD(3)[OF run_round(2) assms(2) ok]
  note step = pp_done_element[OF dn assms(2), of x]
  have count: "times_processed x (log @ [(lb_elements R (dh_buffer d), xs)]) = times_processed x log + (if x \<in> set xs then 1 else 0)"
    by (simp add: times_processed_def)
  consider "x \<in> set xs" "pp_passed R pp' x" "\<not> pp_passed R pp x" | "x \<notin> set xs" "pp_passed R pp x = pp_passed R pp' x"
    | "x \<notin> set xs" "pp_passed R pp' x" "\<not> pp_passed R pp x" "x \<notin> set (lb_elements R (dh_buffer d))"
    using step by blast
  then show ?case
    by cases (use run_round.IH in \<open>auto simp: count split: if_splits\<close>)
qed simp_all


section \<open>Timesyncs over the rounds\<close>

text \<open>
  The rounds of the timesync thread; \<open>ps\<close> are the states of the processor it finds in them.
\<close>

fun timesync_rounds :: "denv \<Rightarrow> ('b, 'e, 'p) handling \<Rightarrow> 'p list \<Rightarrow> timesync_state \<Rightarrow> ('b, 'p, timesync_state) dh_action" where
  "timesync_rounds E R [] l = return l"
| "timesync_rounds E R (p # ps) l =
     seq (modifies (\<lambda>d. d\<lparr>dh_processor := p\<rparr>))
     (bind (timesync_round E R l) (\<lambda>r. case r of None \<Rightarrow> return l | Some l' \<Rightarrow> timesync_rounds E R ps l'))"

fun timesyncs_of :: "dtrace \<Rightarrow> TimeSync list" where
  "timesyncs_of [] = []"
| "timesyncs_of (DTimeSync m ok # t) = m # timesyncs_of t"
| "timesyncs_of (e # t) = timesyncs_of t"

lemma timesyncs_of_append [simp]: "timesyncs_of (t @ u) = timesyncs_of t @ timesyncs_of u"
  by (induction t rule: timesyncs_of.induct) simp_all

definition sync_frame :: "('b, 'p) data_handling \<Rightarrow> ('b, 'p) data_handling \<Rightarrow> bool" where
  "sync_frame d d' \<longleftrightarrow> dh_run_marker d' = dh_run_marker d \<and> dh_run_number d' = dh_run_number d
     \<and> dh_sourceid d' = dh_sourceid d \<and> dh_fake_trigger d' = dh_fake_trigger d"

lemma send_time_sync_run:
  "\<exists>ok w. send_time_sync E m d = (Ret (), d\<lparr>dh_trace := dh_trace d @ DTimeSync m ok # w\<rparr>) \<and> timesyncs_of w = []"
  by (cases "send_timesync E (dh_trace d) m")
    (force simp: send_time_sync_def dh_log_def intro: exI[of _ "[]"])+

lemma issue_fake_trigger_run:
  "\<exists>d'. issue_fake_trigger R t d = (Ret (), d') \<and> sync_frame d d' \<and> dh_trace d' = dh_trace d
     \<and> length (rh_pool (dh_handler d')) = length (rh_pool (dh_handler d)) + 1"
  by (simp add: issue_fake_trigger_def issue_request_def on_handler_def count_request_def sync_frame_def focus_def)

lemma timesync_round_send:
  assumes "dh_run_marker d" "rp_last_daq_time R (dh_processor d) = t" "t \<noteq> 0" "t \<noteq> ts_prev_timestamp l"
  shows "\<exists>d' w. timesync_round E R l d
           = (Ret (Some (l\<lparr>ts_total_timestamp_count := ts_total_timestamp_count l + 1, ts_prev_timestamp := t,
                ts_msg_seqno := ts_msg_seqno l + 1\<rparr>)), d')
         \<and> sync_frame d d' \<and> dh_trace d' = dh_trace d @ w
         \<and> timesyncs_of w = [\<lparr>tsy_daq_time = t, tsy_run_number = dh_run_number d, tsy_sequence_number = ts_msg_seqno l + 1,
              tsy_source_id = snd (dh_sourceid d)\<rparr>]
         \<and> length (rh_pool (dh_handler d')) = length (rh_pool (dh_handler d)) + (if dh_fake_trigger d then 1 else 0)"
proof -
  let ?m = "\<lparr>tsy_daq_time = t, tsy_run_number = dh_run_number d, tsy_sequence_number = ts_msg_seqno l + 1,
              tsy_source_id = snd (dh_sourceid d)\<rparr>"
  obtain ok w where w: "send_time_sync E ?m d = (Ret (), d\<lparr>dh_trace := dh_trace d @ DTimeSync ?m ok # w\<rparr>)" "timesyncs_of w = []"
    using send_time_sync_run by blast
  show ?thesis
  proof (cases "dh_fake_trigger d")
    case True
    obtain d' where "issue_fake_trigger R t (d\<lparr>dh_trace := dh_trace d @ DTimeSync ?m ok # w\<rparr>) = (Ret (), d')"
        "sync_frame (d\<lparr>dh_trace := dh_trace d @ DTimeSync ?m ok # w\<rparr>) d'" "dh_trace d' = dh_trace d @ DTimeSync ?m ok # w"
        "length (rh_pool (dh_handler d')) = length (rh_pool (dh_handler d)) + 1"
      using issue_fake_trigger_run[of R t "d\<lparr>dh_trace := dh_trace d @ DTimeSync ?m ok # w\<rparr>"] by auto
    then show ?thesis using assms w True
      by (intro exI[of _ d'] exI[of _ "DTimeSync ?m ok # w"]) (simp add: timesync_round_def Let_def sync_frame_def)
  next
    case False
    then show ?thesis using assms w
      by (simp add: timesync_round_def Let_def sync_frame_def)
  qed
qed

lemma timesync_round_skip:
  assumes "dh_run_marker d" "rp_last_daq_time R (dh_processor d) = t" "t = 0 \<or> t = ts_prev_timestamp l"
  shows "\<exists>l'. timesync_round E R l d = (Ret (Some l'), d) \<and> ts_msg_seqno l' = ts_msg_seqno l
           \<and> ts_prev_timestamp l' = ts_prev_timestamp l"
  using assms by (auto simp: timesync_round_def Let_def)

text \<open>The times a thread announces that announced \<open>prev\<close> last.\<close>

fun announced :: "u64 \<Rightarrow> u64 list \<Rightarrow> u64 list" where
  "announced prev [] = []"
| "announced prev (t # ts) = (if t \<noteq> 0 \<and> t \<noteq> prev then t # announced t ts else announced prev ts)"

lemma announced_remdups_adj: "announced prev ts = tl (remdups_adj (prev # filter (\<lambda>t. t \<noteq> 0) ts))"
  by (induction prev ts rule: announced.induct) auto

fun numbered :: "u64 \<Rightarrow> nat \<Rightarrow> u64 list" where
  "numbered n 0 = []"
| "numbered n (Suc k) = (n + 1) # numbered (n + 1) k"

lemma numbered_upt: "numbered n k = map (\<lambda>i. n + word_of_nat (Suc i)) [0..<k]"
proof (induction k arbitrary: n)
  case (Suc k)
  have "[0..<Suc k] = 0 # map Suc [0..<k]" by (simp add: map_Suc_upt upt_conv_Cons del: upt_Suc)
  then show ?case using Suc by (simp add: comp_def add.assoc del: upt_Suc)
qed simp

lemma timesync_rounds_run:
  assumes "dh_run_marker d"
  shows "\<exists>l' d' w. timesync_rounds E R ps l d = (Ret l', d') \<and> sync_frame d d' \<and> dh_trace d' = dh_trace d @ w
     \<and> map tsy_daq_time (timesyncs_of w) = announced (ts_prev_timestamp l) (map (rp_last_daq_time R) ps)
     \<and> map tsy_sequence_number (timesyncs_of w) = numbered (ts_msg_seqno l) (length (timesyncs_of w))
     \<and> list_all (\<lambda>m. tsy_run_number m = dh_run_number d \<and> tsy_source_id m = snd (dh_sourceid d)) (timesyncs_of w)
     \<and> length (rh_pool (dh_handler d')) = length (rh_pool (dh_handler d)) + (if dh_fake_trigger d then length (timesyncs_of w) else 0)"
  using assms
proof (induction ps arbitrary: l d)
  case Nil
  then show ?case by (simp add: sync_frame_def)
next
  case (Cons p ps)
  let ?d = "d\<lparr>dh_processor := p\<rparr>" and ?t = "rp_last_daq_time R p"
  show ?case
  proof (cases "?t \<noteq> 0 \<and> ?t \<noteq> ts_prev_timestamp l")
    case True
    let ?l = "l\<lparr>ts_total_timestamp_count := ts_total_timestamp_count l + 1, ts_prev_timestamp := ?t, ts_msg_seqno := ts_msg_seqno l + 1\<rparr>"
    from timesync_round_send[of ?d R ?t l E] obtain d1 w1 where
      r: "timesync_round E R l ?d = (Ret (Some ?l), d1)" "sync_frame d d1" "dh_trace d1 = dh_trace d @ w1"
         "timesyncs_of w1 = [\<lparr>tsy_daq_time = ?t, tsy_run_number = dh_run_number d, tsy_sequence_number = ts_msg_seqno l + 1,
            tsy_source_id = snd (dh_sourceid d)\<rparr>]"
         "length (rh_pool (dh_handler d1)) = length (rh_pool (dh_handler d)) + (if dh_fake_trigger d then 1 else 0)"
      using Cons.prems True by (auto simp: sync_frame_def)
    then have "dh_run_marker d1" using Cons.prems by (simp add: sync_frame_def)
    from Cons.IH[OF this, of ?l] obtain l' d' w where
      ih: "timesync_rounds E R ps ?l d1 = (Ret l', d')" "sync_frame d1 d'" "dh_trace d' = dh_trace d1 @ w"
        "map tsy_daq_time (timesyncs_of w) = announced ?t (map (rp_last_daq_time R) ps)"
        "map tsy_sequence_number (timesyncs_of w) = numbered (ts_msg_seqno l + 1) (length (timesyncs_of w))"
        "list_all (\<lambda>m. tsy_run_number m = dh_run_number d1 \<and> tsy_source_id m = snd (dh_sourceid d1)) (timesyncs_of w)"
        "length (rh_pool (dh_handler d')) = length (rh_pool (dh_handler d1)) + (if dh_fake_trigger d1 then length (timesyncs_of w) else 0)"
      by auto
    show ?thesis
      using r ih True
      by (intro exI[of _ l'] exI[of _ d'] exI[of _ "w1 @ w"]) (simp add: sync_frame_def)
  next
    case False
    then obtain l1 where r: "timesync_round E R l ?d = (Ret (Some l1), ?d)" "ts_msg_seqno l1 = ts_msg_seqno l"
        "ts_prev_timestamp l1 = ts_prev_timestamp l"
      using timesync_round_skip[of ?d R ?t l E] Cons.prems by auto
    from Cons.IH[of ?d l1] Cons.prems r False show ?thesis
      by (fastforce simp: sync_frame_def)
  qed
qed

text \<open>
  C10: the timesync thread announces exactly the changes of the data time: the nonzero times the
  processor shows in its rounds, without immediate repetitions, under the sequence numbers 1, 2, 3
  and so on, with the run number and source of the module; each leads to one request when fake
  triggers are on.
\<close>

theorem timesyncs_announce_changes:
  assumes "dh_run_marker d"
  shows "\<exists>l d' w. bind timesync_start (timesync_rounds E R ps) d = (Ret l, d') \<and> dh_trace d' = dh_trace d @ w
     \<and> map tsy_daq_time (timesyncs_of w) = remdups_adj (filter (\<lambda>t. t \<noteq> 0) (map (rp_last_daq_time R) ps))
     \<and> map tsy_sequence_number (timesyncs_of w) = map (\<lambda>i. word_of_nat (Suc i)) [0..<length (timesyncs_of w)]
     \<and> list_all (\<lambda>m. tsy_run_number m = dh_run_number d \<and> tsy_source_id m = snd (dh_sourceid d)) (timesyncs_of w)
     \<and> length (rh_pool (dh_handler d')) = length (rh_pool (dh_handler d)) + (if dh_fake_trigger d then length (timesyncs_of w) else 0)"
proof -
  let ?d = "d\<lparr>dh_num_requests := 0, dh_sum_requests := 0\<rparr>"
  let ?l = "\<lparr>ts_msg_seqno = 0, ts_prev_timestamp = 0, ts_once_per_run = True, ts_zero_timestamp_count = 0,
              ts_duplicate_timestamp_count = 0, ts_total_timestamp_count = 0\<rparr> :: timesync_state"
  have st: "timesync_start d = (Ret ?l, ?d)" by (simp add: timesync_start_def)
  have "announced 0 ts = remdups_adj (filter (\<lambda>t. t \<noteq> 0) ts)" for ts
  proof (cases "filter (\<lambda>t. t \<noteq> 0) ts")
    case (Cons t us)
    then have "t \<noteq> 0" by (auto simp: filter_eq_Cons_iff)
    then show ?thesis using Cons by (simp add: announced_remdups_adj)
  qed (simp add: announced_remdups_adj)
  then show ?thesis
    using timesync_rounds_run[of ?d E R ps ?l] assms by (auto simp: st numbered_upt)
qed

section \<open>Stopping and starting again\<close>

lemma rh_start_run:
  "\<exists>h'. rh_start E h = (Ret (), h') \<and> rh_pop_list h' = rh_pop_list h \<and> rh_run_marker h'
     \<and> rh_waiting_requests h' = rh_waiting_requests h \<and> rh_latency_buffer h' = rh_latency_buffer h"
proof -
  have ready: "\<exists>w. for_each (\<lambda>c. rh_log (RReady c)) cs h = (Ret (), h\<lparr>rh_trace := rh_trace h @ w\<rparr>)"
    for cs and h :: "'a request_handler"
  proof (induction cs arbitrary: h)
    case Nil
    then show ?case by (intro exI[of _ "[]"]) simp
  next
    case (Cons c cs)
    let ?h = "h\<lparr>rh_trace := rh_trace h @ [RReady c]\<rparr>"
    obtain w where w: "for_each (\<lambda>c. rh_log (RReady c)) cs ?h = (Ret (), ?h\<lparr>rh_trace := rh_trace ?h @ w\<rparr>)"
      using Cons[of ?h] by blast
    have one: "rh_log (RReady c) h = (Ret (), ?h)" by (simp add: rh_log_def)
    have "for_each (\<lambda>c. rh_log (RReady c)) (c # cs) h = (Ret (), h\<lparr>rh_trace := rh_trace h @ RReady c # w\<rparr>)"
      unfolding for_each.simps seq_Ret[of "rh_log (RReady c)" h "()" ?h, OF one] w by simp
    then show ?case by blast
  qed
  define h1 where "h1 = h\<lparr>rh_num_requests_found := 0, rh_num_requests_bad := 0,
            rh_num_requests_old_window := 0, rh_num_requests_delayed := 0,
            rh_num_requests_uncategorized := 0, rh_num_buffer_cleanups := 0,
            rh_num_requests_timed_out := 0, rh_handled_requests := 0, rh_response_time_acc := 0,
            rh_pop_reqs := 0, rh_pops_count := 0, rh_payloads_written := 0, rh_bytes_written := 0\<rparr>"
  define t where "t = steady_us E (rh_trace h1)"
  define h2 where "h2 = h1\<lparr>rh_trace := rh_trace h1 @ [RClock t], rh_t0 := t\<rparr>"
  obtain w where w: "for_each (\<lambda>c. rh_log (RReady c)) (rh_frag_out_conn_ids h2) h2 = (Ret (), h2\<lparr>rh_trace := rh_trace h2 @ w\<rparr>)"
    using ready by blast
  have "rh_start E h = (Ret (), h2\<lparr>rh_trace := rh_trace h2 @ w, rh_pool := [], rh_run_marker := True\<rparr>)"
    unfolding rh_start_def using w by (simp add: h1_def[symmetric] h2_def t_def)
  then show ?thesis by (simp add: h2_def h1_def)
qed

lemma cleanup_on_empty_buffer:
  assumes "lb_ordered R" "lb_elements R (rh_latency_buffer h) = []"
  shows "fst (cleanup (rh_readout R) h) = Raise (UndefinedBehaviour ''m_latency_buffer->front()'')"
proof -
  have "cleanup_loop (rh_readout R) (rh_latency_buffer h, rh_pop_list h) 0 = Inr ((rh_latency_buffer h, rh_pop_list h), 0)"
    using assms by (subst cleanup_loop.simps) (simp add: cleanup_iter_def ordered_occupancy)
  then show ?thesis
    using assms by (simp add: cleanup_def cleanup_end_def front_timestamp_def ordered_front)
qed

text \<open>
  Stopping flushes the buffer but keeps the pop list and the waiting requests; when the module
  is started again with a nonempty pop list, the first cleanup, before data arrives, reads the
  front of an empty buffer.
\<close>

theorem restart_cleanup_reads_empty_buffer:
  assumes L: "lb_ordered R" and rec: "dh_request_receiver d = Some uid" and pops: "rh_pop_list (dh_handler d) \<noteq> []"
  shows "\<exists>d'. seq (dh_stop R) (dh_start E R run) d = (Ret (), d')
     \<and> rh_pop_list (dh_handler d') = rh_pop_list (dh_handler d)
     \<and> rh_waiting_requests (dh_handler d') = rh_waiting_requests (dh_handler d)
     \<and> lb_elements R (dh_buffer d') = []
     \<and> fst (on_handler (cleanup (rh_readout R)) d') = Raise (UndefinedBehaviour ''m_latency_buffer->front()'')"
proof -
  obtain d1 where d1: "dh_stop R d = (Ret (), d1)" "rh_pop_list (dh_handler d1) = rh_pop_list (dh_handler d)"
      "rh_waiting_requests (dh_handler d1) = rh_waiting_requests (dh_handler d)"
      "lb_elements R (dh_buffer d1) = []" "dh_request_receiver d1 = Some uid"
    using rec L by (simp add: dh_stop_def dh_log_def on_handler_def rh_stop_def focus_def set_buffer_def ordered_flush)
  obtain h' where h': "rh_start E (dh_handler d1) = (Ret (), h')" "rh_pop_list h' = rh_pop_list (dh_handler d1)"
      "rh_waiting_requests h' = rh_waiting_requests (dh_handler d1)" "rh_latency_buffer h' = dh_buffer d1"
    using rh_start_run[of E "dh_handler d1"] by (auto simp: dh_buffer_def)
  obtain d2 where d2: "dh_start E R run d1 = (Ret (), d2)" "dh_handler d2 = h'"
    using d1(5) h'(1) by (simp add: dh_start_def on_handler_def focus_def dh_log_def)
  have "fst (on_handler (cleanup (rh_readout R)) d2) = fst (cleanup (rh_readout R) (dh_handler d2))"
    by (simp add: on_handler_def focus_def split: prod.splits)
  then show ?thesis
    using d1 d2 h' cleanup_on_empty_buffer[OF L, of h'] by (auto simp: dh_buffer_def)
qed

section \<open>Counters\<close>

datatype ('b, 'e) dh_op =
    OpPayload "nat \<Rightarrow> 'b \<Rightarrow> 'b" 'e
  | OpPostprocess pp_state
  | OpTimesync timesync_state
  | OpDispatch DataRequest
  | OpMonitor

fun run_op :: "denv \<Rightarrow> ('b, 'e, 'p) handling \<Rightarrow> ('b, 'e) dh_op \<Rightarrow> ('b, 'p) data_handling \<Rightarrow> ('b, 'p) data_handling" where
  "run_op E R (OpPayload others x) d = (case process_item R others x d of None \<Rightarrow> d | Some d' \<Rightarrow> d')"
| "run_op E R (OpPostprocess pp) d = snd (postprocess_round E R pp d)"
| "run_op E R (OpTimesync l) d = snd (timesync_round E R l d)"
| "run_op E R (OpDispatch dr) d = snd (dispatch_requests dr d)"
| "run_op E R OpMonitor d = snd (dh_generate_opmon_data R d)"

fun published :: "dtrace \<Rightarrow> u64" where
  "published [] = 0"
| "published (DPublish i # t) = di_num_payloads i + published t"
| "published (e # t) = published t"

lemma published_append [simp]: "published (t @ u) = published t + published u"
  by (induction t rule: published.induct) (simp_all add: algebra_simps)

definition payload_balance :: "('b, 'p) data_handling \<Rightarrow> u64" where
  "payload_balance d = dh_sum_payloads d - dh_num_payloads d - published (dh_trace d)"

definition balanced :: "('b, 'p) data_handling \<Rightarrow> ('b, 'p) data_handling \<Rightarrow> bool" where
  "balanced d d' \<longleftrightarrow> payload_balance d' = payload_balance d"

interpretation balance: frame_order balanced
  by unfold_locales (simp_all add: balanced_def)

lemma balanced_I:
  assumes "dh_sum_payloads d' = dh_sum_payloads d + n" "dh_num_payloads d' = dh_num_payloads d + n"
    "published (dh_trace d') = published (dh_trace d)"
  shows "balanced d d'"
  using assms by (simp add: balanced_def payload_balance_def)

lemma keeps_balance_modifies:
  assumes "\<And>d. dh_sum_payloads (f d) = dh_sum_payloads d" "\<And>d. dh_num_payloads (f d) = dh_num_payloads d"
    "\<And>d. dh_trace (f d) = dh_trace d"
  shows "keeps balanced (modifies f)"
  using assms by (auto simp: keeps_def intro: balanced_I[where n = 0])

lemma keeps_balance_log: "published [e] = 0 \<Longrightarrow> keeps balanced (dh_log e)"
  by (auto simp: keeps_def dh_log_def intro: balanced_I[where n = 0])

lemma keeps_balance_handler: "keeps balanced (on_handler f)"
  by (auto simp: keeps_def on_handler_def focus_def split: prod.splits intro: balanced_I[where n = 0])

lemma fold_pp_element_trace: "dh_trace (fold (pp_element R) xs d) = dh_trace d"
  by (induction xs arbitrary: d) (simp_all add: pp_element_def count_payload_def)

lemma keeps_balance_elements: "keeps balanced (modifies (fold (pp_element R) xs))"
  unfolding keeps_def
  by (auto intro!: balanced_I[where n = "word_of_nat (length xs)"] simp: fold_pp_element fold_pp_element_trace)

lemmas balance_rules = balance.frame_rules keeps_balance_log keeps_balance_handler keeps_balance_elements

lemma keeps_balance_postprocess: "keeps balanced (postprocess_round E R pp)"
  unfolding postprocess_round_def pp_process_def dh_now_def
  by (auto intro!: balance_rules keeps_balance_modifies simp: pp_wait_def split: prod.splits)

lemma keeps_balance_timesync: "keeps balanced (timesync_round E R l)"
  unfolding timesync_round_def issue_fake_trigger_def send_time_sync_def Let_def
  by (auto intro!: balance_rules keeps_balance_modifies simp: count_request_def split: prod.splits)

lemma keeps_balance_dispatch: "keeps balanced (dispatch_requests dr)"
  unfolding dispatch_requests_def
  by (auto intro!: balance_rules keeps_balance_modifies simp: count_request_def)

lemma keeps_balance_monitor: "balanced d (snd (dh_generate_opmon_data R d))"
  by (simp add: dh_generate_opmon_data_def dh_log_def balanced_def payload_balance_def)

lemma keeps_balance_warn: "keeps balanced (warn_too_late R x)"
  unfolding warn_too_late_def Let_def by (auto intro!: balance_rules split: prod.splits)

lemma balance_store_item: "balanced d (store_item R x d)"
  by (cases "insert_payload R x (dh_buffer d)"; cases "snd (insert_payload R x (dh_buffer d))"; cases "dh_processing_delay_ticks d = 0")
    (auto intro: balanced_I[where n = 0] balanced_I[where n = 1] simp: store_item_def set_buffer_def count_payload_def)

lemma balance_process_item:
  assumes "process_item R others x d = Some d'"
  shows "balanced d d'"
proof -
  obtain y p where pre: "rp_preprocess R x (dh_processor d) = (y, p)" by fastforce
  let ?d = "d\<lparr>dh_processor := p\<rparr>"
  let ?e = "snd (warn_too_late R y ?d)"
  obtain b where b: "d' = store_item R y (set_buffer b ?e)"
    using assms by (auto simp: process_item_def pre Let_def)
  have "balanced d ?d" "balanced ?e (set_buffer b ?e)"
    by (auto intro: balanced_I[where n = 0] simp: set_buffer_def)
  moreover have "balanced ?d ?e" by (rule keepsD[OF keeps_balance_warn])
  moreover have "balanced (set_buffer b ?e) d'" unfolding b by (rule balance_store_item)
  ultimately show ?thesis by (simp add: balanced_def)
qed


text \<open>
  A request for another source is reported and nothing else; a request for this one is posted to
  the request handler and counted.
\<close>

lemma dispatch_requests_run:
  "dispatch_requests dr d =
     (Ret (), if dr_component dr = dh_sourceid d
        then count_request (d\<lparr>dh_handler := (dh_handler d)\<lparr>rh_pool := rh_pool (dh_handler d) @ [(dr, False)]\<rparr>\<rparr>)
        else d\<lparr>dh_trace := dh_trace d @ [DError (RequestSourceIDMismatch (dh_sourceid d) (dr_component dr))]\<rparr>)"
  by (simp add: dispatch_requests_def dh_log_def on_handler_def issue_request_def focus_def)

section \<open>A concrete module\<close>

text \<open>A buffer that sorts what it is given, with room for \<open>cap\<close> elements; the processor keeps the
  last time and the elements it post-processed.\<close>

definition sorting_handling ::
  "nat \<Rightarrow> ((u64 \<times> byte list) list, u64 \<times> byte list, u64 \<times> (u64 \<times> byte list) list) handling" where
  "sorting_handling cap =
     \<lparr>get_timestamp = fst, payload = snd, fragment_type = 1, subsystem = 2, header_size = 72,
      default_status_bits = 0, status_bit = status_bit list_readout,
      lb_occupancy = length, lb_front = (\<lambda>b. if b = [] then None else Some (hd (sort_key fst b))),
      lb_back = (\<lambda>b. if b = [] then None else Some (last (sort_key fst b))), lb_elements = sort_key fst,
      lb_pop = (\<lambda>n b. drop n (sort_key fst b)), lb_write = (\<lambda>x b. x # b),
      lb_expects_order = False, lb_is_full = (\<lambda>b. cap \<le> length b),
      lb_try_write = (\<lambda>x b. (b, False)), lb_write_and_return = (\<lambda>x b. (x # b, x, True)),
      lb_lower_bound = (\<lambda>b ts. length (takeWhile (\<lambda>x. fst x < ts) (sort_key fst b))),
      lb_flush = (\<lambda>_. []), lb_scrap = (\<lambda>_. []),
      rp_preprocess = (\<lambda>x (_, seen). (x, fst x, seen)), rp_postprocess = (\<lambda>x (t, seen). (t, seen @ [x])),
      rp_last_daq_time = fst, rp_reset_last_daq_time = (\<lambda>(_, seen). (0, seen)),
      rp_start = (\<lambda>p. p), rp_stop = (\<lambda>p. p), rp_scrap = (\<lambda>p. p),
      rh_cutoff = None, default_request = sample_request 0 0\<rparr>"

lemma sorting_handling_ordered: "lb_ordered (sorting_handling cap)"
proof -
  have "sort_key fst (drop n (sort_key fst b)) = drop n (sort_key fst b)" for n and b :: "(u64 \<times> byte list) list"
    by (rule sort_key_id_if_sorted) (simp add: drop_map[symmetric] sorted_wrt_drop)
  moreover have "sort_key fst b = [] \<longleftrightarrow> b = []" for b :: "(u64 \<times> byte list) list"
    by (metis length_0_conv length_sort)
  ultimately show ?thesis
    by (simp add: lb_ordered_def sorting_handling_def)
qed

lemma sorting_handling_sel [simp]:
  "lb_is_full (sorting_handling cap) b = (cap \<le> length b)" "lb_inserts (sorting_handling cap)"
  "rp_preprocess (sorting_handling cap) x (t, seen) = (x, fst x, seen)" "rp_last_daq_time (sorting_handling cap) = fst"
  "rp_postprocess (sorting_handling cap) x (t, seen) = (t, seen @ [x])"
  by (simp_all add: sorting_handling_def lb_inserts_def)

definition sample_data_handling :: "u64 \<Rightarrow> (u64 \<times> byte list) list \<Rightarrow> u64 list \<Rightarrow>
    ((u64 \<times> byte list) list, u64 \<times> (u64 \<times> byte list) list) data_handling" where
  "sample_data_handling delay b pops =
     \<lparr>dh_handler = sample_handler b pops, dh_processor = (0, []), dh_run_marker = True,
      dh_fake_trigger = False, dh_generate_timesync = True, dh_current_fake_trigger_id = 0,
      dh_sourceid = (2, 7), dh_run_number = 5, dh_processing_delay_ticks = delay,
      dh_post_processing_delay_min_wait = 0, dh_post_processing_delay_max_wait = 100,
      dh_supports_cutoff = False, dh_request_receiver = Some ''requests'',
      dh_timesync_connection_name = ''sync'', dh_baton = False, dh_timekeeper = True,
      dh_raw_data_callback_conf = ''raw'', dh_num_payloads = 0, dh_sum_payloads = 0,
      dh_num_requests = 0, dh_sum_requests = 0, dh_rawq_timeout_count = 0,
      dh_num_lb_insert_failures = 0, dh_num_post_processing_delay_max_waits = 0,
      dh_stats_packet_count = 0, dh_trace = []\<rparr>"

lemma sample_data_handling_sel [simp]:
  "dh_buffer (sample_data_handling delay b pops) = b" "dh_run_marker (sample_data_handling delay b pops)"
  "dh_processor (sample_data_handling delay b pops) = (0, [])" "dh_trace (sample_data_handling delay b pops) = []"
  "dh_processing_delay_ticks (sample_data_handling delay b pops) = delay"
  "dh_num_payloads (sample_data_handling delay b pops) = 0" "dh_sum_payloads (sample_data_handling delay b pops) = 0"
  "dh_num_lb_insert_failures (sample_data_handling delay b pops) = 0"
  "dh_request_receiver (sample_data_handling delay b pops) = Some ''requests''"
  "rh_pop_list (dh_handler (sample_data_handling delay b pops)) = pops"
  by (simp_all add: sample_data_handling_def dh_buffer_def)

definition sample_denv :: denv where
  "sample_denv = \<lparr>system_ns = (\<lambda>t. 5000000 * (1 + int (length t))), connects = (\<lambda>_. True),
     send_timesync = (\<lambda>_ _. True), baton_posted = (\<lambda>_. False)\<rparr>"

definition sample_pp :: pp_state where
  "sample_pp = \<lparr>pp_first_cycle = True, pp_last_post_proc_time = 0, pp_processed = 0\<rparr>"

theorem process_item_outcome_witness:
  "\<exists>d'. process_item (sorting_handling 5) (\<lambda>_ b. b) (30, [1]) (sample_data_handling 0 [(40, [2])] []) = Some d'
     \<and> (dh_processor d' = (30, [(30, [1])]) \<and> dh_num_payloads d' = 1 \<or> dh_num_lb_insert_failures d' = 1)"
proof -
  let ?R = "sorting_handling 5" and ?d = "sample_data_handling 0 [(40, [2])] []"
  have "\<not> lb_is_full ?R (after_sleeps (\<lambda>_ b. b) 0 (dh_buffer ?d))"
      "rp_preprocess ?R (30, [1]) (dh_processor ?d) = ((30, [1]), 30, [])" by simp_all
  from process_item_outcome[OF sorting_handling_sel(2) exI, OF this]
  obtain ok d' where "process_item ?R (\<lambda>_ b. b) (30, [1]) ?d = Some d'"
      "dh_num_lb_insert_failures d' = dh_num_lb_insert_failures ?d + (if ok then 0 else 1)"
      "dh_processor d' = (if ok \<and> dh_processing_delay_ticks ?d = 0 then rp_postprocess ?R (30, [1]) (30, []) else (30, []))"
      "dh_num_payloads d' = dh_num_payloads ?d + (if ok \<and> dh_processing_delay_ticks ?d = 0 then 1 else 0)"
    unfolding Let_def by blast
  then show ?thesis by (cases ok) simp_all
qed


theorem timesyncs_announce_changes_witness:
  "\<exists>l d' w. bind timesync_start (timesync_rounds sample_denv (sorting_handling 5) [(0, []), (5, []), (5, []), (7, [])])
       (sample_data_handling 0 [] []) = (Ret l, d') \<and> dh_trace d' = w
     \<and> map tsy_daq_time (timesyncs_of w) = [5, 7]"
  using timesyncs_announce_changes[of "sample_data_handling 0 [] []" sample_denv "sorting_handling 5" "[(0, []), (5, []), (5, []), (7, [])]"]
  by auto

theorem restart_cleanup_reads_empty_buffer_witness:
  "\<exists>d'. seq (dh_stop (sorting_handling 5)) (dh_start sample_renv (sorting_handling 5) None) (sample_data_handling 0 [(10, [1])] [10]) = (Ret (), d')
     \<and> fst (on_handler (cleanup (rh_readout (sorting_handling 5))) d') = Raise (UndefinedBehaviour ''m_latency_buffer->front()'')"
  using restart_cleanup_reads_empty_buffer[OF sorting_handling_ordered[of 5], of "sample_data_handling 0 [(10, [1])] [10]" "''requests''" sample_renv None]
  by auto


end
