(* ===== verification/File_Source.thy ===== *)
theory File_Source
  imports Std_Model
begin

text \<open>
  \<open>include/snbmodules/readout/FileSourceModel.hpp\<close> and \<open>detail/FileSourceModel.hxx\<close>: a source that
  replays recorded files. Its producer thread reads the elements of one file after the other and
  hands them to the callback of the data handler. The file reader, the registry of callbacks
  and the run marker, which the module's commands change, are parameters; each reading of the run
  marker and of the registry is an event, so that the answers may differ from one to the next.
\<close>

section \<open>Data\<close>

datatype 'e fevent =
    FMarker bool
  | FLookup bool
  | FDeliver 'e
  | FFatal string
  | FClose
  | FPublish i32 i32

type_synonym 'e ftrace = "'e fevent list"

text \<open>
  \<open>open_file\<close> constructs a reader, or throws (\<open>None\<close>); \<open>read_elem\<close> reads an element, or fails at
  the end of the file (\<open>None\<close>).
\<close>

record ('r, 'e) file_env =
  open_file :: "string \<Rightarrow> u32 \<Rightarrow> string \<Rightarrow> 'r option"
  read_elem :: "'r \<Rightarrow> ('e \<times> 'r) option"
  callback_registered :: "'e ftrace \<Rightarrow> bool"
  run_marker :: "'e ftrace \<Rightarrow> bool"

record ('r, 'e) file_source =
  fs_name :: string
  fs_is_configured :: bool
  fs_rate_khz :: string
  fs_file_names :: "string list"
  fs_file_iterator :: nat
  fs_input_buffer_size :: u32
  fs_compression_algorithm :: string
  fs_sourceid :: "u16 \<times> u32"
  fs_packet_count :: i32
  fs_packet_count_tot :: i32
  fs_raw_sender_conf :: "string option"
  fs_raw_data_callback :: bool
  fs_file_reader :: "'r option"
  fs_trace :: "'e ftrace"

type_synonym ('r, 'e, 'a) fs_action = "(('r, 'e) file_source, 'a) action"

record file_params =
  fp_data_files :: "string list"
  fp_input_buffer_size :: u32
  fp_compression_algorithm :: string

definition fs_log :: "'e fevent \<Rightarrow> ('r, 'e, unit) fs_action" where
  "fs_log e = modifies (\<lambda>s. s\<lparr>fs_trace := fs_trace s @ [e]\<rparr>)"

text \<open>The constructor; \<open>junk\<close> is what the members without initialiser hold. The rate is the text of a
  constant expression.\<close>

definition FileSourceModel_new :: "string \<Rightarrow> string \<Rightarrow> ('r, 'e) file_source \<Rightarrow> ('r, 'e) file_source" where
  "FileSourceModel_new name rate_khz junk =
     junk\<lparr>fs_name := name, fs_is_configured := False, fs_rate_khz := rate_khz, fs_file_names := [],
       fs_packet_count := 0, fs_packet_count_tot := 0, fs_raw_sender_conf := None,
       fs_raw_data_callback := False, fs_file_reader := None, fs_trace := []\<rparr>"

section \<open>Operations\<close>

definition set_sender :: "string \<Rightarrow> ('r, 'e, unit) fs_action" where
  "set_sender sink = modifies (\<lambda>s. s\<lparr>fs_raw_sender_conf := Some sink\<rparr>)"

definition close_reader :: "('r, 'e, unit) fs_action" where
  "close_reader =
     seq (bind (reads fs_file_reader) (\<lambda>r. if r \<noteq> None then fs_log FClose else return ()))
     (modifies (\<lambda>s. s\<lparr>fs_file_reader := None, fs_is_configured := False\<rparr>))"

definition open_next_file :: "('r, 'e) file_env \<Rightarrow> ('r, 'e, unit) fs_action" where
  "open_next_file E =
     bind (reads (\<lambda>s. (fs_file_iterator s, fs_file_names s, fs_input_buffer_size s, fs_compression_algorithm s)))
       (\<lambda>(i, names, sz, algo).
       if i = length names then close_reader
       else if i < length names then
         (case open_file E (names ! i) sz algo of
            None \<Rightarrow> seq (fs_log (FFatal (names ! i))) (throw (ErsIssue ''ConfigurationError''))
          | Some r \<Rightarrow> modifies (\<lambda>s. s\<lparr>fs_file_reader := Some r, fs_file_iterator := i + 1\<rparr>))
       else throw (UndefinedBehaviour ''m_file_iterator''))"

text \<open>\<open>link_conf\<close> is the source identifier of a stream, or a null pointer.\<close>

definition fs_conf :: "('r, 'e) file_env \<Rightarrow> u16 \<Rightarrow> u32 option \<Rightarrow> file_params \<Rightarrow> ('r, 'e, unit) fs_action" where
  "fs_conf E subsystem link_conf params =
     bind (reads fs_is_configured) (\<lambda>configured.
       if configured then return ()
       else (case link_conf of
           None \<Rightarrow> throw (UndefinedBehaviour ''link_conf'')
         | Some sid \<Rightarrow>
             seq (modifies (\<lambda>s. s\<lparr>fs_sourceid := (subsystem, sid), fs_file_names := fp_data_files params,
                    fs_file_iterator := 0, fs_input_buffer_size := fp_input_buffer_size params,
                    fs_compression_algorithm := fp_compression_algorithm params\<rparr>))
             (seq (open_next_file E)
             (modifies (\<lambda>s. s\<lparr>fs_is_configured := True\<rparr>)))))"

definition fs_scrap :: "('r, 'e, unit) fs_action" where
  "fs_scrap = close_reader"

text \<open>\<open>start\<close> without the thread it starts, which runs \<open>run_produce\<close>.\<close>

definition fs_start :: "('r, 'e, unit) fs_action" where
  "fs_start = modifies (\<lambda>s. s\<lparr>fs_packet_count_tot := 0\<rparr>)"

definition fs_generate_opmon_data :: "('r, 'e, unit) fs_action" where
  "fs_generate_opmon_data =
     bind (reads (\<lambda>s. (fs_packet_count_tot s, fs_packet_count s))) (\<lambda>(tot, n).
     seq (modifies (\<lambda>s. s\<lparr>fs_packet_count := 0\<rparr>)) (fs_log (FPublish tot n)))"

section \<open>The producer thread\<close>

definition see :: "('e ftrace \<Rightarrow> bool) \<Rightarrow> (bool \<Rightarrow> 'e fevent) \<Rightarrow> ('r, 'e) file_source \<Rightarrow> bool \<times> ('r, 'e) file_source" where
  "see f ev s = (f (fs_trace s), s\<lparr>fs_trace := fs_trace s @ [ev (f (fs_trace s))]\<rparr>)"

text \<open>The loop that waits for a callback. Waiting forever is \<open>None\<close>.\<close>

partial_function (option) wait_callback :: "('r, 'e) file_env \<Rightarrow> ('r, 'e) file_source \<Rightarrow> ('r, 'e) file_source option" where
  "wait_callback E s =
     (if fs_raw_data_callback s then Some s
      else let (running, s1) = see (run_marker E) FMarker s in
           if \<not> running then Some s1
           else let (found, s2) = see (callback_registered E) FLookup s1 in
                wait_callback E (s2\<lparr>fs_raw_data_callback := found\<rparr>))"

definition deliver :: "'e \<Rightarrow> ('r, 'e) file_source \<Rightarrow> ('r, 'e) file_source" where
  "deliver x s = s\<lparr>fs_trace := fs_trace s @ [FDeliver x], fs_packet_count := fs_packet_count s + 1,
     fs_packet_count_tot := fs_packet_count_tot s + 1\<rparr>"

text \<open>The loop of \<open>run_produce\<close>. Running forever is \<open>None\<close>.\<close>

partial_function (option) run_produce :: "('r, 'e) file_env \<Rightarrow> ('r, 'e) file_source \<Rightarrow> (unit outcome \<times> ('r, 'e) file_source) option" where
  "run_produce E s0 =
     (let (running, s) = see (run_marker E) FMarker s0 in
      if \<not> running then Some (Ret (), s)
      else case fs_file_reader s of
        None \<Rightarrow> Some (Raise (UndefinedBehaviour ''m_file_reader''), s)
      | Some r \<Rightarrow>
          (case read_elem E r of
             None \<Rightarrow>
               (case open_next_file E s of
                  (Raise e, s1) \<Rightarrow> Some (Raise e, s1)
                | (Ret _, s1) \<Rightarrow> if fs_is_configured s1 then run_produce E s1 else Some (Ret (), s1))
           | Some (x, r') \<Rightarrow>
               (case wait_callback E (s\<lparr>fs_file_reader := Some r'\<rparr>) of
                  None \<Rightarrow> None
                | Some s1 \<Rightarrow>
                    let (running, s2) = see (run_marker E) FMarker s1 in
                    if \<not> running then Some (Ret (), s2)
                    else if \<not> fs_raw_data_callback s2 then Some (Raise (UndefinedBehaviour ''m_raw_data_callback''), s2)
                    else run_produce E (deliver x s2))))"

section \<open>What the producer delivers\<close>

text \<open>A reader that yields the elements \<open>xs\<close> and then fails.\<close>

primrec reads_as :: "('r, 'e) file_env \<Rightarrow> 'r \<Rightarrow> 'e list \<Rightarrow> bool" where
  "reads_as E r [] \<longleftrightarrow> read_elem E r = None"
| "reads_as E r (x # xs) \<longleftrightarrow> (\<exists>r'. read_elem E r = Some (x, r') \<and> reads_as E r' xs)"

fun delivered :: "'e ftrace \<Rightarrow> 'e list" where
  "delivered [] = []"
| "delivered (FDeliver x # t) = x # delivered t"
| "delivered (e # t) = delivered t"

lemma delivered_append [simp]: "delivered (t @ u) = delivered t @ delivered u"
  by (induction t rule: delivered.induct) simp_all

text \<open>A callback that is registered after a while: the wait ends.\<close>

lemma wait_callback_ends:
  assumes "\<forall>t. run_marker E t" "\<forall>t. N \<le> length t \<longrightarrow> callback_registered E t"
  shows "\<exists>w. wait_callback E s = Some (s\<lparr>fs_raw_data_callback := True, fs_trace := fs_trace s @ w\<rparr>) \<and> delivered w = []"
proof (induction "N - length (fs_trace s)" arbitrary: s rule: less_induct)
  case less
  show ?case
  proof (cases "fs_raw_data_callback s")
    case True
    then show ?thesis by (intro exI[of _ "[]"]) (simp add: wait_callback.simps)
  next
    case False
    let ?t = "fs_trace s @ [FMarker True]"
    let ?f = "callback_registered E ?t"
    let ?s = "s\<lparr>fs_trace := ?t @ [FLookup ?f], fs_raw_data_callback := ?f\<rparr>"
    have step: "wait_callback E s = wait_callback E ?s"
      using False assms(1) by (subst wait_callback.simps) (simp add: see_def)
    have "\<exists>w. wait_callback E ?s = Some (?s\<lparr>fs_raw_data_callback := True, fs_trace := fs_trace ?s @ w\<rparr>) \<and> delivered w = []"
    proof (cases ?f)
      case True
      then show ?thesis by (intro exI[of _ "[]"]) (simp add: wait_callback.simps)
    next
      case False
      then have "length ?t < N" using assms(2) by (metis not_le)
      then have "N - length (fs_trace ?s) < N - length (fs_trace s)" by simp
      from less[OF this] show ?thesis .
    qed
    then obtain w where "wait_callback E ?s = Some (?s\<lparr>fs_raw_data_callback := True, fs_trace := fs_trace ?s @ w\<rparr>)" "delivered w = []"
      by blast
    then show ?thesis using step by (intro exI[of _ "[FMarker True, FLookup ?f] @ w"]) simp
  qed
qed

definition plays :: "('r, 'e) file_env \<Rightarrow> ('r, 'e) file_source \<Rightarrow> 'e list \<Rightarrow> bool" where
  "plays E s zs \<longleftrightarrow> (\<exists>s' w. run_produce E s = Some (Ret (), s') \<and> fs_trace s' = fs_trace s @ w
     \<and> delivered w = zs \<and> fs_packet_count_tot s' = fs_packet_count_tot s + word_of_nat (length zs)
     \<and> fs_packet_count s' = fs_packet_count s + word_of_nat (length zs)
     \<and> \<not> fs_is_configured s' \<and> fs_file_reader s' = None)"

lemma plays_step:
  assumes live: "\<forall>t. run_marker E t" "\<forall>t. N \<le> length t \<longrightarrow> callback_registered E t"
    and rd: "fs_file_reader s = Some r" "read_elem E r = Some (x, r')"
    and rest: "\<And>t. plays E (s\<lparr>fs_file_reader := Some r', fs_raw_data_callback := True, fs_trace := t,
                 fs_packet_count := fs_packet_count s + 1, fs_packet_count_tot := fs_packet_count_tot s + 1\<rparr>) zs"
  shows "plays E s (x # zs)"
proof -
  let ?s1 = "s\<lparr>fs_trace := fs_trace s @ [FMarker True], fs_file_reader := Some r'\<rparr>"
  obtain w where w: "wait_callback E ?s1 = Some (?s1\<lparr>fs_raw_data_callback := True, fs_trace := fs_trace ?s1 @ w\<rparr>)" "delivered w = []"
    using wait_callback_ends[OF live] by blast
  let ?t = "fs_trace s @ [FMarker True] @ w @ [FMarker True, FDeliver x]"
  let ?s2 = "s\<lparr>fs_file_reader := Some r', fs_raw_data_callback := True, fs_trace := ?t,
                 fs_packet_count := fs_packet_count s + 1, fs_packet_count_tot := fs_packet_count_tot s + 1\<rparr>"
  have "run_produce E s = run_produce E ?s2"
    using live(1) rd w(1) by (subst run_produce.simps) (simp add: see_def deliver_def)
  moreover obtain s' v where "run_produce E ?s2 = Some (Ret (), s')" "fs_trace s' = ?t @ v" "delivered v = zs"
      "fs_packet_count_tot s' = fs_packet_count_tot s + 1 + word_of_nat (length zs)"
      "fs_packet_count s' = fs_packet_count s + 1 + word_of_nat (length zs)"
      "\<not> fs_is_configured s'" "fs_file_reader s' = None"
    using rest[of ?t] by (auto simp: plays_def)
  ultimately show ?thesis
    unfolding plays_def using w(2)
    by (intro exI[of _ s'] exI[of _ "[FMarker True] @ w @ [FMarker True, FDeliver x] @ v"]) (simp add: algebra_simps)
qed

definition file_holds :: "('r, 'e) file_env \<Rightarrow> ('r, 'e) file_source \<Rightarrow> string \<Rightarrow> 'e list \<Rightarrow> bool" where
  "file_holds E s f ys \<longleftrightarrow> (\<exists>r. open_file E f (fs_input_buffer_size s) (fs_compression_algorithm s) = Some r \<and> reads_as E r ys)"

lemma run_produce_plays:
  assumes live: "\<forall>t. run_marker E t" "\<forall>t. N \<le> length t \<longrightarrow> callback_registered E t"
    and "list_all2 (file_holds E s) (drop (fs_file_iterator s) (fs_file_names s)) yss"
    and "fs_file_iterator s \<le> length (fs_file_names s)" "fs_is_configured s"
    and "fs_file_reader s = Some r" "reads_as E r xs"
  shows "plays E s (xs @ concat yss)"
  using assms(3-)
proof (induction yss arbitrary: s r xs rule: list.induct)
  case Nil
  from Nil.prems show ?case
  proof (induction xs arbitrary: s r rule: list.induct)
    case Nil
    let ?s = "s\<lparr>fs_trace := fs_trace s @ [FMarker True, FClose], fs_file_reader := None, fs_is_configured := False\<rparr>"

    have "fs_file_iterator s = length (fs_file_names s)" using Nil.prems(1,2) by simp
    moreover have "read_elem E r = None" using Nil.prems(5) by simp
    ultimately have "run_produce E s = Some (Ret (), ?s)"
      using Nil.prems(3,4) live(1) by (subst run_produce.simps) (simp add: see_def open_next_file_def close_reader_def fs_log_def)
    then show ?case by (simp add: plays_def)
  next
    case (Cons x xs)
    then obtain r' where "read_elem E r = Some (x, r')" "reads_as E r' xs" by auto
    then show ?case
      using plays_step[OF live Cons.prems(4)] Cons by (simp add: file_holds_def[abs_def])
  qed
next
  case outer: (Cons ys yss)
  from outer.prems show ?case
  proof (induction xs arbitrary: s r rule: list.induct)
    case Nil
    let ?i = "fs_file_iterator s"
    have i: "?i < length (fs_file_names s)" using Nil.prems(1) by (auto dest: list_all2_lengthD)
    then have dr: "drop ?i (fs_file_names s) = fs_file_names s ! ?i # drop (?i + 1) (fs_file_names s)"
      by (simp add: Cons_nth_drop_Suc)
    obtain r' where r': "open_file E (fs_file_names s ! ?i) (fs_input_buffer_size s) (fs_compression_algorithm s) = Some r'" "reads_as E r' ys"
      using Nil.prems(1) by (auto simp: dr file_holds_def)
    let ?s = "s\<lparr>fs_trace := fs_trace s @ [FMarker True], fs_file_reader := Some r', fs_file_iterator := ?i + 1\<rparr>"
    have step: "run_produce E s = run_produce E ?s"
      using Nil live(1) i r'(1) by (subst run_produce.simps) (simp add: see_def open_next_file_def)
    have "file_holds E ?s = file_holds E s" by (simp add: file_holds_def[abs_def])
    then have "plays E ?s (ys @ concat yss)"
      using outer.IH[of ?s r' ys] Nil.prems i r'(2) by (simp add: dr)
    then obtain s' w where "run_produce E ?s = Some (Ret (), s')" "fs_trace s' = fs_trace s @ FMarker True # w"
        "delivered w = ys @ concat yss" "fs_packet_count_tot s' = fs_packet_count_tot s + word_of_nat (length (ys @ concat yss))"
        "fs_packet_count s' = fs_packet_count s + word_of_nat (length (ys @ concat yss))"
        "\<not> fs_is_configured s'" "fs_file_reader s' = None" by (auto simp: plays_def)
    then show ?case unfolding plays_def step
      by (intro exI[of _ s'] exI[of _ "FMarker True # w"]) simp
  next
    case (Cons x xs)
    then obtain r' where "read_elem E r = Some (x, r')" "reads_as E r' xs" by auto
    then show ?case
      using plays_step[OF live Cons.prems(4)] Cons by (simp add: file_holds_def[abs_def])
  qed
qed

text \<open>A source at the first of its files plays them all.\<close>

lemma first_file_plays:
  assumes live: "\<forall>t. run_marker E t" "\<forall>t. N \<le> length t \<longrightarrow> callback_registered E t"
    and "fs_file_names s = f # fs" "fs_file_iterator s = 1" "fs_is_configured s" "fs_file_reader s = Some r"
    and "reads_as E r ys" "list_all2 (file_holds E s) fs yss"
  shows "plays E s (ys @ concat yss)"
  using run_produce_plays[OF live, of s yss r ys] assms(3-) by simp

text \<open>
  C13: while the run lasts and once the callback is registered, a configured source delivers every
  element of every file, in order and each once, counts them, and ends by itself, unconfigured.
\<close>

theorem source_plays_every_file:
  assumes live: "\<forall>t. run_marker E t" "\<forall>t. N \<le> length t \<longrightarrow> callback_registered E t"
    and files: "list_all2 (\<lambda>f ys. \<exists>r. open_file E f (fp_input_buffer_size params) (fp_compression_algorithm params) = Some r
                  \<and> reads_as E r ys) (fp_data_files params) yss"
    and "fp_data_files params \<noteq> []" "\<not> fs_is_configured s"
  shows "\<exists>s1 s2 w. seq (fs_conf E sub (Some sid) params) fs_start s = (Ret (), s1) \<and> fs_is_configured s1
     \<and> run_produce E s1 = Some (Ret (), s2) \<and> fs_trace s2 = fs_trace s1 @ w
     \<and> delivered w = concat yss \<and> fs_packet_count_tot s2 = word_of_nat (length (concat yss))
     \<and> \<not> fs_is_configured s2 \<and> fs_file_reader s2 = None"
proof -
  obtain f fs ys yss' where fy: "fp_data_files params = f # fs" "yss = ys # yss'"
    using files assms(4) by (cases "fp_data_files params"; cases yss) auto
  obtain r where r: "open_file E f (fp_input_buffer_size params) (fp_compression_algorithm params) = Some r" "reads_as E r ys"
    using files by (auto simp: fy)
  obtain s1 where s1: "seq (fs_conf E sub (Some sid) params) fs_start s = (Ret (), s1)" "fs_is_configured s1"
      "fs_file_names s1 = f # fs" "fs_file_iterator s1 = 1" "fs_file_reader s1 = Some r"
      "fs_input_buffer_size s1 = fp_input_buffer_size params" "fs_compression_algorithm s1 = fp_compression_algorithm params"
      "fs_packet_count_tot s1 = 0"
    using assms(5) r(1) by (simp add: fs_conf_def open_next_file_def fs_start_def fy)
  have "plays E s1 (ys @ concat yss')"
    using run_produce_plays[OF live, of s1 yss' r ys] files s1 r(2) by (simp add: fy file_holds_def[abs_def])
  then show ?thesis using s1 by (auto simp: plays_def fy)
qed

text \<open>
  A source that has played its files, or that was configured with no file, has no reader but
  can be started again (in the second case it even counts as configured): its producer then reads
  through a null pointer.
\<close>

theorem producer_without_reader:
  assumes "run_marker E (fs_trace s)" "fs_file_reader s = None"
  shows "map_option fst (run_produce E (snd (fs_start s))) = Some (Raise (UndefinedBehaviour ''m_file_reader''))
     \<and> (\<not> fs_is_configured s \<longrightarrow>
          (\<exists>s1. fs_conf E sub (Some sid) \<lparr>fp_data_files = [], fp_input_buffer_size = n, fp_compression_algorithm = algo\<rparr> s = (Ret (), s1)
            \<and> fs_is_configured s1 \<and> fs_file_reader s1 = None))"
proof -
  have "map_option fst (run_produce E (snd (fs_start s))) = Some (Raise (UndefinedBehaviour ''m_file_reader''))"
    using assms by (subst run_produce.simps) (simp add: fs_start_def see_def)
  then show ?thesis
    using assms(2) by (auto simp: fs_conf_def open_next_file_def close_reader_def fs_log_def)
qed

text \<open>
  When the run is stopped between the reading of an element and its delivery, the element is lost:
  the next run continues behind it.
\<close>

lemma stop_loses_element:
  assumes "run_marker E (fs_trace s)" "fs_file_reader s = Some r" "read_elem E r = Some (x, r')"
    "fs_raw_data_callback s" "\<not> run_marker E (fs_trace s @ [FMarker True])"
  shows "\<exists>s'. run_produce E s = Some (Ret (), s') \<and> delivered (fs_trace s') = delivered (fs_trace s)
     \<and> fs_file_reader s' = Some r'"
  using assms by (subst run_produce.simps) (simp add: see_def wait_callback.simps)

section \<open>A concrete source\<close>

text \<open>A reader is the list of the elements left in its file; the callback is registered late.\<close>

definition sample_file_env :: "(nat list, nat) file_env" where
  "sample_file_env =
     \<lparr>open_file = (\<lambda>f _ _. if f = ''a'' then Some [1, 2] else if f = ''b'' then Some [3] else None),
      read_elem = (\<lambda>r. case r of [] \<Rightarrow> None | x # xs \<Rightarrow> Some (x, xs)),
      callback_registered = (\<lambda>t. 3 \<le> length t), run_marker = (\<lambda>_. True)\<rparr>"

definition sample_source :: "(nat list, nat) file_source" where
  "sample_source = FileSourceModel_new ''src'' ''10'' \<lparr>fs_name = [], fs_is_configured = True, fs_rate_khz = [],
     fs_file_names = [], fs_file_iterator = 0, fs_input_buffer_size = 0, fs_compression_algorithm = [],
     fs_sourceid = (0, 0), fs_packet_count = 0, fs_packet_count_tot = 0, fs_raw_sender_conf = None,
     fs_raw_data_callback = False, fs_file_reader = None, fs_trace = []\<rparr>"

lemma sample_source_sel [simp]: "\<not> fs_is_configured sample_source" "fs_file_reader sample_source = None"
  "fs_trace sample_source = []"
  by (simp_all add: sample_source_def FileSourceModel_new_def)

theorem source_plays_every_file_witness:
  "\<exists>s1 s2 w. seq (fs_conf sample_file_env 2 (Some 7)
        \<lparr>fp_data_files = [''a'', ''b''], fp_input_buffer_size = 8, fp_compression_algorithm = ''None''\<rparr>) fs_start sample_source = (Ret (), s1)
     \<and> run_produce sample_file_env s1 = Some (Ret (), s2) \<and> fs_trace s2 = fs_trace s1 @ w \<and> delivered w = [1, 2, 3]"
proof -
  let ?E = sample_file_env and ?p = "\<lparr>fp_data_files = [''a'', ''b''], fp_input_buffer_size = 8, fp_compression_algorithm = ''None''\<rparr>"
  have "\<forall>t. run_marker ?E t" "\<forall>t. 3 \<le> length t \<longrightarrow> callback_registered ?E t"
      "list_all2 (\<lambda>f ys. \<exists>r. open_file ?E f (fp_input_buffer_size ?p) (fp_compression_algorithm ?p) = Some r \<and> reads_as ?E r ys)
         (fp_data_files ?p) [[1, 2], [3]]" "fp_data_files ?p \<noteq> []"
    by (simp_all add: sample_file_env_def)
  from source_plays_every_file[OF this sample_source_sel(1), of 2 7] show ?thesis by auto
qed

theorem producer_without_reader_witness:
  "map_option fst (run_produce sample_file_env (snd (fs_start sample_source))) = Some (Raise (UndefinedBehaviour ''m_file_reader''))"
  using producer_without_reader[of sample_file_env sample_source] by (simp add: sample_file_env_def)

end
