(* ===== verification/File_Reader.thy ===== *)
theory File_Reader
  imports File_Source
begin

text \<open>
  \<open>src/readout/FileReaderBase.cpp\<close> with the module \<open>plugins/SNBFileReaderModule.cpp\<close>, which owns one
  file source per raw data callback, and the choice of the readout in
  \<open>plugins/SNBDataHandlerModule.cpp\<close>. The configuration objects of the framework are records; the
  constants of the readout types are parameters.
\<close>

section \<open>Readout types\<close>

datatype frame_type = DUNEWIBEth | DAPHNESuperChunk | DAPHNEStream | TDEEth | CRTBern | CRTGrenoble | DAPHNEEth

record frame_params =
  frame_subsystem :: "frame_type \<Rightarrow> u16"
  frame_rate_khz :: "frame_type \<Rightarrow> string"

text \<open>\<open>create_source_emulator\<close>: the chain of tests on the data type.\<close>

definition source_frame :: "string \<Rightarrow> frame_type option" where
  "source_frame raw_dt =
     (if str_contains raw_dt ''WIBEthFrame'' then Some DUNEWIBEth
      else if str_contains raw_dt ''PDSFrame'' then Some DAPHNESuperChunk
      else if str_contains raw_dt ''PDSStreamFrame'' then Some DAPHNEStream
      else if str_contains raw_dt ''TDEEthFrame'' then Some TDEEth
      else if str_contains raw_dt ''CRTBernFrame'' then Some CRTBern
      else if str_contains raw_dt ''CRTGrenobleFrame'' then Some CRTGrenoble
      else None)"

definition source_rate :: "frame_params \<Rightarrow> frame_type \<Rightarrow> string" where
  "source_rate P ft = (if ft = CRTBern \<or> ft = CRTGrenoble then ''100'' else frame_rate_khz P ft)"

text \<open>\<open>create_readout\<close>: the template arguments it chooses and the name it registers.\<close>

record readout_model =
  rm_type :: frame_type
  rm_buffer :: string
  rm_processor :: string
  rm_node :: string

definition fixed_rate :: "frame_type \<Rightarrow> string \<Rightarrow> string \<Rightarrow> readout_model" where
  "fixed_rate ft processor node = \<lparr>rm_type = ft, rm_buffer = ''FixedRateQueueModel'', rm_processor = processor, rm_node = node\<rparr>"

definition create_readout :: "string \<Rightarrow> readout_model option" where
  "create_readout raw_dt =
     (if str_contains raw_dt ''WIBEthFrame'' then Some (fixed_rate DUNEWIBEth ''WIBEthFrameProcessor'' ''WIBEthFrameProcessor'')
      else if str_contains raw_dt ''CRTBernFrame'' then Some (fixed_rate CRTBern ''CRTBernFrameProcessor'' ''CRTBernFrameProcessor'')
      else if str_contains raw_dt ''CRTGrenobleFrame'' then Some (fixed_rate CRTGrenoble ''CRTGrenobleFrameProcessor'' ''CRTGrenobleFrameProcessor'')
      else if str_contains raw_dt ''TDEEthFrame'' then Some (fixed_rate TDEEth ''TDEEthFrameProcessor'' ''TDEEthFrameProcessor'')
      else if str_contains raw_dt ''PDSFrame'' then Some (fixed_rate DAPHNESuperChunk ''DAPHNEFrameProcessor'' ''PDSFrameProcessor'')
      else if str_contains raw_dt ''DAPHNEEthFrame'' then Some (fixed_rate DAPHNEEth ''DAPHNEEthFrameProcessor'' ''DAPHNEEthFrameProcessor'')
      else if str_contains raw_dt ''PDSStreamFrame'' then Some (fixed_rate DAPHNEStream ''DAPHNEStreamFrameProcessor'' ''PDSStreamFrameProcessor'')
      else None)"

section \<open>State\<close>

record callback_conf =
  cb_uid :: string
  cb_data_type :: string
  cb_source_id :: u32

record reader_conf =
  rc_emulation_mode :: bool
  rc_raw_data_callbacks :: "callback_conf list"
  rc_streams :: "u32 list"
  rc_snb_conf :: file_params

text \<open>A source is kept with its type; a null pointer is \<open>None\<close>.\<close>

type_synonym ('r, 'e) emulator = "frame_type \<times> ('r, 'e) file_source"

record ('r, 'e) file_reader =
  frb_configured :: bool
  frb_name :: string
  frb_source_emus :: "(string \<times> ('r, 'e) emulator option) list"
  frb_run_marker :: bool

type_synonym ('r, 'e, 'a) frb_action = "(('r, 'e) file_reader, 'a) action"

definition FileReaderBase_new :: "string \<Rightarrow> ('r, 'e) file_reader" where
  "FileReaderBase_new name = \<lparr>frb_configured = False, frb_name = name, frb_source_emus = [], frb_run_marker = False\<rparr>"

definition create_source_emulator :: "frame_params \<Rightarrow> ('r, 'e) file_source \<Rightarrow> callback_conf \<Rightarrow> ('r, 'e) emulator option" where
  "create_source_emulator P junk cb =
     map_option (\<lambda>ft. (ft, FileSourceModel_new (cb_uid cb) (source_rate P ft) junk)) (source_frame (cb_data_type cb))"

definition put_emu :: "string \<Rightarrow> ('r, 'e) emulator option \<Rightarrow> ('r, 'e) file_reader \<Rightarrow> ('r, 'e) file_reader" where
  "put_emu uid e s = s\<lparr>frb_source_emus := smap_put uid e (frb_source_emus s)\<rparr>"

text \<open>A call on the source under a name.\<close>

definition on_source :: "string \<Rightarrow> (frame_type \<Rightarrow> ('r, 'e, 'a) fs_action) \<Rightarrow> ('r, 'e, 'a) frb_action" where
  "on_source uid f =
     bind (reads (\<lambda>s. map_of (frb_source_emus s) uid)) (\<lambda>e. case e of
       Some (Some (ft, src)) \<Rightarrow>
         (case f ft src of (r, src') \<Rightarrow> seq (modifies (put_emu uid (Some (ft, src')))) (of_outcome r))
     | _ \<Rightarrow> throw (UndefinedBehaviour ''m_source_emus''))"

definition each_source :: "(frame_type \<Rightarrow> ('r, 'e, unit) fs_action) \<Rightarrow> ('r, 'e, unit) frb_action" where
  "each_source f = bind (reads (\<lambda>s. map fst (frb_source_emus s))) (for_each (\<lambda>uid. on_source uid f))"

section \<open>Operations\<close>

definition init_callback :: "frame_params \<Rightarrow> ('r, 'e) file_source \<Rightarrow> callback_conf \<Rightarrow> ('r, 'e, unit) frb_action" where
  "init_callback P junk cb =
     bind (reads (\<lambda>s. map_of (frb_source_emus s) (cb_uid cb))) (\<lambda>e.
       if e \<noteq> None then throw (ErsIssue ''ResourceQueueError'')
       else seq (modifies (put_emu (cb_uid cb) (create_source_emulator P junk cb)))
         (if create_source_emulator P junk cb = None then throw (ErsIssue ''ResourceQueueError'') else return ()))"

definition frb_init :: "frame_params \<Rightarrow> ('r, 'e) file_source \<Rightarrow> reader_conf option \<Rightarrow> ('r, 'e, unit) frb_action" where
  "frb_init P junk ini =
     (case ini of
        Some c \<Rightarrow> if rc_emulation_mode c then for_each (init_callback P junk) (rc_raw_data_callbacks c) else return ()
      | None \<Rightarrow> return ())"

text \<open>A source identifier without a stream gives the null pointer that \<open>operator[]\<close> inserts.\<close>

definition conf_callback :: "('r, 'e) file_env \<Rightarrow> frame_params \<Rightarrow> reader_conf \<Rightarrow> callback_conf \<Rightarrow> ('r, 'e, unit) frb_action" where
  "conf_callback E P c cb =
     bind (reads (\<lambda>s. map_of (frb_source_emus s) (cb_uid cb))) (\<lambda>e. case e of
       None \<Rightarrow> throw (ErsIssue ''GenericConfigurationError'')
     | Some None \<Rightarrow> throw (UndefinedBehaviour ''m_source_emus'')
     | Some (Some (ft, src)) \<Rightarrow>
         if fs_is_configured src then throw (ErsIssue ''GenericConfigurationError'')
         else on_source (cb_uid cb) (\<lambda>ft. seq (set_sender (cb_uid cb))
                (fs_conf E (frame_subsystem P ft)
                   (if cb_source_id cb \<in> set (rc_streams c) then Some (cb_source_id cb) else None) (rc_snb_conf c))))"

definition check_configured :: "(string \<times> ('r, 'e) emulator option) \<Rightarrow> ('r, 'e, unit) frb_action" where
  "check_configured = (\<lambda>(name, emu). case emu of
     None \<Rightarrow> throw (UndefinedBehaviour ''m_source_emus'')
   | Some (ft, src) \<Rightarrow> if fs_is_configured src then return () else throw (ErsIssue ''GenericConfigurationError''))"

definition frb_conf :: "('r, 'e) file_env \<Rightarrow> frame_params \<Rightarrow> reader_conf option \<Rightarrow> ('r, 'e, unit) frb_action" where
  "frb_conf E P cfg =
     bind (reads frb_configured) (\<lambda>configured.
       if configured then return ()
       else (case cfg of
           None \<Rightarrow> throw (UndefinedBehaviour ''cfg'')
         | Some c \<Rightarrow>
             seq (for_each (conf_callback E P c) (rc_raw_data_callbacks c))
             (seq (bind (reads frb_source_emus) (for_each check_configured))
             (modifies (\<lambda>s. s\<lparr>frb_configured := True\<rparr>)))))"

definition frb_scrap :: "('r, 'e, unit) frb_action" where
  "frb_scrap = seq (each_source (\<lambda>_. fs_scrap)) (modifies (\<lambda>s. s\<lparr>frb_configured := False\<rparr>))"

definition frb_start :: "('r, 'e, unit) frb_action" where
  "frb_start = seq (modifies (\<lambda>s. s\<lparr>frb_run_marker := True\<rparr>)) (each_source (\<lambda>_. fs_start))"

text \<open>\<open>stop\<close> of a source only waits for its thread.\<close>

definition frb_stop :: "('r, 'e, unit) frb_action" where
  "frb_stop = modifies (\<lambda>s. s\<lparr>frb_run_marker := False\<rparr>)"

section \<open>Initialisation\<close>

lemma frb_emus_put [simp]:
  "map_of (frb_source_emus (put_emu uid e s)) = (map_of (frb_source_emus s))(uid := Some e)"
  "frb_configured (put_emu uid e s) = frb_configured s"
  "smap_inv (frb_source_emus s) \<Longrightarrow> smap_inv (frb_source_emus (put_emu uid e s))"
  by (simp_all add: put_emu_def smap_inv_put)

definition emus_of :: "frame_params \<Rightarrow> ('r, 'e) file_source \<Rightarrow> callback_conf list \<Rightarrow> (string \<times> ('r, 'e) emulator option) list" where
  "emus_of P junk cbs = map (\<lambda>cb. (cb_uid cb, create_source_emulator P junk cb)) cbs"

definition acceptable :: "callback_conf list \<Rightarrow> bool" where
  "acceptable cbs \<longleftrightarrow> distinct (map cb_uid cbs) \<and> list_all (\<lambda>cb. source_frame (cb_data_type cb) \<noteq> None) cbs"

lemma init_callbacks_run:
  assumes "smap_inv (frb_source_emus s)"
  shows "if acceptable cbs \<and> (\<forall>cb \<in> set cbs. map_of (frb_source_emus s) (cb_uid cb) = None)
    then \<exists>s'. for_each (init_callback P junk) cbs s = (Ret (), s') \<and> frb_configured s' = frb_configured s
           \<and> smap_inv (frb_source_emus s')
           \<and> map_of (frb_source_emus s') = map_of (frb_source_emus s) ++ map_of (emus_of P junk cbs)
    else fst (for_each (init_callback P junk) cbs s) = Raise (ErsIssue ''ResourceQueueError'')"
  using assms
proof (induction cbs arbitrary: s)
  case Nil
  then show ?case by (simp add: acceptable_def emus_of_def)
next
  case (Cons cb cbs)
  let ?e = "create_source_emulator P junk cb" and ?s = "put_emu (cb_uid cb) (create_source_emulator P junk cb) s"
  consider "map_of (frb_source_emus s) (cb_uid cb) \<noteq> None"
    | "map_of (frb_source_emus s) (cb_uid cb) = None" "?e = None"
    | "map_of (frb_source_emus s) (cb_uid cb) = None" "?e \<noteq> None" by blast
  then show ?case
  proof cases
    case 1
    then show ?thesis by (auto simp: init_callback_def)
  next
    case 2
    then show ?thesis by (auto simp: init_callback_def acceptable_def create_source_emulator_def)
  next
    case 3
    then have step: "for_each (init_callback P junk) (cb # cbs) s = for_each (init_callback P junk) cbs ?s"
      by (simp add: init_callback_def)
    have good: "acceptable (cb # cbs) \<and> (\<forall>c \<in> set (cb # cbs). map_of (frb_source_emus s) (cb_uid c) = None)
      \<longleftrightarrow> acceptable cbs \<and> (\<forall>c \<in> set cbs. map_of (frb_source_emus ?s) (cb_uid c) = None)"
      using 3 by (auto simp: acceptable_def create_source_emulator_def image_iff split: if_splits)
    have comm: "(map_of (frb_source_emus s))(cb_uid cb \<mapsto> ?e) ++ map_of (emus_of P junk cbs)
        = map_of (frb_source_emus s) ++ map_of (emus_of P junk (cb # cbs))" if "acceptable (cb # cbs)"
      using that by (auto simp: emus_of_def acceptable_def fun_eq_iff map_add_def image_iff split: option.splits dest!: map_of_SomeD)
    show ?thesis
    proof (cases "acceptable (cb # cbs) \<and> (\<forall>c \<in> set (cb # cbs). map_of (frb_source_emus s) (cb_uid c) = None)")
      case True
      then have "acceptable cbs \<and> (\<forall>c \<in> set cbs. map_of (frb_source_emus ?s) (cb_uid c) = None)" using good by blast
      with Cons.IH[of ?s] Cons.prems show ?thesis using True comm unfolding step by (simp only: if_True frb_emus_put simp_thms) metis
    next
      case False
      then have "\<not> (acceptable cbs \<and> (\<forall>c \<in> set cbs. map_of (frb_source_emus ?s) (cb_uid c) = None))" using good by blast
      with Cons.IH[of ?s] Cons.prems have "fst (for_each (init_callback P junk) cbs ?s) = Raise (ErsIssue ''ResourceQueueError'')"
        by (simp only: if_False frb_emus_put simp_thms)
      then show ?thesis unfolding step if_not_P[OF False] .
    qed
  qed
qed

text \<open>
  Initialising a reader creates one unconfigured source per callback, under its name, exactly
  when no name occurs twice and every data type is known; otherwise it throws a queue error.
\<close>

theorem reader_init_outcome:
  assumes "rc_emulation_mode c"
  shows "if acceptable (rc_raw_data_callbacks c)
    then \<exists>s'. frb_init P junk (Some c) (FileReaderBase_new name) = (Ret (), s') \<and> \<not> frb_configured s'
           \<and> map_of (frb_source_emus s') = map_of (emus_of P junk (rc_raw_data_callbacks c))
    else fst (frb_init P junk (Some c) (FileReaderBase_new name)) = Raise (ErsIssue ''ResourceQueueError'')"
  using init_callbacks_run[of "FileReaderBase_new name" "rc_raw_data_callbacks c" P junk] assms
  by (auto simp: frb_init_def FileReaderBase_new_def smap_inv_def split: if_splits)

section \<open>Configuration\<close>

text \<open>The first file of the configuration can be opened.\<close>

definition first_opens :: "('r, 'e) file_env \<Rightarrow> file_params \<Rightarrow> bool" where
  "first_opens E p \<longleftrightarrow> fp_data_files p \<noteq> []
     \<and> open_file E (hd (fp_data_files p)) (fp_input_buffer_size p) (fp_compression_algorithm p) \<noteq> None"

text \<open>A source that has opened the first of the files it is to play.\<close>

definition at_first_file :: "('r, 'e) file_env \<Rightarrow> file_params \<Rightarrow> ('r, 'e) file_source \<Rightarrow> bool" where
  "at_first_file E p src \<longleftrightarrow> fs_is_configured src \<and> fs_file_names src = fp_data_files p \<and> fs_file_iterator src = 1
     \<and> fs_input_buffer_size src = fp_input_buffer_size p \<and> fs_compression_algorithm src = fp_compression_algorithm p
     \<and> fs_file_reader src \<noteq> None
     \<and> fs_file_reader src = open_file E (hd (fp_data_files p)) (fp_input_buffer_size p) (fp_compression_algorithm p)"

definition ready :: "('r, 'e) file_env \<Rightarrow> file_params \<Rightarrow> callback_conf \<Rightarrow> ('r, 'e) emulator option \<Rightarrow> bool" where
  "ready E p cb e \<longleftrightarrow> (\<exists>ft src. e = Some (ft, src) \<and> at_first_file E p src
     \<and> fs_raw_sender_conf src = Some (cb_uid cb) \<and> snd (fs_sourceid src) = cb_source_id cb)"

lemma conf_callback_run:
  assumes "map_of (frb_source_emus s) (cb_uid cb) = Some (Some (ft, src))" "\<not> fs_is_configured src"
    "first_opens E (rc_snb_conf c)" "cb_source_id cb \<in> set (rc_streams c)"
  shows "\<exists>e. conf_callback E P c cb s = (Ret (), put_emu (cb_uid cb) e s) \<and> ready E (rc_snb_conf c) cb e"
proof -
  obtain r where "open_file E (fp_data_files (rc_snb_conf c) ! 0) (fp_input_buffer_size (rc_snb_conf c))
      (fp_compression_algorithm (rc_snb_conf c)) = Some r"
    using assms(3) by (auto simp: first_opens_def hd_conv_nth)
  then show ?thesis
    using assms by (simp add: conf_callback_def on_source_def set_sender_def fs_conf_def open_next_file_def first_opens_def
        ready_def at_first_file_def hd_conv_nth)
      (rule exI, rule conjI, rule refl, simp)
qed

lemma conf_callbacks_run:
  assumes "distinct (map cb_uid cbs)" "smap_inv (frb_source_emus s)" "first_opens E (rc_snb_conf c)"
    "\<forall>cb \<in> set cbs. cb_source_id cb \<in> set (rc_streams c)
       \<and> (\<exists>ft src. map_of (frb_source_emus s) (cb_uid cb) = Some (Some (ft, src)) \<and> \<not> fs_is_configured src)"
  shows "\<exists>s'. for_each (conf_callback E P c) cbs s = (Ret (), s') \<and> smap_inv (frb_source_emus s')
     \<and> frb_configured s' = frb_configured s
     \<and> (\<forall>cb \<in> set cbs. \<exists>e. map_of (frb_source_emus s') (cb_uid cb) = Some e \<and> ready E (rc_snb_conf c) cb e)
     \<and> (\<forall>uid. uid \<notin> cb_uid ` set cbs \<longrightarrow> map_of (frb_source_emus s') uid = map_of (frb_source_emus s) uid)"
  using assms(1,2,4)
proof (induction cbs arbitrary: s)
  case (Cons cb cbs)
  obtain e where e: "conf_callback E P c cb s = (Ret (), put_emu (cb_uid cb) e s)" "ready E (rc_snb_conf c) cb e"
    using conf_callback_run[OF _ _ assms(3)] Cons.prems(3) by (metis list.set_intros(1))
  let ?s = "put_emu (cb_uid cb) e s"
  have "\<forall>c' \<in> set cbs. cb_uid c' \<noteq> cb_uid cb" using Cons.prems(1) by (auto simp: image_iff)
  then obtain s' where s': "for_each (conf_callback E P c) cbs ?s = (Ret (), s')" "smap_inv (frb_source_emus s')"
     "frb_configured s' = frb_configured s"
     "\<forall>cb \<in> set cbs. \<exists>e. map_of (frb_source_emus s') (cb_uid cb) = Some e \<and> ready E (rc_snb_conf c) cb e"
     "\<forall>uid. uid \<notin> cb_uid ` set cbs \<longrightarrow> map_of (frb_source_emus s') uid = map_of (frb_source_emus ?s) uid"
    using Cons.IH[of ?s] Cons.prems by auto
  have "for_each (conf_callback E P c) (cb # cbs) s = (Ret (), s')" using e(1) s'(1) by simp
  then show ?case using s' e(2) Cons.prems(1) by (intro exI[of _ s']) auto
qed simp

lemma check_configured_all:
  "\<forall>(name, emu) \<in> set emus. \<exists>ft src. emu = Some (ft, src) \<and> fs_is_configured src \<Longrightarrow> for_each check_configured emus s = (Ret (), s)"
  by (induction emus) (auto simp: check_configured_def)

lemma frb_conf_run:
  assumes "\<not> frb_configured s" "smap_inv (frb_source_emus s)" "distinct (map cb_uid (rc_raw_data_callbacks c))"
    "first_opens E (rc_snb_conf c)" "list_all (\<lambda>cb. cb_source_id cb \<in> set (rc_streams c)) (rc_raw_data_callbacks c)"
    "dom (map_of (frb_source_emus s)) = cb_uid ` set (rc_raw_data_callbacks c)"
    "\<forall>cb \<in> set (rc_raw_data_callbacks c). \<exists>ft src. map_of (frb_source_emus s) (cb_uid cb) = Some (Some (ft, src)) \<and> \<not> fs_is_configured src"
  shows "\<exists>s'. frb_conf E P (Some c) s = (Ret (), s') \<and> frb_configured s' \<and> smap_inv (frb_source_emus s')
     \<and> fst ` set (frb_source_emus s') = cb_uid ` set (rc_raw_data_callbacks c)
     \<and> (\<forall>cb \<in> set (rc_raw_data_callbacks c).
          \<exists>e. map_of (frb_source_emus s') (cb_uid cb) = Some e \<and> ready E (rc_snb_conf c) cb e)"
proof -
  let ?cbs = "rc_raw_data_callbacks c"
  obtain s2 where s2: "for_each (conf_callback E P c) ?cbs s = (Ret (), s2)" "smap_inv (frb_source_emus s2)"
      "\<forall>cb \<in> set ?cbs. \<exists>e. map_of (frb_source_emus s2) (cb_uid cb) = Some e \<and> ready E (rc_snb_conf c) cb e"
      "\<forall>uid. uid \<notin> cb_uid ` set ?cbs \<longrightarrow> map_of (frb_source_emus s2) uid = None"
    using conf_callbacks_run[OF assms(3,2,4), of P] assms(5-7) by (fastforce simp: list_all_iff)
  have dom2: "fst ` set (frb_source_emus s2) = cb_uid ` set ?cbs"
    using s2(3,4) by (auto simp: dom_map_of_conv_image_fst[symmetric])
  have "\<exists>ft src. emu = Some (ft, src) \<and> fs_is_configured src" if "(uid, emu) \<in> set (frb_source_emus s2)" for uid emu
  proof -
    have m: "map_of (frb_source_emus s2) uid = Some emu" using that s2(2) by (simp add: smap_inv_def)
    have "uid \<in> fst ` set (frb_source_emus s2)" using that by (rule image_eqI[rotated]) simp
    then obtain cb where cb: "cb \<in> set ?cbs" "uid = cb_uid cb" unfolding dom2 by blast
    then have "ready E (rc_snb_conf c) cb emu" using bspec[OF s2(3) cb(1)] m by auto
    then show ?thesis by (auto simp: ready_def at_first_file_def)
  qed
  then have "for_each check_configured (frb_source_emus s2) s2 = (Ret (), s2)"
    by (intro check_configured_all) auto
  then have "frb_conf E P (Some c) s = (Ret (), s2\<lparr>frb_configured := True\<rparr>)"
    using assms(1) s2(1) by (simp add: frb_conf_def)
  then show ?thesis using s2(2,3) dom2 by (intro exI[of _ "s2\<lparr>frb_configured := True\<rparr>"]) simp
qed

text \<open>
  After an accepted initialisation, when every callback has a stream and the first file opens,
  the configuration configures every source, for its own callback and source identifier and with
  a file open, and marks the reader configured; configuring it again changes nothing.
\<close>

theorem reader_conf_configures_all:
  assumes "rc_emulation_mode c" "acceptable (rc_raw_data_callbacks c)" "first_opens E (rc_snb_conf c)"
    "list_all (\<lambda>cb. cb_source_id cb \<in> set (rc_streams c)) (rc_raw_data_callbacks c)"
  shows "\<exists>s. seq (frb_init P junk (Some c)) (frb_conf E P (Some c)) (FileReaderBase_new name) = (Ret (), s)
     \<and> frb_configured s \<and> fst ` set (frb_source_emus s) = cb_uid ` set (rc_raw_data_callbacks c)
     \<and> list_all (\<lambda>cb. \<exists>e. map_of (frb_source_emus s) (cb_uid cb) = Some e \<and> ready E (rc_snb_conf c) cb e) (rc_raw_data_callbacks c)
     \<and> frb_conf E P (Some c) s = (Ret (), s)"
proof -
  let ?cbs = "rc_raw_data_callbacks c"
  obtain s1 where s1: "frb_init P junk (Some c) (FileReaderBase_new name) = (Ret (), s1)" "\<not> frb_configured s1"
      "smap_inv (frb_source_emus s1)" "map_of (frb_source_emus s1) = map_of (emus_of P junk ?cbs)"
    using init_callbacks_run[of "FileReaderBase_new name" ?cbs P junk] assms(1,2)
    by (auto simp: frb_init_def FileReaderBase_new_def smap_inv_def)
  have keys: "dom (map_of (emus_of P junk ?cbs)) = cb_uid ` set ?cbs"
    by (simp add: dom_map_of_conv_image_fst emus_of_def image_image)
  have dist: "distinct (map cb_uid ?cbs)" using assms(2) by (simp add: acceptable_def)
  have new: "\<exists>ft src. map_of (emus_of P junk ?cbs) (cb_uid cb) = Some (Some (ft, src)) \<and> \<not> fs_is_configured src"
    if "cb \<in> set ?cbs" for cb
  proof -
    have "map_of (emus_of P junk ?cbs) (cb_uid cb) = Some (create_source_emulator P junk cb)"
      using that dist by (intro map_of_is_SomeI) (auto simp: emus_of_def comp_def)
    then show ?thesis using that assms(2)
      by (auto simp: acceptable_def list_all_iff create_source_emulator_def FileSourceModel_new_def)
  qed
  have "dom (map_of (frb_source_emus s1)) = cb_uid ` set ?cbs" using keys s1(4) by simp
  from frb_conf_run[OF s1(2,3) dist assms(3,4) this, of P] obtain s2 where
      "frb_conf E P (Some c) s1 = (Ret (), s2)" "frb_configured s2" "fst ` set (frb_source_emus s2) = cb_uid ` set ?cbs"
      "\<forall>cb \<in> set ?cbs. \<exists>e. map_of (frb_source_emus s2) (cb_uid cb) = Some e \<and> ready E (rc_snb_conf c) cb e"
    using new s1(4) by auto
  then show ?thesis using s1(1) by (intro exI[of _ s2]) (simp add: list_all_iff frb_conf_def)
qed

section \<open>Reader and handler\<close>

definition frame_names :: "string list" where
  "frame_names = [''WIBEthFrame'', ''PDSFrame'', ''PDSStreamFrame'', ''TDEEthFrame'', ''CRTBernFrame'', ''CRTGrenobleFrame'', ''DAPHNEEthFrame'']"

text \<open>
  When a data type names one kind of frame only, the module that reads files and the module
  that handles the data choose the same readout type for it, and every readout gets a queue that
  expects ordered data; a type the reader does not know is unknown to the handler too, unless it
  is the Ethernet DAPHNE frame.
\<close>

theorem reader_and_handler_agree:
  assumes "length (filter (str_contains dt) frame_names) \<le> 1"
  shows "map_option rm_type (create_readout dt) =
      (if str_contains dt ''DAPHNEEthFrame'' then Some DAPHNEEth else source_frame dt)
    \<and> (\<forall>m. create_readout dt = Some m \<longrightarrow> rm_buffer m = ''FixedRateQueueModel'')"
  using assms unfolding frame_names_def create_readout_def source_frame_def fixed_rate_def
  by (auto split: if_splits)

section \<open>A concrete reader\<close>

definition sample_reader_conf :: reader_conf where
  "sample_reader_conf =
     \<lparr>rc_emulation_mode = True,
      rc_raw_data_callbacks = [\<lparr>cb_uid = ''q1'', cb_data_type = ''WIBEthFrame'', cb_source_id = 7\<rparr>,
                               \<lparr>cb_uid = ''q0'', cb_data_type = ''CRTBernFrame'', cb_source_id = 8\<rparr>],
      rc_streams = [7, 8],
      rc_snb_conf = \<lparr>fp_data_files = [''a'', ''b''], fp_input_buffer_size = 8, fp_compression_algorithm = ''None''\<rparr>\<rparr>"

definition sample_frame_params :: frame_params where
  "sample_frame_params = \<lparr>frame_subsystem = (\<lambda>_. 2), frame_rate_khz = (\<lambda>_. ''30'')\<rparr>"

lemma sample_reader_conf_ok:
  "rc_emulation_mode sample_reader_conf" "acceptable (rc_raw_data_callbacks sample_reader_conf)"
  "first_opens sample_file_env (rc_snb_conf sample_reader_conf)"
  "list_all (\<lambda>cb. cb_source_id cb \<in> set (rc_streams sample_reader_conf)) (rc_raw_data_callbacks sample_reader_conf)"
  by (simp_all add: sample_reader_conf_def acceptable_def source_frame_def str_contains_def first_opens_def sample_file_env_def)

theorem reader_init_outcome_witness:
  "\<exists>s'. frb_init sample_frame_params sample_source (Some sample_reader_conf) (FileReaderBase_new ''r'') = (Ret (), s')
     \<and> \<not> frb_configured s'"
  using reader_init_outcome[OF sample_reader_conf_ok(1), of sample_frame_params sample_source "''r''"] sample_reader_conf_ok(2)
  by auto

theorem reader_conf_configures_all_witness:
  "\<exists>s. seq (frb_init sample_frame_params sample_source (Some sample_reader_conf))
        (frb_conf sample_file_env sample_frame_params (Some sample_reader_conf)) (FileReaderBase_new ''r'') = (Ret (), s)
     \<and> frb_configured s \<and> fst ` set (frb_source_emus s) = {''q0'', ''q1''}"
  using reader_conf_configures_all[OF sample_reader_conf_ok, of sample_frame_params sample_source "''r''"]
  by (auto simp: sample_reader_conf_def)

theorem reader_and_handler_agree_witness:
  "map_option rm_type (create_readout ''PDSStreamFrame'') = Some DAPHNEStream
   \<and> map_option rm_type (create_readout ''PDSFrame CRTBernFrame'') \<noteq> source_frame ''PDSFrame CRTBernFrame''"
proof -
  have one: "length (filter (str_contains ''PDSStreamFrame'') frame_names) \<le> 1" by code_simp
  have "map_option rm_type (create_readout ''PDSStreamFrame'') = Some DAPHNEStream"
    using reader_and_handler_agree[OF one] by (simp add: str_contains_def source_frame_def)
  moreover have "map_option rm_type (create_readout ''PDSFrame CRTBernFrame'') \<noteq> source_frame ''PDSFrame CRTBernFrame''"
    by code_simp
  ultimately show ?thesis by blast
qed

end
