(* ===== verification/Reader_Lifecycle.thy ===== *)
theory Reader_Lifecycle
  imports File_Reader
begin

text \<open>
  The life of a file reader over its commands: configuration, start, the producer threads of its sources,
  stop and scrap in any order, as the step relation \<open>reader_step\<close>. The sources of the module
  survive every sequence; after a scrap and a configuration every one of them plays all its files again.
\<close>

section \<open>Commands and producers as steps\<close>

text \<open>A producer runs on the source it belongs to, until it ends by returning or throwing.\<close>

inductive reader_step :: "('r, 'e) file_env \<Rightarrow> frame_params \<Rightarrow> ('r, 'e) file_reader \<Rightarrow> ('r, 'e) file_reader \<Rightarrow> bool" for E P where
  reader_conf: "frb_conf E P cfg s = (out, s') \<Longrightarrow> reader_step E P s s'"
| reader_scrap: "frb_scrap s = (out, s') \<Longrightarrow> reader_step E P s s'"
| reader_start: "frb_start s = (out, s') \<Longrightarrow> reader_step E P s s'"
| reader_stop: "frb_stop s = (out, s') \<Longrightarrow> reader_step E P s s'"
| reader_produce: "map_of (frb_source_emus s) uid = Some (Some (ft, src)) \<Longrightarrow> run_produce E src = Some (out, src')
     \<Longrightarrow> reader_step E P s (put_emu uid (Some (ft, src')) s)"

text \<open>The names of the sources and the types they were made for.\<close>

definition kinds :: "('r, 'e) file_reader \<Rightarrow> string \<Rightarrow> frame_type option option" where
  "kinds s uid = map_option (map_option fst) (map_of (frb_source_emus s) uid)"

definition same_sources :: "('r, 'e) file_reader \<Rightarrow> ('r, 'e) file_reader \<Rightarrow> bool" where
  "same_sources s s' \<longleftrightarrow> kinds s' = kinds s \<and> frb_name s' = frb_name s \<and> (smap_inv (frb_source_emus s) \<longrightarrow> smap_inv (frb_source_emus s'))"

interpretation same_sources: frame_order same_sources
  by unfold_locales (auto simp: same_sources_def)

lemma kinds_put: "map_of (frb_source_emus s) uid = Some (Some (ft, src)) \<Longrightarrow> kinds (put_emu uid (Some (ft, src')) s) = kinds s"
  by (simp add: kinds_def fun_eq_iff)

lemma put_emu_same_sources:
  "map_of (frb_source_emus s) uid = Some (Some (ft, src)) \<Longrightarrow> same_sources s (put_emu uid (Some (ft, src')) s)"
  by (simp add: same_sources_def kinds_put) (simp add: put_emu_def)

lemma on_source_same: "keeps same_sources (on_source uid f :: ('r, 'e, 'a) frb_action)"
proof
  fix s :: "('r, 'e) file_reader"
  consider ft src where "map_of (frb_source_emus s) uid = Some (Some (ft, src))"
    | "\<nexists>ft src. map_of (frb_source_emus s) uid = Some (Some (ft, src))" by blast
  then show "same_sources s (snd (on_source uid f s))"
  proof cases
    case 1
    obtain r src' where "f ft src = (r, src')" by (cases "f ft src")
    then show ?thesis using 1 by (cases r) (simp_all add: on_source_def put_emu_same_sources)
  next
    case 2
    then show ?thesis
      by (auto simp: on_source_def same_sources.frame_refl split: option.split)
  qed
qed

lemma same_sources_flags:
  "keeps same_sources (modifies (\<lambda>s. s\<lparr>frb_configured := b\<rparr>))" "keeps same_sources (modifies (\<lambda>s. s\<lparr>frb_run_marker := b\<rparr>))"
  by (simp_all add: keeps_def same_sources_def kinds_def[abs_def])

lemmas sources_rules = same_sources.frame_rules on_source_same same_sources_flags

lemma conf_callback_same: "keeps same_sources (conf_callback E P c cb)"
  unfolding conf_callback_def
  by (intro sources_rules) (auto split: option.split intro!: sources_rules)

lemma check_configured_same: "keeps same_sources (check_configured x)"
  by (auto simp: check_configured_def split_def split: option.split intro!: sources_rules)

lemma commands_same_sources:
  "keeps same_sources (frb_conf E P cfg)" "keeps same_sources frb_scrap" "keeps same_sources frb_start" "keeps same_sources frb_stop"
proof -
  show "keeps same_sources (frb_conf E P cfg)"
    unfolding frb_conf_def
    by (intro sources_rules) (auto split: option.split intro!: sources_rules conf_callback_same check_configured_same)
qed (unfold frb_scrap_def frb_start_def frb_stop_def each_source_def, (intro sources_rules)+)

lemma reader_step_same: "reader_step E P s s' \<Longrightarrow> same_sources s s'"
  by (induction rule: reader_step.induct) (auto intro: keeps_run commands_same_sources put_emu_same_sources)

lemma reader_steps_same: "(reader_step E P)\<^sup>*\<^sup>* s s' \<Longrightarrow> same_sources s s'"
  by (induction rule: rtranclp_induct) (auto intro: same_sources.frame_refl same_sources.frame_trans reader_step_same)

section \<open>A command on every source\<close>

text \<open>A call that returns on every source changes exactly the sources.\<close>

lemma each_source_run:
  assumes "\<And>ft src. f ft src = (Ret (), g src)" "smap_inv (frb_source_emus s)"
    "\<And>uid. map_of (frb_source_emus s) uid \<noteq> Some None"
  shows "\<exists>s'. each_source f s = (Ret (), s') \<and> smap_inv (frb_source_emus s') \<and> frb_configured s' = frb_configured s
           \<and> map_of (frb_source_emus s') = (\<lambda>uid. map_option (map_option (\<lambda>(ft, src). (ft, g src))) (map_of (frb_source_emus s) uid))"
proof -
  have loop: "\<exists>s'. for_each (\<lambda>uid. on_source uid f) us s = (Ret (), s') \<and> smap_inv (frb_source_emus s') \<and> frb_configured s' = frb_configured s
           \<and> map_of (frb_source_emus s') = (\<lambda>uid. if uid \<in> set us then map_option (map_option (\<lambda>(ft, src). (ft, g src))) (map_of (frb_source_emus s) uid)
                else map_of (frb_source_emus s) uid)"
    if "distinct us" "smap_inv (frb_source_emus s)" "\<forall>u\<in>set us. \<exists>ft src. map_of (frb_source_emus s) u = Some (Some (ft, src))" for us s
    using that
  proof (induction us arbitrary: s)
    case (Cons u us)
    obtain ft src where u: "map_of (frb_source_emus s) u = Some (Some (ft, src))" using Cons.prems(3) by auto
    let ?s = "put_emu u (Some (ft, g src)) s"
    have "on_source u f s = (Ret (), ?s)" using u assms(1) by (simp add: on_source_def)
    moreover have rest: "\<forall>v\<in>set us. \<exists>ft src. map_of (frb_source_emus ?s) v = Some (Some (ft, src))"
      using Cons.prems(1,3) by auto
    moreover obtain s' where "for_each (\<lambda>uid. on_source uid f) us ?s = (Ret (), s')" "smap_inv (frb_source_emus s')"
        "frb_configured s' = frb_configured s"
        "map_of (frb_source_emus s') = (\<lambda>uid. if uid \<in> set us then map_option (map_option (\<lambda>(ft, src). (ft, g src))) (map_of (frb_source_emus ?s) uid)
           else map_of (frb_source_emus ?s) uid)"
      using Cons.IH[of ?s, OF _ _ rest] Cons.prems(1,2) by auto
    ultimately show ?case using u Cons.prems(1) by (intro exI[of _ s']) (auto simp: fun_eq_iff)
  qed simp
  have keys: "uid \<in> set (map fst (frb_source_emus s)) \<longleftrightarrow> map_of (frb_source_emus s) uid \<noteq> None" for uid
    by (simp add: map_of_eq_None_iff)
  have "\<forall>u\<in>set (map fst (frb_source_emus s)). \<exists>ft src. map_of (frb_source_emus s) u = Some (Some (ft, src))"
    using keys assms(3) by (metis not_None_eq prod.exhaust)
  then obtain s' where s': "each_source f s = (Ret (), s')" "smap_inv (frb_source_emus s')" "frb_configured s' = frb_configured s"
      "map_of (frb_source_emus s') = (\<lambda>uid. if uid \<in> set (map fst (frb_source_emus s)) then
         map_option (map_option (\<lambda>(ft, src). (ft, g src))) (map_of (frb_source_emus s) uid) else map_of (frb_source_emus s) uid)"
    using loop[of "map fst (frb_source_emus s)" s] assms(2) by (auto simp: each_source_def smap_inv_def)
  have "map_of (frb_source_emus s') = (\<lambda>uid. map_option (map_option (\<lambda>(ft, src). (ft, g src))) (map_of (frb_source_emus s) uid))"
    unfolding s'(4) keys by (auto simp: fun_eq_iff)
  then show ?thesis using s'(1-3) by blast
qed


section \<open>Scrap, configuration and start\<close>

text \<open>The module of an accepted initialisation: one source per callback, none of them null.\<close>

definition owns_sources :: "callback_conf list \<Rightarrow> ('r, 'e) file_reader \<Rightarrow> bool" where
  "owns_sources cbs s \<longleftrightarrow> smap_inv (frb_source_emus s) \<and> dom (map_of (frb_source_emus s)) = cb_uid ` set cbs
     \<and> (\<forall>uid. map_of (frb_source_emus s) uid \<noteq> Some None)"

lemma kinds_iff:
  "kinds s uid = None \<longleftrightarrow> map_of (frb_source_emus s) uid = None"
  "kinds s uid = Some None \<longleftrightarrow> map_of (frb_source_emus s) uid = Some None"
  by (cases "map_of (frb_source_emus s) uid"; auto simp: kinds_def)+

lemma owns_sources_kinds:
  "owns_sources cbs s \<longleftrightarrow> smap_inv (frb_source_emus s) \<and> (\<forall>uid. uid \<in> cb_uid ` set cbs \<longleftrightarrow> kinds s uid \<noteq> None)
     \<and> (\<forall>uid. kinds s uid \<noteq> Some None)"
  unfolding owns_sources_def kinds_iff by (simp add: set_eq_iff dom_def) blast

lemma owns_sources_kept: "same_sources s s' \<Longrightarrow> owns_sources cbs s \<Longrightarrow> owns_sources cbs s'"
  unfolding owns_sources_kinds same_sources_def by simp

lemma init_owns_sources:
  assumes "frb_init P junk (Some c) (FileReaderBase_new name) = (Ret (), s)" "rc_emulation_mode c"
    "acceptable (rc_raw_data_callbacks c)"
  shows "owns_sources (rc_raw_data_callbacks c) s"
proof -
  let ?cbs = "rc_raw_data_callbacks c"
  have s: "smap_inv (frb_source_emus s)" "map_of (frb_source_emus s) = map_of (emus_of P junk ?cbs)"
    using init_callbacks_run[of "FileReaderBase_new name" ?cbs P junk] assms
    by (auto simp: frb_init_def FileReaderBase_new_def smap_inv_def)
  have "dom (map_of (emus_of P junk ?cbs)) = cb_uid ` set ?cbs"
    by (simp add: dom_map_of_conv_image_fst emus_of_def image_image)
  moreover have "map_of (emus_of P junk ?cbs) uid \<noteq> Some None" for uid
    using map_of_SomeD[of "emus_of P junk ?cbs" uid None] assms(3)
    by (auto simp: emus_of_def acceptable_def list_all_iff create_source_emulator_def) (metis option.distinct(1))
  ultimately show ?thesis using s by (simp add: owns_sources_def)
qed

lemma scrap_conf_start_run:
  assumes "owns_sources (rc_raw_data_callbacks c) s" "distinct (map cb_uid (rc_raw_data_callbacks c))"
    "first_opens E (rc_snb_conf c)" "list_all (\<lambda>cb. cb_source_id cb \<in> set (rc_streams c)) (rc_raw_data_callbacks c)"
  shows "\<exists>s'. seq frb_scrap (seq (frb_conf E P (Some c)) frb_start) s = (Ret (), s') \<and> frb_configured s'
     \<and> (\<forall>cb \<in> set (rc_raw_data_callbacks c). \<exists>ft src. map_of (frb_source_emus s') (cb_uid cb) = Some (Some (ft, src))
          \<and> at_first_file E (rc_snb_conf c) src \<and> fs_packet_count_tot src = 0)"
proof -
  let ?cbs = "rc_raw_data_callbacks c"
  let ?scrap = "\<lambda>src. snd (fs_scrap src)"
  have scrap: "fs_scrap src = (Ret (), ?scrap src) \<and> \<not> fs_is_configured (?scrap src)" for src :: "('a, 'b) file_source"
    by (cases "fs_file_reader src") (simp_all add: fs_scrap_def close_reader_def fs_log_def)
  obtain s1 where s1: "each_source (\<lambda>_. fs_scrap) s = (Ret (), s1)" "smap_inv (frb_source_emus s1)"
      "map_of (frb_source_emus s1) = (\<lambda>uid. map_option (map_option (\<lambda>(ft, src). (ft, ?scrap src))) (map_of (frb_source_emus s) uid))"
    using each_source_run[of "\<lambda>_. fs_scrap" ?scrap s] scrap assms(1) by (auto simp: owns_sources_def)
  let ?s1 = "s1\<lparr>frb_configured := False\<rparr>"
  have "dom (map_of (frb_source_emus ?s1)) = cb_uid ` set ?cbs"
    using assms(1) by (auto simp: s1(3) owns_sources_def dom_def)
  moreover have "\<exists>ft src. map_of (frb_source_emus ?s1) (cb_uid cb) = Some (Some (ft, src)) \<and> \<not> fs_is_configured src"
    if "cb \<in> set ?cbs" for cb
  proof -
    have "cb_uid cb \<in> dom (map_of (frb_source_emus s))" using assms(1) that by (simp add: owns_sources_def)
    then obtain e where e: "map_of (frb_source_emus s) (cb_uid cb) = Some e" by blast
    then obtain ft src where "e = Some (ft, src)" using assms(1) by (cases e) (auto simp: owns_sources_def)
    then show ?thesis using e scrap by (auto simp: s1(3))
  qed
  ultimately obtain s2 where s2: "frb_conf E P (Some c) ?s1 = (Ret (), s2)" "frb_configured s2" "smap_inv (frb_source_emus s2)"
      "fst ` set (frb_source_emus s2) = cb_uid ` set ?cbs"
      "\<forall>cb \<in> set ?cbs. \<exists>e. map_of (frb_source_emus s2) (cb_uid cb) = Some e \<and> ready E (rc_snb_conf c) cb e"
    using frb_conf_run[of ?s1 c E P] s1(2) assms(2-4) by auto
  let ?s2 = "s2\<lparr>frb_run_marker := True\<rparr>" and ?start = "\<lambda>src. src\<lparr>fs_packet_count_tot := 0\<rparr>"
  have null: "map_of (frb_source_emus ?s2) uid \<noteq> Some None" for uid
  proof
    assume none: "map_of (frb_source_emus ?s2) uid = Some None"
    then have "uid \<in> fst ` set (frb_source_emus s2)" using map_of_SomeD[of "frb_source_emus s2" uid None] by force
    then obtain cb where "cb \<in> set ?cbs" "uid = cb_uid cb" unfolding s2(4) by blast
    then show False using bspec[OF s2(5), of cb] none by (auto simp: ready_def)
  qed
  obtain s3 where s3: "each_source (\<lambda>_. fs_start) ?s2 = (Ret (), s3)" "frb_configured s3 = frb_configured ?s2"
      "map_of (frb_source_emus s3) = (\<lambda>uid. map_option (map_option (\<lambda>(ft, src). (ft, ?start src))) (map_of (frb_source_emus ?s2) uid))"
    using each_source_run[of "\<lambda>_. fs_start" ?start ?s2] s2(3) null by (auto simp: fs_start_def)
  have "seq frb_scrap (seq (frb_conf E P (Some c)) frb_start) s = (Ret (), s3)"
    using s1(1) s2(1) s3(1) by (simp add: frb_scrap_def frb_start_def)
  moreover have "\<exists>ft src. map_of (frb_source_emus s3) (cb_uid cb) = Some (Some (ft, src))
          \<and> at_first_file E (rc_snb_conf c) src \<and> fs_packet_count_tot src = 0" if "cb \<in> set ?cbs" for cb
    using bspec[OF s2(5) that] by (auto simp: s3(3) ready_def at_first_file_def)
  ultimately show ?thesis using s2(2) s3(2) by auto
qed


lemma first_opens_of_files:
  assumes "list_all2 (\<lambda>f ys. \<exists>r. open_file E f (fp_input_buffer_size p) (fp_compression_algorithm p) = Some r \<and> reads_as E r ys)
             (fp_data_files p) yss" "fp_data_files p \<noteq> []"
  shows "first_opens E p"
  using assms by (cases "fp_data_files p"; cases yss) (auto simp: first_opens_def)

lemma at_first_file_plays:
  assumes live: "\<forall>t. run_marker E t" "\<forall>t. N \<le> length t \<longrightarrow> callback_registered E t"
    and files: "list_all2 (\<lambda>f ys. \<exists>r. open_file E f (fp_input_buffer_size p) (fp_compression_algorithm p) = Some r \<and> reads_as E r ys)
             (fp_data_files p) yss" "fp_data_files p \<noteq> []"
    and src: "at_first_file E p src"
  shows "plays E src (concat yss)"
proof -
  obtain f fs ys yss' where fy: "fp_data_files p = f # fs" "yss = ys # yss'"
    using files by (cases "fp_data_files p"; cases yss) auto
  obtain r where "open_file E f (fp_input_buffer_size p) (fp_compression_algorithm p) = Some r" "reads_as E r ys"
    using files(1) by (auto simp: fy)
  then show ?thesis
    using first_file_plays[OF live, of src f fs r ys yss'] files(1) src
    by (simp add: fy at_first_file_def file_holds_def[abs_def])
qed

section \<open>Properties\<close>


text \<open>
  Without the scrap it does not work: a reader whose source has played its files still counts as configured,
  so a configuration changes nothing, and the producer that the next start runs reads through a null pointer.
\<close>

theorem restart_without_scrap:
  assumes "owns_sources cbs s" "frb_configured s" "map_of (frb_source_emus s) uid = Some (Some (ft, src))"
    and "fs_file_reader src = None" "\<forall>t. run_marker E t"
  shows "\<exists>s' src'. seq (frb_conf E P cfg) frb_start s = (Ret (), s') \<and> map_of (frb_source_emus s') uid = Some (Some (ft, src'))
     \<and> map_option fst (run_produce E src') = Some (Raise (UndefinedBehaviour ''m_file_reader''))"
proof -
  let ?s = "s\<lparr>frb_run_marker := True\<rparr>" and ?start = "\<lambda>src. src\<lparr>fs_packet_count_tot := 0\<rparr>"
  obtain s' where "each_source (\<lambda>_. fs_start) ?s = (Ret (), s')"
      "map_of (frb_source_emus s') = (\<lambda>uid. map_option (map_option (\<lambda>(ft, src). (ft, ?start src))) (map_of (frb_source_emus ?s) uid))"
    using each_source_run[of "\<lambda>_. fs_start" ?start ?s] assms(1) by (auto simp: fs_start_def owns_sources_def)
  moreover have "map_option fst (run_produce E (?start src)) = Some (Raise (UndefinedBehaviour ''m_file_reader''))"
    using assms(4,5) by (subst run_produce.simps) (simp add: see_def)
  ultimately show ?thesis using assms(2,3) by (simp add: frb_conf_def frb_start_def)
qed


theorem restart_without_scrap_witness:
  "\<exists>s' src'. seq (frb_conf sample_file_env sample_frame_params None) frb_start
        ((FileReaderBase_new ''r'')\<lparr>frb_configured := True, frb_source_emus := [(''q0'', Some (DUNEWIBEth, sample_source))]\<rparr>) = (Ret (), s')
     \<and> map_of (frb_source_emus s') ''q0'' = Some (Some (DUNEWIBEth, src'))
     \<and> map_option fst (run_produce sample_file_env src') = Some (Raise (UndefinedBehaviour ''m_file_reader''))"
  by (rule restart_without_scrap[where cbs = "[\<lparr>cb_uid = ''q0'', cb_data_type = [], cb_source_id = 0\<rparr>]" and src = sample_source])
    (simp_all add: owns_sources_def smap_inv_def sample_file_env_def)

end
