(* ===== verification/Bittorrent_Worker.thy ===== *)
theory Bittorrent_Worker
  imports Bittorrent_Interface
begin

text \<open>
  \<open>src/common/transfer_interface_bittorrent.cpp\<close>: the worker thread of the BitTorrent object, which
  turns the alerts of libtorrent into the status of the transfers, and the parameters the object
  gives to libtorrent. The alerts, the torrents of the session and the running flag of the thread
  are parameters. The log file of the thread is left out.
\<close>

section \<open>Alerts\<close>

datatype torrent_state =
    checking_files | downloading_metadata | downloading | finished | seeding | checking_resume_data | other_state

definition state_name :: "torrent_state \<Rightarrow> string" where
  "state_name s =
     (case s of checking_files \<Rightarrow> ''checking'' | downloading_metadata \<Rightarrow> ''dl metadata''
      | downloading \<Rightarrow> ''downloading'' | finished \<Rightarrow> ''finished'' | seeding \<Rightarrow> ''seeding''
      | checking_resume_data \<Rightarrow> ''checking resume'' | other_state \<Rightarrow> ''<>'')"

record torrent_status =
  ts_name :: string
  ts_state :: torrent_state
  ts_total_done :: u64

datatype alert =
    AddTorrent string
  | TorrentRemoved
  | TorrentPaused string
  | TrackerList
  | TorrentFinished string
  | TorrentError string string
  | SaveResumeData string string
  | SaveResumeFailed string
  | PeerConnect
  | PeerError string
  | PeerDisconnected string
  | StateUpdate "torrent_status list"
  | OtherAlert

record worker_env =
  wk_running :: "trace \<Rightarrow> bool"
  wk_alerts :: "trace \<Rightarrow> alert list"
  wk_torrents :: "trace \<Rightarrow> string list"

text \<open>The local variables of \<open>do_work\<close>.\<close>

record worker_locals =
  wl_done :: bool
  wl_finished_torrents :: int

section \<open>Handling an alert\<close>

text \<open>\<open>m_filename_to_metadata[name]->\<close>: for an unknown name \<open>operator[]\<close> inserts a null pointer.\<close>

definition bt_meta :: "string \<Rightarrow> (bt_world, tm_ref) action" where
  "bt_meta name =
     bind self (\<lambda>i. case map_of (bt_filename_to_metadata i) name of
       None \<Rightarrow> throw (UndefinedBehaviour ''m_filename_to_metadata'')
     | Some r \<Rightarrow> return r)"

definition save_resume_data :: "string \<Rightarrow> (bt_world, unit) action" where
  "save_resume_data name = on_world (log_event (EvTorrent ''save_resume_data'' name))"

definition status_of_state :: "bool \<Rightarrow> torrent_state \<Rightarrow> e_status option" where
  "status_of_state is_client s =
     (case s of checking_files \<Rightarrow> Some CHECKING | downloading_metadata \<Rightarrow> Some PREPARING
      | downloading \<Rightarrow> Some DOWNLOADING | finished \<Rightarrow> Some FINISHED
      | seeding \<Rightarrow> Some (if is_client then FINISHED else UPLOADING)
      | checking_resume_data \<Rightarrow> Some CHECKING | other_state \<Rightarrow> None)"

definition update_status :: "env \<Rightarrow> torrent_status \<Rightarrow> (bt_world, unit) action" where
  "update_status E s =
     bind (bt_meta (ts_name s)) (\<lambda>r. bind self (\<lambda>i. bind (on_world (cell r)) (\<lambda>m.
     seq (if tm_status m \<noteq> PAUSED then
            (case status_of_state (bt_is_client i) (ts_state s) of
               None \<Rightarrow> return () | Some st \<Rightarrow> on_world (set_status_at E r st))
          else return ())
     (on_world (update_cell r (set_bytes_transferred (ts_total_done s)))))))"

definition torrent_ended :: "TransferInterfaceBittorrent \<Rightarrow> worker_locals \<Rightarrow> worker_locals" where
  "torrent_ended i l =
     (let n = wl_finished_torrents l + 1
      in \<lparr>wl_done = (wl_done l \<or> n = bt_torrent_num i \<and> bt_is_client i), wl_finished_torrents = n\<rparr>)"

text \<open>The body of the loop over the alerts: true when it jumps to \<open>done\<close>.\<close>

definition handle_alert :: "env \<Rightarrow> alert \<Rightarrow> worker_locals \<Rightarrow> (bt_world, bool \<times> worker_locals) action" where
  "handle_alert E a l =
     (case a of
        AddTorrent _ \<Rightarrow> seq (on_self (\<lambda>i. i\<lparr>bt_torrent_num := bt_torrent_num i + 1\<rparr>)) (return (False, l))
      | TorrentPaused name \<Rightarrow> seq (save_resume_data name) (return (False, l))
      | TorrentFinished name \<Rightarrow>
          seq (save_resume_data name)
          (bind (bt_meta name) (\<lambda>r.
           seq (on_world (set_status_at E r FINISHED))
           (seq (on_world (update_cell r (\<lambda>m. set_bytes_transferred (tm_bytes_size m) m)))
           (bind self (\<lambda>i. return (False, torrent_ended i l))))))
      | TorrentError msg name \<Rightarrow>
          seq (on_world (ers_error (BittorrentError msg)))
          (seq (save_resume_data name) (bind self (\<lambda>i. return (False, torrent_ended i l))))
      | SaveResumeData name buf \<Rightarrow>
          seq (bind self (\<lambda>i. on_world (log_event (EvWrite (bt_save_resume_path i name) buf))))
          (return (wl_done l, l))
      | SaveResumeFailed msg \<Rightarrow>
          seq (on_world (ers_warning (BittorrentSaveResumeFileError msg))) (return (wl_done l, l))
      | PeerConnect \<Rightarrow>
          seq (on_self (\<lambda>i. i\<lparr>bt_peer_num := bt_peer_num i + 1\<rparr>)) (return (False, l\<lparr>wl_done := False\<rparr>))
      | PeerError msg \<Rightarrow>
          seq (on_self (\<lambda>i. i\<lparr>bt_peer_num := bt_peer_num i - 1\<rparr>))
          (seq (on_world (ers_warning (BittorrentPeerDisconnectedError msg)))
          (bind self (\<lambda>i. return (False,
             if bt_peer_num i = 0 \<and> bt_paused i = 0 \<and> \<not> bt_is_client i then l\<lparr>wl_done := True\<rparr> else l))))
      | PeerDisconnected msg \<Rightarrow>
          seq (on_self (\<lambda>i. i\<lparr>bt_peer_num := bt_peer_num i - 1\<rparr>))
          (seq (on_world (ers_warning (BittorrentPeerDisconnectedError msg)))
          (bind self (\<lambda>i. return (False,
             if bt_peer_num i \<le> 0 \<and> bt_paused i = 0 \<and> \<not> bt_is_client i then l\<lparr>wl_done := True\<rparr> else l))))
      | StateUpdate sts \<Rightarrow> seq (for_each (update_status E) sts) (return (False, l))
      | _ \<Rightarrow> return (False, l))"

fun handle_alerts :: "env \<Rightarrow> alert list \<Rightarrow> worker_locals \<Rightarrow> (bt_world, bool \<times> worker_locals) action" where
  "handle_alerts E [] l = return (False, l)"
| "handle_alerts E (a # as) l =
     bind (handle_alert E a l) (\<lambda>(stop, l'). if stop then return (True, l') else handle_alerts E as l')"

section \<open>The loop\<close>

text \<open>One round of the loop: true when it jumps to \<open>done\<close>.\<close>

definition bt_work_round :: "env \<Rightarrow> worker_env \<Rightarrow> worker_locals \<Rightarrow> (bt_world, bool \<times> worker_locals) action" where
  "bt_work_round E W l =
     bind (on_world (reads (\<lambda>w. wk_running W (w_trace w)))) (\<lambda>running.
       if \<not> running then
         bind (on_world (reads (\<lambda>w. wk_torrents W (w_trace w)))) (\<lambda>names.
         seq (for_each save_resume_data names) (return (True, l\<lparr>wl_done := True\<rparr>)))
       else
         bind (on_world (ask (wk_alerts W) (\<lambda>_. EvTorrent ''pop_alerts'' []))) (\<lambda>alerts.
         bind (handle_alerts E alerts l) (\<lambda>(stop, l').
           if stop then return (True, l')
           else seq (on_world (sleep_ms 200))
             (seq (on_world (log_event (EvTorrent ''post_torrent_updates'' [])))
             (seq (on_world (log_event (EvTorrent ''post_session_stats'' []))) (return (False, l')))))))"

text \<open>After the label \<open>done\<close>: the transfers left in the table.\<close>

definition settle :: "env \<Rightarrow> string \<times> tm_ref \<Rightarrow> (bt_world, unit) action" where
  "settle E = (\<lambda>(name, r).
     bind self (\<lambda>i. bind (on_world (cell r)) (\<lambda>m.
       if \<not> bt_is_client i then
         seq (on_world (set_status_at E r FINISHED)) (bt_remove E (path_append (bt_work_dir i) (name @ ''.torrent'')))
       else if tm_status m \<noteq> FINISHED then
         seq (on_world (set_status_at E r ERROR)) (on_world (update_cell r (set_error_code ''Transfer interrupted'')))
       else return ())))"

definition bt_work_end :: "env \<Rightarrow> (bt_world, unit) action" where
  "bt_work_end E = bind self (\<lambda>i. for_each (settle E) (bt_filename_to_metadata i))"

text \<open>A thrown exception ends the thread. A thread that never ends is \<open>None\<close>.\<close>

fun caught :: "unit outcome \<times> bt_world \<Rightarrow> unit outcome \<times> bt_world" where
  "caught (Raise (UndefinedBehaviour u), s) = (Raise (UndefinedBehaviour u), s)"
| "caught (_, s) = (Ret (), s)"

partial_function (option) bt_do_work :: "env \<Rightarrow> worker_env \<Rightarrow> worker_locals \<Rightarrow> bt_world \<Rightarrow> (unit outcome \<times> bt_world) option" where
  "bt_do_work E W l s =
     (case bt_work_round E W l s of
        (Raise e, s1) \<Rightarrow> Some (caught (Raise e, s1))
      | (Ret (stop, l1), s1) \<Rightarrow> if stop then Some (caught (bt_work_end E s1)) else bt_do_work E W l1 s1)"

definition worker_start :: worker_locals where
  "worker_start = \<lparr>wl_done = False, wl_finished_torrents = 0\<rparr>"

section \<open>Parameters for libtorrent\<close>

datatype torrent_flag = paused_flag | auto_managed | super_seeding | seed_mode | upload_mode | sequential_download | other_flag nat

record add_torrent_params =
  atp_max_connections :: int
  atp_max_uploads :: int
  atp_upload_limit :: int
  atp_download_limit :: int
  atp_flags :: "torrent_flag list"
  atp_save_path :: string
  atp_storage_mode :: string

definition flag_off :: "torrent_flag \<Rightarrow> torrent_flag list \<Rightarrow> torrent_flag list" where
  "flag_off f fs = filter (\<lambda>g. g \<noteq> f) fs"

definition flag_on :: "torrent_flag \<Rightarrow> torrent_flag list \<Rightarrow> torrent_flag list" where
  "flag_on f fs = List.insert f fs"

definition flag_set :: "bool \<Rightarrow> torrent_flag \<Rightarrow> torrent_flag list \<Rightarrow> torrent_flag list" where
  "flag_set b f = (if b then flag_on f else flag_off f)"

definition set_torrent_params :: "TransferInterfaceBittorrent \<Rightarrow> string \<Rightarrow> add_torrent_params \<Rightarrow> add_torrent_params" where
  "set_torrent_params i dest p =
     p\<lparr>atp_max_connections := 100, atp_max_uploads := - 1, atp_upload_limit := - 1,
       atp_download_limit := bt_rate_limit i,
       atp_flags := flag_set True sequential_download (flag_set (\<not> bt_is_client i) upload_mode
         (flag_set (\<not> bt_is_client i) seed_mode (flag_set False super_seeding
         (flag_off auto_managed (flag_off paused_flag (atp_flags p)))))),
       atp_save_path := dest, atp_storage_mode := ''storage_mode_allocate''\<rparr>"

text \<open>
  \<open>set_settings\<close>: the settings in the order they are set, so that a later one replaces an earlier one.
  It is called before \<open>m_is_client\<close> is initialised, so the role it sees is an argument of its own; the
  mask of all alert categories is a constant of libtorrent.
\<close>

datatype setting = SBool bool | SInt int | SStr string

definition block_size :: int where
  "block_size = 1024 * 1024"

definition common_settings :: "int \<Rightarrow> string \<Rightarrow> string \<Rightarrow> (string \<times> setting) list" where
  "common_settings alert_all ip port =
     [
      (''enable_dht'', SBool False), (''auto_manage_interval'', SInt 60), (''auto_manage_startup'', SInt 1),
      (''min_reconnect_time'', SInt 1), (''max_failcount'', SInt 10), (''outgoing_interfaces'', SStr ip),
      (''strict_end_game_mode'', SBool False), (''smooth_connects'', SBool False),
      (''allow_multiple_connections_per_ip'', SBool True), (''announce_to_all_tiers'', SBool True),
      (''announce_to_all_trackers'', SBool True), (''auto_sequential'', SBool True),
      (''incoming_starts_queued_torrents'', SBool True), (''enable_incoming_tcp'', SBool True),
      (''enable_outgoing_tcp'', SBool True), (''enable_incoming_utp'', SBool False),
      (''enable_outgoing_utp'', SBool False), (''enable_lsd'', SBool False), (''enable_natpmp'', SBool False),
      (''enable_upnp'', SBool False), (''prefer_rc4'', SBool False), (''prefer_udp_trackers'', SBool True),
      (''rate_limit_ip_overhead'', SBool False), (''aio_threads'', SInt 1), (''hashing_threads'', SInt 1),
      (''disk_io_read_mode'', SInt 3), (''disk_io_write_mode'', SInt 3), (''allowed_enc_level'', SInt 3),
      (''allowed_fast_set_size'', SInt 5), (''seed_choking_algorithm'', SInt 1), (''choking_algorithm'', SInt 0),
      (''in_enc_policy'', SInt 2), (''out_enc_policy'', SInt 2), (''mixed_mode_algorithm'', SInt 0),
      (''suggest_mode'', SInt 0), (''close_file_interval'', SInt 0), (''inactivity_timeout'', SInt 10),
      (''request_queue_time'', SInt 50), (''peer_timeout'', SInt 20), (''request_timeout'', SInt 10),
      (''predictive_piece_announce'', SInt 20), (''whole_pieces_threshold'', SInt 20),
      (''mmap_file_size_cutoff'', SInt 0), (''upload_rate_limit'', SInt 0), (''download_rate_limit'', SInt 0),
      (''unchoke_slots_limit'', SInt (- 1)), (''max_failcount'', SInt 3),
      (''max_http_recv_buffer_size'', SInt (1024 * 1024 * 8)), (''max_rejects'', SInt 20),
      (''max_queued_disk_bytes'', SInt (1024 * 1024 * 1024)), (''read_cache_line_size'', SInt 512),
      (''cache_size_volatile'', SInt 128), (''checking_mem_usage'', SInt 1024), (''use_parole_mode'', SBool False),
      (''tracker_completion_timeout'', SInt 30), (''tracker_receive_timeout'', SInt 30),
      (''stop_tracker_timeout'', SInt 30), (''tracker_backoff'', SInt 250),
      (''tracker_maximum_response_length'', SInt (1024 * 1024 * 8)), (''validate_https_trackers'', SBool False),
      (''alert_mask'', SInt alert_all), (''listen_interfaces'', SStr (ip @ '':'' @ port))]"

definition client_settings :: "(string \<times> setting) list" where
  "client_settings =
     [
      (''piece_extent_affinity'', SBool True), (''seeding_outgoing_connections'', SBool False),
      (''tick_interval'', SInt 500), (''torrent_connect_boost'', SInt 255), (''connection_speed'', SInt 0),
      (''active_seeds'', SInt 0), (''active_downloads'', SInt 10), (''active_checking'', SInt 10),
      (''active_limit'', SInt 10), (''active_tracker_limit'', SInt 10), (''connections_limit'', SInt 10),
      (''file_pool_size'', SInt 10), (''listen_queue_size'', SInt 10), (''max_allowed_in_request_queue'', SInt 50000),
      (''max_out_request_queue'', SInt 50000), (''dht_upload_rate_limit'', SInt (block_size * 10)),
      (''write_cache_line_size'', SInt 512), (''send_buffer_watermark_factor'', SInt 50),
      (''send_buffer_low_watermark'', SInt (1024 * 10)), (''send_buffer_watermark'', SInt (1024 * 500)),
      (''send_socket_buffer_size'', SInt (1024 * 512)), (''recv_socket_buffer_size'', SInt (1024 * 1024 * 1024)),
      (''no_atime_storage'', SBool True), (''enable_set_file_valid_data'', SBool False), (''disk_write_mode'', SInt 1),
      (''disable_hash_checks'', SBool False)]"

definition seeder_settings :: "(string \<times> setting) list" where
  "seeder_settings =
     [
      (''piece_extent_affinity'', SBool False), (''seeding_outgoing_connections'', SBool True),
      (''tick_interval'', SInt 150), (''torrent_connect_boost'', SInt 255), (''connection_speed'', SInt 200),
      (''active_seeds'', SInt 1000), (''active_downloads'', SInt 0), (''active_checking'', SInt 1000),
      (''active_limit'', SInt 2000), (''active_tracker_limit'', SInt 2000), (''connections_limit'', SInt 8000),
      (''file_pool_size'', SInt 20), (''listen_queue_size'', SInt 3000), (''max_allowed_in_request_queue'', SInt 2000),
      (''max_out_request_queue'', SInt 2000), (''dht_upload_rate_limit'', SInt (block_size * 8)),
      (''write_cache_line_size'', SInt 128), (''send_buffer_watermark_factor'', SInt 150),
      (''send_buffer_low_watermark'', SInt (1024 * 10)), (''send_buffer_watermark'', SInt (1024 * 1024 * 1024)),
      (''send_socket_buffer_size'', SInt (1024 * 1024 * 1024)), (''recv_socket_buffer_size'', SInt (1024 * 512))]"

definition set_settings :: "int \<Rightarrow> bool \<Rightarrow> string \<Rightarrow> string \<Rightarrow> (string \<times> setting) list" where
  "set_settings alert_all is_client ip port =
     fold (\<lambda>(k, v). smap_put k v)
       (common_settings alert_all ip port @ (if is_client then client_settings else seeder_settings)) []"

text \<open>
  \<open>make_torrent\<close>: \<open>num_files\<close> counts the files libtorrent finds under a path and the filter lets through, \<open>encode\<close> stands for the
  creation of the torrent from the hashes of its pieces, relative to the branch path, and
  \<open>write\<close> for the output file; both may throw.
\<close>

record torrent_maker =
  num_files :: "(string \<Rightarrow> bool) \<Rightarrow> string \<Rightarrow> nat"
  encode :: "string \<Rightarrow> string \<Rightarrow> int \<Rightarrow> string \<Rightarrow> string outcome"
  write_torrent :: "string \<Rightarrow> string \<Rightarrow> bool"

definition make_torrent ::
  "torrent_maker \<Rightarrow> string \<Rightarrow> string \<Rightarrow> int \<Rightarrow> string \<Rightarrow> string \<Rightarrow> (string \<times> string) option \<times> bool" where
  "make_torrent M cwd full_path piece_size tracker outfile =
     (case (if \<not> is_absolute full_path then path_absolute cwd full_path else Inr full_path) of
        Inl _ \<Rightarrow> (None, False)
      | Inr p \<Rightarrow>
          if num_files M file_filter p = 0 then (None, True)
          else (case encode M p (branch_path p) piece_size tracker of
              Raise _ \<Rightarrow> (None, False)
            | Ret torrent \<Rightarrow>
                if outfile \<noteq> [] then
                  (if write_torrent M outfile torrent then (Some (outfile, torrent), True) else (None, False))
                else (None, False)))"

section \<open>What the worker touches\<close>

abbreviation table :: "bt_world \<Rightarrow> (string \<times> tm_ref) list" where
  "table s \<equiv> bt_filename_to_metadata (fst s)"

text \<open>
  A state whose table refers to \<open>S\<close> only changes the transfers of \<open>S\<close>, and neither its table nor
  its role.
\<close>

definition worker_frame :: "tm_ref set \<Rightarrow> bt_world \<Rightarrow> bt_world \<Rightarrow> bool" where
  "worker_frame S s s' \<longleftrightarrow>
     (snd ` set (table s) \<subseteq> S \<longrightarrow>
        touches S s s' \<and> table s' = table s \<and> bt_is_client (fst s') = bt_is_client (fst s)
        \<and> bt_work_dir (fst s') = bt_work_dir (fst s))"

interpretation worker: frame_order "worker_frame S"
proof
  show "worker_frame S s s" for s by (simp add: worker_frame_def touches.frame_refl)
  show "worker_frame S s u" if "worker_frame S s t" "worker_frame S t u" for s t u
    using that touches.frame_trans[of S s t u] unfolding worker_frame_def by simp
qed

lemma worker_on_world: "keeps (only_cells S) f \<Longrightarrow> keeps (worker_frame S) (on_world f)"
  using touches_on_world[of S f] by (fastforce simp: keeps_def worker_frame_def on_world_def split: prod.splits)

lemma worker_on_self:
  "(\<And>i. bt_filename_to_metadata (f i) = bt_filename_to_metadata i \<and> bt_is_client (f i) = bt_is_client i
      \<and> bt_work_dir (f i) = bt_work_dir i) \<Longrightarrow> keeps (worker_frame S) (on_self f)"
  by (auto simp: keeps_def worker_frame_def on_self_def touches_def only_cells.frame_refl)

lemma worker_self: "keeps (worker_frame S) self"
  by (auto simp: keeps_def worker_frame_def self_def touches_def only_cells.frame_refl)

lemma worker_status: "r \<in> S \<Longrightarrow> keeps (worker_frame S) (on_world (set_status_at E r st))"
  by (intro worker_on_world keeps_set_status_at)

lemma worker_update:
  "r \<in> S \<Longrightarrow> (\<And>m. same_identity m (f m)) \<Longrightarrow> keeps (worker_frame S) (on_world (update_cell r f))"
  by (intro worker_on_world keeps_update_cell)

lemma worker_events:
  "keeps (worker_frame S) (on_world (ask f ev))" "keeps (worker_frame S) (on_world (cell r))"
  "keeps (worker_frame S) (on_world (ers_warning i))" "keeps (worker_frame S) (on_world (ers_error i))"
  "keeps (worker_frame S) (on_world (sleep_ms n))" "keeps (worker_frame S) (on_world (log_event e))"
  "keeps (worker_frame S) (on_world (reads g))"
  by (intro worker_on_world keeps_ask keeps_cell keeps_issues keeps_log_event only_cells.keeps_reads)+

lemma worker_meta:
  assumes "\<And>r. r \<in> S \<Longrightarrow> keeps (worker_frame S) (g r)"
  shows "keeps (worker_frame S) (bind (bt_meta name) g)"
proof
  fix s
  show "worker_frame S s (snd (bind (bt_meta name) g s))"
  proof (cases "map_of (table s) name")
    case None
    then have "bind (bt_meta name) g s = (Raise (UndefinedBehaviour ''m_filename_to_metadata''), s)"
      by (cases s) (simp add: bt_meta_def self_def)
    then show ?thesis by (simp add: worker.frame_refl)
  next
    case (Some r)
    then have "bind (bt_meta name) g s = g r s" by (cases s) (simp add: bt_meta_def self_def)
    moreover have "snd ` set (table s) \<subseteq> S \<Longrightarrow> r \<in> S" using Some by (force dest: map_of_SomeD)
    ultimately show ?thesis
      using keepsD[OF assms] by (cases "snd ` set (table s) \<subseteq> S") (auto simp: worker_frame_def)
  qed
qed

lemmas worker_rules =
  worker.frame_rules worker_meta worker_on_self worker_self worker_status worker_update worker_events

lemma worker_save: "keeps (worker_frame S) (save_resume_data name)"
  by (simp add: save_resume_data_def worker_events)

lemma worker_update_status: "keeps (worker_frame S) (update_status E s)"
  unfolding update_status_def
  by (intro worker_rules) (auto intro!: worker_rules split: option.splits)

lemma worker_handle_alert: "keeps (worker_frame S) (handle_alert E a l)"
  by (cases a) (auto simp: handle_alert_def intro!: worker_rules worker_save worker_update_status)

lemma worker_handle_alerts: "keeps (worker_frame S) (handle_alerts E as l)"
proof (induction "as" arbitrary: l)
  case Nil
  show ?case unfolding handle_alerts.simps by (rule worker.keeps_return)
next
  case (Cons a as)
  show ?case unfolding handle_alerts.simps case_prod_beta
    by (intro worker.keeps_bind worker_handle_alert worker.keeps_if worker.keeps_return Cons.IH)
qed

lemma worker_round: "keeps (worker_frame S) (bt_work_round E W l)"
  unfolding bt_work_round_def case_prod_beta
  by (intro worker_rules worker_save worker_handle_alerts)

lemma worker_remove: "keeps (worker_frame S) (bt_remove E file)"
  unfolding bt_remove_def by (intro worker_rules)

lemma worker_settle: "snd nr \<in> S \<Longrightarrow> keeps (worker_frame S) (settle E nr)"
  unfolding settle_def case_prod_beta by (intro worker_rules worker_remove) simp_all

lemma worker_end: "keeps (worker_frame S) (bt_work_end E)"
proof
  fix s
  show "worker_frame S s (snd (bt_work_end E s))"
  proof (cases "snd ` set (table s) \<subseteq> S")
    case True
    have "keeps (worker_frame S) (for_each (settle E) (table s))"
      using True by (intro worker.keeps_for_each worker_settle) auto
    moreover have "bt_work_end E s = for_each (settle E) (table s) s"
      by (cases s) (simp add: bt_work_end_def self_def)
    ultimately show ?thesis using keepsD by metis
  qed (simp add: worker_frame_def)
qed

section \<open>The worker ends\<close>

text \<open>The names an alert is about.\<close>

fun alert_names :: "alert \<Rightarrow> string set" where
  "alert_names (TorrentFinished name) = {name}"
| "alert_names (StateUpdate sts) = ts_name ` set sts"
| "alert_names _ = {}"

definition returns :: "('s, 'a) action \<Rightarrow> 's \<Rightarrow> bool" where
  "returns f s \<longleftrightarrow> (\<exists>x s'. f s = (Ret x, s'))"

lemma returns_seq: "f s = (Ret x, s') \<Longrightarrow> returns g s' \<Longrightarrow> returns (seq f g) s"
  by (auto simp: returns_def)

lemma known_meta:
  assumes "name \<in> fst ` set (table s)"
  shows "\<exists>r. bt_meta name s = (Ret r, s) \<and> (name, r) \<in> set (table s)"
proof -
  obtain r where "map_of (table s) name = Some r" using assms by (metis map_of_eq_None_iff not_Some_eq)
  then show ?thesis by (cases s) (auto simp: bt_meta_def self_def dest: map_of_SomeD)
qed

lemma update_status_returns:
  assumes "ts_name st \<in> fst ` set (table s)"
  shows "returns (update_status E st) s"
proof -
  obtain r where "bt_meta (ts_name st) s = (Ret r, s)" using known_meta[OF assms] by blast
  then show ?thesis
    by (cases s; cases "status_of_state (bt_is_client (fst s)) (ts_state st)")
      (auto simp: returns_def update_status_def self_def on_world_def cell_def update_cell_def run_set_status_at)
qed

lemma frame_table: "keeps (worker_frame UNIV) f \<Longrightarrow> f s = (r, s') \<Longrightarrow> table s' = table s"
  using keeps_run[of "worker_frame UNIV" f s r s'] by (simp add: worker_frame_def)

lemma update_statuses_return:
  "ts_name ` set sts \<subseteq> fst ` set (table s) \<Longrightarrow> \<exists>s'. for_each (update_status E) sts s = (Ret (), s')"
proof (induction sts arbitrary: s)
  case (Cons st sts)
  obtain s1 where s1: "update_status E st s = (Ret (), s1)"
    using update_status_returns[of st s E] Cons.prems by (auto simp: returns_def)
  have "ts_name ` set sts \<subseteq> fst ` set (table s1)"
    using Cons.prems unfolding frame_table[OF worker_update_status s1] by simp
  from Cons.IH[OF this] show ?case using s1 by simp
qed simp

lemma handle_alert_returns:
  assumes "alert_names a \<subseteq> fst ` set (table s)"
  shows "\<exists>stop l' s'. handle_alert E a l s = (Ret (stop, l'), s')"
proof (cases a)
  case (TorrentFinished name)
  obtain i w where s: "s = (i, w)" by fastforce
  let ?w = "w\<lparr>w_trace := w_trace w @ [EvTorrent ''save_resume_data'' name]\<rparr>"
  obtain r where r: "bt_meta name (i, ?w) = (Ret r, (i, ?w))"
    using known_meta[of name "(i, ?w)"] assms TorrentFinished by (auto simp: s)
  have "save_resume_data name (i, w) = (Ret (), (i, ?w))"
    by (simp add: save_resume_data_def on_world_def log_event_def)
  with r show ?thesis
    by (intro exI[of _ False]) (simp add: s TorrentFinished handle_alert_def on_world_def run_set_status_at update_cell_def self_def)
next
  case (StateUpdate sts)
  then show ?thesis using update_statuses_return[of sts s E] assms by (auto simp: handle_alert_def)
qed (cases s; auto simp: handle_alert_def save_resume_data_def on_world_def on_self_def self_def model_defs)+

lemma handle_alerts_return:
  "(\<Union>a \<in> set as. alert_names a) \<subseteq> fst ` set (table s) \<Longrightarrow> \<exists>stop l' s'. handle_alerts E as l s = (Ret (stop, l'), s')"
proof (induction "as" arbitrary: l s)
  case (Cons a as)
  obtain stop l1 s1 where s1: "handle_alert E a l s = (Ret (stop, l1), s1)"
    using handle_alert_returns[of a s E l] Cons.prems by auto
  have "table s1 = table s" by (rule frame_table[OF worker_handle_alert s1])
  then have "\<exists>stop l' s'. handle_alerts E as l1 s1 = (Ret (stop, l'), s')" using Cons by auto
  then show ?case using s1 by (cases stop) auto
qed auto

lemma save_all_run: "\<exists>t. for_each save_resume_data names (i, w) = (Ret (), (i, w\<lparr>w_trace := w_trace w @ t\<rparr>))"
proof (induction names arbitrary: w)
  case Nil
  then show ?case by (intro exI[of _ "[]"]) simp
next
  case (Cons n ns)
  let ?w = "w\<lparr>w_trace := w_trace w @ [EvTorrent ''save_resume_data'' n]\<rparr>"
  have one: "save_resume_data n (i, w) = (Ret (), (i, ?w))"
    by (simp add: save_resume_data_def on_world_def log_event_def)
  obtain t where "for_each save_resume_data ns (i, ?w) = (Ret (), (i, ?w\<lparr>w_trace := w_trace ?w @ t\<rparr>))" using Cons by blast
  then show ?case using one by (intro exI[of _ "EvTorrent ''save_resume_data'' n # t"]) simp
qed

text \<open>A round of the loop returns; unless the worker stops, the trace has grown.\<close>

lemma work_round_returns:
  assumes known: "\<forall>t. \<forall>a \<in> set (wk_alerts W t). alert_names a \<subseteq> fst ` set (table s)"
  shows "\<exists>stop l' s'. bt_work_round E W l s = (Ret (stop, l'), s')
     \<and> (stop \<or> length (w_trace (snd s)) < length (w_trace (snd s')))
     \<and> (\<not> wk_running W (w_trace (snd s)) \<longrightarrow> stop)"
proof (cases "wk_running W (w_trace (snd s))")
  case False
  obtain i w where s: "s = (i, w)" by fastforce
  obtain t where "for_each save_resume_data (wk_torrents W (w_trace w)) (i, w) = (Ret (), (i, w\<lparr>w_trace := w_trace w @ t\<rparr>))"
    using save_all_run by blast
  then show ?thesis using False by (intro exI[of _ True]) (simp add: s bt_work_round_def on_world_def)
next
  case True
  obtain i w where s: "s = (i, w)" by fastforce
  let ?w = "w\<lparr>w_trace := w_trace w @ [EvTorrent ''pop_alerts'' []]\<rparr>"
  have "(\<Union>a \<in> set (wk_alerts W (w_trace w)). alert_names a) \<subseteq> fst ` set (table (i, ?w))"
    using known by (simp add: s UN_subset_iff)
  from handle_alerts_return[OF this] obtain stop l' s1 where
    h: "handle_alerts E (wk_alerts W (w_trace w)) l (i, ?w) = (Ret (stop, l'), s1)" by blast
  have "worker_frame UNIV (i, ?w) s1" by (rule keeps_run[OF worker_handle_alerts h])
  then have "length (w_trace w) < length (w_trace (snd s1))"
    by (auto simp: worker_frame_def touches_def only_cells_def)
  then show ?thesis
    using True h by (cases s1; cases stop) (auto simp: s bt_work_round_def on_world_def ask_def model_defs)
qed

definition settled :: "bool \<Rightarrow> e_status \<Rightarrow> bool" where
  "settled is_client st \<longleftrightarrow> st = FINISHED \<or> is_client \<and> st = ERROR"

abbreviation status_at :: "bt_world \<Rightarrow> tm_ref \<Rightarrow> e_status" where
  "status_at s r \<equiv> tm_status (w_cells (snd s) r)"

lemma settle_run:
  assumes rm: "\<forall>t f. fs_remove E t f = Ret ()"
  shows "\<exists>s'. settle E (name, r) s = (Ret (), s') \<and> fst s' = fst s
     \<and> settled (bt_is_client (fst s)) (status_at s' r)
     \<and> (\<forall>q. settled (bt_is_client (fst s)) (status_at s q) \<longrightarrow> settled (bt_is_client (fst s)) (status_at s' q))"
proof -
  obtain i w where s: "s = (i, w)" by fastforce
  show ?thesis
    using rm by (cases "bt_is_client i"; cases "tm_status (w_cells w r) = FINISHED")
      (auto simp: s settle_def self_def on_world_def cell_def run_set_status_at bt_remove_def ask_def update_cell_def settled_def)
qed

lemma settle_all:
  assumes rm: "\<forall>t f. fs_remove E t f = Ret ()"
  shows "\<exists>s'. for_each (settle E) L s = (Ret (), s')
     \<and> (\<forall>r. r \<in> snd ` set L \<or> settled (bt_is_client (fst s)) (status_at s r) \<longrightarrow> settled (bt_is_client (fst s)) (status_at s' r))"
proof (induction L arbitrary: s)
  case (Cons nr L)
  obtain name r where nr: "nr = (name, r)" by fastforce
  obtain s1 where s1: "settle E (name, r) s = (Ret (), s1)" "fst s1 = fst s"
      "settled (bt_is_client (fst s)) (status_at s1 r)"
      "\<forall>q. settled (bt_is_client (fst s)) (status_at s q) \<longrightarrow> settled (bt_is_client (fst s)) (status_at s1 q)"
    using settle_run[OF rm] by blast
  obtain s2 where s2: "for_each (settle E) L s1 = (Ret (), s2)"
      "\<forall>q. q \<in> snd ` set L \<or> settled (bt_is_client (fst s1)) (status_at s1 q) \<longrightarrow> settled (bt_is_client (fst s1)) (status_at s2 q)"
    using Cons by blast
  have "for_each (settle E) (nr # L) s = (Ret (), s2)" using s1(1) s2(1) nr by simp
  then show ?case using s1 s2(2) by (intro exI[of _ s2]) (auto simp: nr)
qed simp


text \<open>
  A transfer that is cancelled leaves the table; when libtorrent still reports on its torrent
  afterwards, the worker reads through a null pointer.
\<close>

theorem report_after_cancel:
  assumes "bt_cancel_file E r (i, w) = (Ret True, s)" "ts_name st = get_file_name (w_cells w r)"
  shows "fst (update_status E st s) = Raise (UndefinedBehaviour ''m_filename_to_metadata'')"
proof -
  let ?name = "get_file_name (w_cells w r)"
  define rest where "rest = bind self (\<lambda>i.
      seq (bt_remove E (path_append (bt_work_dir i) (''.resume_file'' @ ?name)))
      (seq (if \<not> bt_is_client i then bt_remove E (path_append (bt_work_dir i) (?name @ ''.torrent''))
            else bt_remove E (path_append (bt_work_dir i) ?name))
      (return True)))"
  define del :: "(bt_world, unit) action" where "del = on_self (\<lambda>i. i\<lparr>bt_filename_to_metadata := smap_del ?name (bt_filename_to_metadata i)\<rparr>)"
  have eq: "bt_cancel_file E r (i, w) = bind (bt_find E ?name) (\<lambda>found.
      seq (if found then on_world (log_event (EvTorrent ''remove'' ?name)) else return ())
      (seq (on_world (sleep_ms 1000)) (seq del rest))) (i, w)"
    unfolding bt_cancel_file_def rest_def del_def by (simp add: cell_def on_world_def[of "reads _"])
  obtain s1 s2 where d: "del s1 = (Ret (), s2)" "rest s2 = (Ret True, s)"
    using assms(1) unfolding eq bind_eq_Ret seq_eq_Ret by auto
  have "keeps (worker_frame UNIV) rest" unfolding rest_def by (intro worker_rules worker_remove)
  from frame_table[OF this d(2)] have "table s = smap_del ?name (table s1)"
    using d(1) by (cases s1) (auto simp: on_self_def del_def)
  then have "map_of (table s) (ts_name st) = None" using assms(2) by simp
  then show ?thesis by (cases s) (simp add: update_status_def bt_meta_def self_def)
qed

text \<open>A state report changes the progress of a paused transfer, but not its status.\<close>

lemma reports_keep_paused:
  assumes "status_at s r = PAUSED" "for_each (update_status E) sts s = (Ret (), s')"
  shows "status_at s' r = PAUSED"
  using assms
proof (induction sts arbitrary: s)
  case (Cons st sts)
  obtain s1 where s1: "update_status E st s = (Ret (), s1)" "for_each (update_status E) sts s1 = (Ret (), s')"
    using Cons.prems(2) by (auto simp: seq_eq_Ret)
  obtain i w where s: "s = (i, w)" by fastforce
  obtain q where q: "bt_meta (ts_name st) (i, w) = (Ret q, (i, w))"
    using s1(1) by (cases "map_of (bt_filename_to_metadata i) (ts_name st)")
      (auto simp: s update_status_def bt_meta_def self_def)
  have "status_at s1 r = PAUSED"
    using s1(1) Cons.prems(1) q
    by (cases "tm_status (w_cells w q) = PAUSED"; cases "status_of_state (bt_is_client i) (ts_state st)"; cases "q = r")
      (auto simp: s update_status_def self_def on_world_def cell_def update_cell_def run_set_status_at set_bytes_transferred_def mark_def)
  from Cons.IH[OF this s1(2)] show ?case .
qed simp

section \<open>Parameters for libtorrent\<close>

text \<open>
  A torrent is added to seed and upload exactly on the uploader, always for sequential
  download and never paused or managed by libtorrent; the other flags are kept, and setting the
  parameters again changes nothing.
\<close>

theorem torrent_params_by_role:
  "let q = set_torrent_params i dest p in
     set (atp_flags q) = {sequential_download} \<union> (if bt_is_client i then {} else {seed_mode, upload_mode})
        \<union> (set (atp_flags p) - {paused_flag, auto_managed, super_seeding, seed_mode, upload_mode})
     \<and> atp_save_path q = dest \<and> atp_download_limit q = bt_rate_limit i \<and> atp_upload_limit q = - 1
     \<and> set (atp_flags (set_torrent_params i dest q)) = set (atp_flags q)"
  by (auto simp: Let_def set_torrent_params_def flag_set_def flag_on_def flag_off_def)

definition fits_int :: "setting \<Rightarrow> bool" where
  "fits_int v \<longleftrightarrow> (case v of SInt n \<Rightarrow> - (2 ^ 31) \<le> n \<and> n < 2 ^ 31 | _ \<Rightarrow> True)"

lemma map_of_fold_put:
  "map_of (fold (\<lambda>(k, v). smap_put k v) kvs m) k = (case map_of (rev kvs) k of None \<Rightarrow> map_of m k | Some v \<Rightarrow> Some v)"
  by (induction kvs arbitrary: m) (auto simp: map_add_def split: option.splits)

text \<open>
  Whatever role the settings are made for, the session listens on the given address and port,
  uses neither DHT nor uTP nor local discovery nor port mapping, gives up on a peer after the last
  value set for it, and every number fits an \<open>int\<close>.
\<close>

theorem settings_for_every_role:
  assumes "fits_int (SInt alert_all)"
  shows "let m = map_of (set_settings alert_all is_client ip port) in
     m ''listen_interfaces'' = Some (SStr (ip @ '':'' @ port)) \<and> m ''outgoing_interfaces'' = Some (SStr ip)
     \<and> (\<forall>k \<in> {''enable_dht'', ''enable_incoming_utp'', ''enable_outgoing_utp'', ''enable_lsd'', ''enable_natpmp'', ''enable_upnp''}.
          m k = Some (SBool False))
     \<and> m ''max_failcount'' = Some (SInt 3)
     \<and> (\<forall>k v. m k = Some v \<longrightarrow> fits_int v)"
proof -
  define L where "L = common_settings alert_all ip port @ (if is_client then client_settings else seeder_settings)"
  have m: "map_of (set_settings alert_all is_client ip port) k = map_of (rev L) k" for k
    unfolding set_settings_def L_def[symmetric] map_of_fold_put by (simp split: option.splits)
  note defs = L_def common_settings_def client_settings_def seeder_settings_def
  have fit: "list_all (\<lambda>(_, v). fits_int v) L"
    using assms by (cases is_client) (simp_all add: defs fits_int_def block_size_def)
  have str: "map_of (rev L) ''listen_interfaces'' = Some (SStr (ip @ '':'' @ port))"
      "map_of (rev L) ''outgoing_interfaces'' = Some (SStr ip)" "map_of (rev L) ''max_failcount'' = Some (SInt 3)"
    unfolding L_def by (cases is_client; simp only: if_True if_False; code_simp)+
  have "list_all (\<lambda>k. map_of (rev L) k = Some (SBool False))
      [''enable_dht'', ''enable_incoming_utp'', ''enable_outgoing_utp'', ''enable_lsd'', ''enable_natpmp'', ''enable_upnp'']"
    unfolding L_def by (cases is_client; simp only: if_True if_False; code_simp)
  then have off: "map_of (rev L) k = Some (SBool False)"
    if "k \<in> {''enable_dht'', ''enable_incoming_utp'', ''enable_outgoing_utp'', ''enable_lsd'', ''enable_natpmp'', ''enable_upnp''}" for k
    using that by (simp only: list_all_iff list.set)
  have "fits_int v" if "map_of (rev L) k = Some v" for k v
    using fit map_of_SomeD[OF that] by (auto simp: list_all_iff)
  then show ?thesis using str off unfolding m Let_def by blast
qed

section \<open>A concrete worker\<close>

definition sample_worker_env :: worker_env where
  "sample_worker_env =
     \<lparr>wk_running = (\<lambda>t. length t < 4),
      wk_alerts = (\<lambda>t. [PeerConnect, StateUpdate [\<lparr>ts_name = ''run1.hdf5'', ts_state = downloading, ts_total_done = 10\<rparr>]]),
      wk_torrents = (\<lambda>_. [''run1.hdf5''])\<rparr>"

definition sample_worker :: bt_world where
  "sample_worker = (sample_bt\<lparr>bt_filename_to_metadata := [(''run1.hdf5'', 0)]\<rparr>, world_init\<lparr>w_cells := (\<lambda>_. sample_tm)\<rparr>)"


theorem report_after_cancel_witness:
  "fst (seq (bt_cancel_file quiet_env 0)
          (update_status quiet_env \<lparr>ts_name = ''run1.hdf5'', ts_state = downloading, ts_total_done = 10\<rparr>) sample_worker)
     = Raise (UndefinedBehaviour ''m_filename_to_metadata'')"
proof -
  let ?st = "\<lparr>ts_name = ''run1.hdf5'', ts_state = downloading, ts_total_done = 10\<rparr>"
  obtain i w where iw: "sample_worker = (i, w)" by fastforce
  have "get_file_name sample_tm = ''run1.hdf5''" by code_simp
  then have name: "ts_name ?st = get_file_name (w_cells w 0)" using iw by (auto simp: sample_worker_def)
  have c: "fst (bt_cancel_file quiet_env 0 sample_worker) = Ret True"
    by (simp add: bt_cancel_file_def sample_worker_def on_world_def cell_def bt_find_def ask_def quiet_env_def
        sleep_ms_def log_event_def on_self_def self_def bt_remove_def)
  then obtain s where s: "bt_cancel_file quiet_env 0 (i, w) = (Ret True, s)"
    by (metis iw prod.collapse)
  from report_after_cancel[OF s name] show ?thesis using s iw by simp
qed

theorem settings_for_every_role_witness:
  "map_of (set_settings 7 True ''10.0.0.1'' ''5000'') ''max_failcount'' = Some (SInt 3)"
proof -
  have "fits_int (SInt 7)" by (simp add: fits_int_def)
  from settings_for_every_role[OF this, of True "''10.0.0.1''" "''5000''"] show ?thesis by (simp only: Let_def)
qed

end
