(* ===== verification/Spec2Isabelle.thy ===== *)
theory Spec2Isabelle
  imports Transfer_Modules Rclone_Polling Bookkeeper_Tables Group_Propagation Request_Coverage Data_Handling Reader_Lifecycle Bittorrent_Worker
begin

text \<open>
  A verification library for \<open>snbmodules\<close>, the part of the DUNE data acquisition that moves the
  files recorded for a supernova burst between machines.

  \<^bold>\<open>The program.\<close> A \<open>TransferClient\<close> (\<open>client/transfer_client.cpp\<close>) runs on each machine. It
  scans a directory, keeps a list of \<open>TransferSession\<close>s (\<open>client/transfer_session.cpp\<close>), one per
  transfer group it uploads or downloads, and answers notifications. A session owns a
  \<open>GroupMetadata\<close> (\<open>common/group_metadata.cpp\<close>), the list of the \<open>TransferMetadata\<close>
  (\<open>transfer_metadata.hpp\<close>) of its files, and one protocol object behind
  \<open>TransferInterfaceAbstract\<close>: dummy, SCP, RClone or BitTorrent. \<open>Bookkeeper\<close>
  (\<open>bookkeeper/bookkeeper.cpp\<close>) collects what the clients report in tables of transfers and groups.
  Clients and bookkeepers talk through \<open>NotificationInterface\<close>; metadata travels as JSON text.

  \<^bold>\<open>Foundations.\<close>
  \<^item> \<open>Prelude\<close>: actions, functions from a state to an outcome (a value or an exception) and the new
    state, with sequencing, loops and \<open>focus\<close> on a component of the state; \<open>keeps\<close>, what every
    run of an action preserves, with its rules in the locale \<open>frame_order\<close>.
  \<^item> \<open>Std_Model\<close>: the parts of the C++ library the code uses: \<open>std::string\<close> search, \<open>std::to_string\<close>,
    \<open>std::stoi\<close>, sorted sets and maps (locale \<open>keyed_map\<close>). \<open>Json_Model\<close>: JSON values and the typed
    reads of the JSON package; its parser and printer are parameters.
  \<^item> \<open>Path_Model\<close>: paths as strings, and the search-and-erase loop of the path setters, with its
    termination and its equality to a single pass.
  \<^item> \<open>World\<close>: the store of transfer objects (shared pointers are addresses), the trace of external
    events, and the record \<open>env\<close> of everything outside the repository: clock, files, IOManager,
    \<open>system\<close>, librclone, libtorrent, JSON. Each answer may depend on the whole trace so far, so the
    theorems hold for every behaviour of the outside, failures and exceptions included.

  \<^bold>\<open>Components.\<close>
  \<^item> \<open>Enums\<close> (\<open>common/*_enum.hpp\<close>): the enumerations, the order of the statuses, and that the string
    tables are codecs (locale \<open>enum_codec\<close>).
  \<^item> \<open>Ip_Format\<close> (\<open>ip_format.hpp\<close>): parsing with \<open>strtok\<close>, port range, round trip of the text form.
  \<^item> \<open>Transfer_Metadata\<close>, \<open>Metadata_IO\<close> (\<open>transfer_metadata.hpp\<close>, \<open>.cpp\<close>): sizes are 64-bit words,
    times are signed 64-bit values; progress bounds, durations, modification marks, and the round
    trip of the complete export through JSON text.
  \<^item> \<open>Group_Metadata\<close>: status of a group as a maximum, \<open>add_file\<close> and its invariant \<open>gm_inv\<close>, round
    trip of the group text (transfers arrive as expected files).
  \<^item> \<open>Notification_Interface\<close>: retries when sending, filtering when listening, lookup of connections.
  \<^item> \<open>Scp_Interface\<close>, \<open>Rclone_Interface\<close>, \<open>Bittorrent_Interface\<close>: every operation of each protocol.
    What a session relies on is the locale \<open>transfer_protocol\<close> (an operation touches only the
    transfer it is given and never its identity); each protocol interprets it.
  \<^item> \<open>Bittorrent_Worker\<close>: the worker thread that turns libtorrent's alerts into statuses, the
    parameters and settings given to libtorrent, and the making of torrent files; that the worker
    ends and leaves every transfer of its table settled.
  \<^item> \<open>Transfer_Session\<close>: the operations on one file and on the group, with their state guards. They
    are the steps of the relation \<open>session_step\<close>, what they preserve is the locale \<open>session_frame\<close>; a cancelled
    transfer stays cancelled along every run. The frame, refusal and failure lemmas hold for all protocols through the locale.
  \<^item> \<open>Rclone_Polling\<close>: the polling thread of RClone cut at its requests, as steps that interleave with those of
    the session; the steps alone are the round \<open>rclone_poll\<close>; the library's reports decide how a download ends.
  \<^item> \<open>Transfer_Client\<close>, \<open>Bookkeeper\<close>: constructors, session list, new transfers, scans, tables, and
    the notification handlers. What both promise when a notification is not for them or unknown is
    the locale \<open>notification_endpoint\<close>.
  \<^item> \<open>Bookkeeper_Service\<close>: the rest of \<open>bookkeeper/bookkeeper.cpp\<close>: the display of transfers and groups
    with its CSV output, the console and its commands, the rounds of \<open>do_work\<close> and \<open>start\<close>.
    \<open>Bookkeeper_Tables\<close>: the operations of the bookkeeper as the relation \<open>bk_step\<close>, along which its
    tables stay sorted, hold only transfers that exist, and each only once.
  \<^item> \<open>Conversations\<close>: what one part sends, taken from its trace, handled by the part it is sent to: a
    client sharing files with a bookkeeper, and an uploader inviting a client to a transfer. The two
    end-to-end theorems stand below.
  \<^item> \<open>Group_Propagation\<close>: the same for an operation on a whole group: what a session announces when it
    starts, pauses, resumes or cancels its group, and what the clients it tells do with it.
  \<^item> \<open>Transfer_Modules\<close> (\<open>plugins/SNBFileTransfer.cpp\<close>, \<open>plugins/SNBTransferBookkeeper.cpp\<close>): the commands
    of the run control as the steps of \<open>ft_step\<close>; a cancelled transfer stays cancelled along them.

  \<^bold>\<open>Readout.\<close>
  \<^item> \<open>Request_Handler\<close> (\<open>readout/SNBRequestHandlerModel.hpp\<close>, \<open>.hxx\<close>): data requests on a latency buffer,
    a locale parameter with the laws the code relies on; the result of a request by its window, the
    cleanup, waiting requests, the copy into a ring buffer.
  \<^item> \<open>Request_Threads\<close>: the same operations cut at their synchronisation points, as an interleaving of
    the request threads and the cleanup. Elements are given out once and popped only when given
    out, no request is lost, the threads complete, and one thread alone refines \<open>data_request\<close>.
  \<^item> \<open>Request_Coverage\<close>: along those interleavings an answer with data leaves nothing of its window behind.
  \<^item> \<open>Data_Handling\<close> (\<open>readout/SNBDataHandlingModel.hpp\<close>, \<open>.hxx\<close>): the life cycle of the readout module,
    processing of payloads, the post-processing scheduler and the timesync thread.
  \<^item> \<open>File_Source\<close>, \<open>File_Reader\<close> (\<open>readout/FileSourceModel.hxx\<close>, \<open>FileReaderBase.cpp\<close> and the plugins
    \<open>SNBFileReaderModule.cpp\<close>, \<open>SNBDataHandlerModule.cpp\<close>): playing recorded files, the module that owns
    the sources, and the choice of the readout type.
  \<^item> \<open>Reader_Lifecycle\<close>: the commands of that module and the producers of its sources as the relation
    \<open>reader_step\<close>; whatever has happened, a scrap, a configuration and a start play all files again.

  \<^bold>\<open>Bounds and fuel.\<close> Loops over containers are structural recursions; the retry and listen loops
  recurse on the number of tries, the path loop on the length of the string. The scan of a directory
  tree takes its depth as fuel, since directory contents are answers of the outside; running out
  of it raises \<open>FuelExhausted\<close>, which no statement counts as a result. Loops that may run
  forever (\<open>dump_to_buffer\<close> on an empty ring, waiting for room in the latency buffer or for a callback,
  the producer of a file source, the BitTorrent worker, the console reading words and file names until
  the user ends the list) are partial functions whose value is \<open>None\<close>
  when they do not end, and theorems say when they do. The
  endless service loops (\<open>start\<close>, \<open>do_work\<close> of client and bookkeeper, the periodic threads of the
  readout) are modelled by their body, one round at a time, with their local variables as arguments.
  Behaviour the C++ standard leaves undefined (reading an empty vector, a buffer overrun, a null
  pointer) is the exception \<open>UndefinedBehaviour\<close>; members the code leaves uninitialised are arguments.

  \<^bold>\<open>Not modelled.\<close> Debug output and log files of threads; interleaving of the BitTorrent worker
  with its session (an alert is one action), and of one session operation with a polling step in its middle; the prompts the console prints;
  floating point values that are only reported by the monitoring; \<open>IOManagerWrapper\<close>, which hands
  a lookup to the external NetworkManager unchanged; the pure interfaces and the test applications.
\<close>

section \<open>Properties that span components\<close>

text \<open>
  C15: end to end, from the files of a client to the tables of a bookkeeper. When a client shares files
  with a bookkeeper, whichever sends fail, are retried or throw, the notifications that get through are
  those of a subsequence of the files; handling them in order, the bookkeeper accepts each one and
  appends exactly one entry per file under the client's name, with the path, the size and the
  address the client has, and touches no group and no other client. If every send succeeds, all files arrive.
\<close>

theorem shared_files_reach_bookkeeper:
  assumes "share_available_files E fs dest (c, w) = (out, (c', w'))"
    and "\<And>f t. f \<in> set fs \<Longrightarrow> fs_size E t f = Ret (sz f)"
    and "valid_ip (cl_listening_ip c)" "cl_listening_ip c \<noteq> default_ip"
    and "list_all (shareable E (cl_listening_ip c) sz) fs" "sorted_wrt (\<lambda>f g. \<not> path_eq f g) fs"
    and "str_contains dest (bk_bookkeeper_id b)"
    and "list_all (\<lambda>r. r < w_next v) (transfers_of b (cl_client_id c))"
    and "\<And>r f. r \<in> set (transfers_of b (cl_client_id c)) \<Longrightarrow> f \<in> set fs
           \<Longrightarrow> \<not> tm_eq (w_cells v r) (shared_tm (cl_listening_ip c) sz f)"
  shows "\<exists>es fs' b' v'. w_trace w' = w_trace w @ es \<and> subseq fs' fs
           \<and> ((\<forall>t c d. io_try_send E t c d = Ret True) \<longrightarrow> out = Ret () \<and> fs' = fs)
           \<and> receive_all E (delivered_notifications es) (b, v) = (Ret (), (b', v'))
           \<and> map (tm_data \<circ> w_cells v') (transfers_of b' (cl_client_id c))
               = map (tm_data \<circ> w_cells v) (transfers_of b (cl_client_id c)) @ map (shared_tm (cl_listening_ip c) sz) fs'
           \<and> bk_grp_transfers b' = bk_grp_transfers b
           \<and> (\<forall>client. client \<noteq> cl_client_id c \<longrightarrow> map_of (bk_transfers b') client = map_of (bk_transfers b) client)"
proof -
  have "list_all clean_abs fs" using assms(5) by (auto simp: list_all_iff shareable_def)
  then obtain es fs' where es: "w_trace w' = w_trace w @ es" "subseq fs' fs"
      "delivered_notifications es = map (shared_notification E (cl_client_id c) dest (cl_listening_ip c) sz) fs'"
      "(\<forall>t c d. io_try_send E t c d = Ret True) \<longrightarrow> out = Ret () \<and> fs' = fs"
    using share_delivers[of E fs dest c w out c' w' sz, OF assms(1,2)] by blast
  have ok: "list_all (shareable E (cl_listening_ip c) sz) fs'"
    using assms(5) subseq_set[OF es(2)] by (auto simp: list_all_iff)
  have new: "\<not> tm_eq (w_cells v r) (shared_tm (cl_listening_ip c) sz f)"
    if "r \<in> set (transfers_of b (cl_client_id c))" "f \<in> set fs'" for r f
    using assms(9) subseq_set[OF es(2)] that by blast
  obtain b' v' where "receive_all E (delivered_notifications es) (b, v) = (Ret (), (b', v'))"
      "map (tm_data \<circ> w_cells v') (transfers_of b' (cl_client_id c))
        = map (tm_data \<circ> w_cells v) (transfers_of b (cl_client_id c)) @ map (shared_tm (cl_listening_ip c) sz) fs'"
      "bk_grp_transfers b' = bk_grp_transfers b"
      "\<forall>client. client \<noteq> cl_client_id c \<longrightarrow> map_of (bk_transfers b') client = map_of (bk_transfers b) client"
    using bookkeeper_lists_all_shared[OF assms(3,4) ok assms(7) subseq_sorted_wrt[OF es(2) assms(6)] new assms(8)]
    unfolding comp_def es(3) by metis
  then show ?thesis using es(1,2,4) by (intro exI[of _ es] exI[of _ fs'] exI[of _ b'] exI[of _ v'] conjI) simp_all
qed

theorem shared_files_reach_bookkeeper_witness:
  "let (out, c', w') = share_available_files sample_shared_env [''/data/a'', ''/data/b''] ''bookkeeper0'' (sample_client, world_init) in
   out = Ret () \<and> (\<exists>b' v'. receive_all sample_shared_env (delivered_notifications (w_trace w')) (sample_bookkeeper, world_init) = (Ret (), (b', v'))
      \<and> map (tm_file_path \<circ> w_cells v') (transfers_of b' ''client0'') = [''/data/a'', ''/data/b''])"
proof -
  let ?E = sample_shared_env and ?c = sample_client and ?b = sample_bookkeeper and ?fs = "[''/data/a'', ''/data/b'']"
  let ?ip = "cl_listening_ip ?c"
  let ?j = "\<lambda>f. jobject (export_fields True (shared_tm ?ip (\<lambda>_. 0) f))"
  obtain out c' w' where run: "share_available_files ?E ?fs ''bookkeeper0'' (?c, world_init) = (out, (c', w'))" by (metis prod.exhaust)
  have E: "io_try_send ?E t c d = Ret True" "fs_size ?E t f = Ret 0" for t c d f
    by (simp_all add: sample_shared_env_def two_json_env_def quiet_env_def Let_def)
  have "valid_ip \<lparr>m_ip = ''10.0.0.1'', m_port = 5000\<rparr>" by code_simp
  then have ip: "valid_ip ?ip" "?ip \<noteq> default_ip" by (simp_all add: sample_client_def default_ip_def)
  have "?j ''/data/a'' \<noteq> ?j ''/data/b''" using shared_json_inj by fastforce
  moreover have "clean_abs ''/data/a''" "clean_abs ''/data/b''" by code_simp+
  ultimately have "list_all (shareable ?E ?ip (\<lambda>_. 0)) ?fs"
    by (simp add: shareable_def json_text_ok_def sample_shared_env_def two_json_env_def Let_def)
  moreover have "sorted_wrt (\<lambda>f g. \<not> path_eq f g) ?fs" by code_simp
  moreover have "str_contains ''bookkeeper0'' (bk_bookkeeper_id ?b)" by code_simp
  moreover have none: "transfers_of ?b (cl_client_id ?c) = []"
    by (simp add: transfers_of_def smap_at_def sample_bookkeeper_def sample_client_def)
  ultimately obtain es fs' b' v' where r: "w_trace w' = es" "out = Ret () \<and> fs' = ?fs"
      "receive_all ?E (delivered_notifications es) (?b, world_init) = (Ret (), (b', v'))"
      "map (tm_data \<circ> w_cells v') (transfers_of b' (cl_client_id ?c)) = map (shared_tm ?ip (\<lambda>_. 0)) fs'"
    using shared_files_reach_bookkeeper[OF run E(2) ip, of ?b world_init] E(1) by (auto simp: world_init_def)
  have "map tm_file_path (map (tm_data \<circ> w_cells v') (transfers_of b' ''client0'')) = ?fs"
    using r(2,4) by (simp add: sample_client_def shared_tm_def)
  then show ?thesis using r(1-3) run by (auto simp: tm_data_def comp_def)
qed

text \<open>
  C14: end to end, from an uploader to the client it invites. The invitation reaches the other client as
  the group and then every transfer in full. When the invited client can open a session for the
  group, handling what was sent leaves it with exactly one more session, named by the invitation,
  whose group expects no more files and lists every transfer of the uploader's group in order,
  with the data the uploader has, the invited client as destination and the group as owner.
\<close>

theorem invited_client_completes_group:
  assumes "\<And>t c d. io_try_send E t c d = Ret True"
    and "invite_client E tid i client (c, w) = (out, (c', w'))"
    and "ses_transfer_options (cl_sessions c ! i) = g" "generate_session_id c tid client = target"
    and "valid_ip (gm_source_ip g)" "json_text_ok E (gm_protocol_options g)"
    and "json_text_ok E (jobject (gm_export_fields E (w_cells w) g))"
    and "list_all (announceable E (cl_listening_ip d)) (map (w_cells w) (gm_transfers_meta g))"
    and "distinct (map (tm_file_path \<circ> w_cells w) (gm_transfers_meta g))"
    and "str_contains target (cl_client_id d)" "named_session target d = None"
    and "fst (client_action_on_receive fuel E (hd (invitation E c w tid client g)) (d, v)) = Ret True"
  shows "out = Ret () \<and> (\<exists>es s v'. w_trace w' = w_trace w @ es
           \<and> client_receive_all fuel E (delivered_notifications es) (d, v)
               = (Ret (), (d\<lparr>cl_sessions := cl_sessions d @ [s]\<rparr>, v'))
           \<and> ses_session_id s = target \<and> gm_group_id (ses_transfer_options s) = gm_group_id g
           \<and> gm_expected_files (ses_transfer_options s) = []
           \<and> map (tm_data \<circ> w_cells v') (gm_transfers_meta (ses_transfer_options s))
               = map (\<lambda>r. tm_data ((w_cells w r)\<lparr>tm_dest := cl_listening_ip d, tm_group_id := gm_group_id g\<rparr>)) (gm_transfers_meta g))"
proof -
  let ?ms = "map (w_cells w) (gm_transfers_meta g)" and ?dat = "gm_export_to_string E (w_cells w) g"
  have inv: "invitation E c w tid client g = NotificationData_new (cl_client_id c) target NEW_TRANSFER ?dat
      # map (transfer_notification E (cl_client_id c) target) ?ms"
    using assms(4) by (simp add: invitation_def)
  obtain es where es: "out = Ret ()" "w_trace w' = w_trace w @ es" "delivered_notifications es = invitation E c w tid client g"
    using invite_client_sends[OF assms(1), of tid i client c w] assms(2,3) by auto
  have "list_all (\<lambda>r. clean_abs (tm_file_path (w_cells w r))) (gm_transfers_meta g)"
    using assms(8) by (simp add: list_all_iff announceable_def tm_wf_def)
  then obtain g' where g': "GroupMetadata_of_string E (uninit_protocol E) ?dat v = (Ret g', v)" "gm_group_id g' = gm_group_id g"
      "gm_transfers_meta g' = []" "set (gm_expected_files g') = tm_file_path ` set ?ms"
    using group_text_arrives[OF assms(5) _ assms(6,7), of "uninit_protocol E" v] by (auto simp: image_image)
  obtain d1 v1 where first: "client_action_on_receive fuel E (NotificationData_new (cl_client_id c) target NEW_TRANSFER ?dat) (d, v)
      = (Ret True, (d1, v1))"
    using assms(12) unfolding inv by (metis list.sel(1) prod.collapse)
  obtain s where s: "d1 = d\<lparr>cl_sessions := cl_sessions d @ [s]\<rparr>" "ses_session_id s = target" "ses_transfer_options s = g'"
      "ses_ip s = cl_listening_ip d" "named_session target d1 = Some (length (cl_sessions d))"
    using invited_client_opens_session[OF g'(1) first assms(10,11)] by blast
  have "list_all (\<lambda>m. tm_wf m \<and> json_text_ok E (jobject (export_fields True m)) \<and> ses_ip s \<noteq> tm_src m) ?ms"
    using assms(8) by (simp add: list_all_iff announceable_def s(4))
  then obtain g2 v2 where rest: "client_receive_all fuel E (map (transfer_notification E (cl_client_id c) target) ?ms) (d1, v1)
        = (Ret (), (d1\<lparr>cl_sessions := (cl_sessions d1)[length (cl_sessions d) := s\<lparr>ses_transfer_options := g2\<rparr>]\<rparr>, v2))"
      "gm_group_id g2 = gm_group_id g'" "set (gm_expected_files g2) = set (gm_expected_files g') - tm_file_path ` set ?ms"
      "map (\<lambda>r. tm_data (w_cells v2 r)) (gm_transfers_meta g2)
        = map (\<lambda>m. tm_data (m\<lparr>tm_dest := ses_ip s, tm_group_id := gm_group_id g'\<rparr>)) ?ms"
    using client_takes_all[of E target d1 s ?ms "length (cl_sessions d)" g' v1 fuel "cl_client_id c"] assms(1,9,10) s g'(3,4) by auto
  have "client_receive_all fuel E (delivered_notifications es) (d, v)
      = (Ret (), (d\<lparr>cl_sessions := cl_sessions d @ [s\<lparr>ses_transfer_options := g2\<rparr>]\<rparr>, v2))"
    using first rest(1) s(1) unfolding es(3) inv by (simp add: client_receive_all_def)
  then show ?thesis
    using es(1,2) s(2,4) g'(2,4) rest(2-4)
    by (intro conjI exI[of _ es] exI[of _ "s\<lparr>ses_transfer_options := g2\<rparr>"] exI[of _ v2]) (simp_all add: comp_def)
qed

theorem invited_client_completes_group_witness:
  "let w = world_init\<lparr>w_cells := (\<lambda>_. sample_tm)\<rparr>; (out, st) = invite_client three_json_env ''g1'' 0 ''client1'' (sample_uploader, w) in
   out = Ret () \<and> (\<exists>s v'. client_receive_all 0 three_json_env (delivered_notifications (w_trace (snd st))) (sample_downloader, world_init)
        = (Ret (), (sample_downloader\<lparr>cl_sessions := [s]\<rparr>, v'))
      \<and> ses_session_id s = ''client1_sesg1'' \<and> gm_expected_files (ses_transfer_options s) = []
      \<and> map (tm_file_path \<circ> w_cells v') (gm_transfers_meta (ses_transfer_options s)) = [''/data/run1.hdf5''])"
proof -
  let ?E = three_json_env and ?c = sample_uploader and ?d = sample_downloader and ?g = sample_dummy_group
  let ?w = "world_init\<lparr>w_cells := (\<lambda>_. sample_tm)\<rparr>"
  obtain out c' w' where run: "invite_client ?E ''g1'' 0 ''client1'' (?c, ?w) = (out, (c', w'))" by (metis prod.exhaust)
  have E: "io_try_send ?E t c d = Ret True" for t c d by (simp add: three_json_env_def quiet_env_def)
  have g: "ses_transfer_options (cl_sessions ?c ! 0) = ?g" by (simp add: sample_uploader_def)
  have target: "generate_session_id ?c ''g1'' ''client1'' = ''client1_sesg1''" by (simp add: generate_session_id_def)
  have ip: "valid_ip (gm_source_ip ?g)" unfolding sample_dummy_group_sel by code_simp
  have js: "json_text_ok ?E (gm_protocol_options ?g)" "json_text_ok ?E (jobject (gm_export_fields ?E (w_cells ?w) ?g))"
    using sample_json_ok(1,2) by (simp_all add: sample_group_exported)
  have "cl_listening_ip ?d \<noteq> tm_src sample_tm" by (simp add: sample_downloader_def sample_tm_def)
  then have ms: "list_all (announceable ?E (cl_listening_ip ?d)) (map (w_cells ?w) (gm_transfers_meta ?g))"
      "distinct (map (tm_file_path \<circ> w_cells ?w) (gm_transfers_meta ?g))"
    using sample_tm_wf sample_json_ok(3) by (simp_all add: announceable_def)
  have d: "str_contains ''client1_sesg1'' (cl_client_id ?d)" "named_session ''client1_sesg1'' ?d = None" "cl_sessions ?d = []"
    by code_simp (simp_all add: named_session_def sample_downloader_def sample_client_def)
  have "cl_client_id ?c = ''client0''" by (simp add: sample_uploader_def sample_client_def)
  then have "fst (client_action_on_receive 0 ?E (hd (invitation ?E ?c ?w ''g1'' ''client1'' ?g)) (?d, world_init)) = Ret True"
    using sample_invitation_accepted target by (simp add: invitation_def Let_def)
  note all = invited_client_completes_group[OF E run g target ip js ms d(1,2) this]
  then obtain s v' where s: "out = Ret ()" "client_receive_all 0 ?E (delivered_notifications (w_trace w')) (?d, world_init)
        = (Ret (), (?d\<lparr>cl_sessions := [s]\<rparr>, v'))"
      "ses_session_id s = ''client1_sesg1''" "gm_expected_files (ses_transfer_options s) = []"
      "map tm_file_path (map (tm_data \<circ> w_cells v') (gm_transfers_meta (ses_transfer_options s))) = [''/data/run1.hdf5'']"
    by (auto simp: d(3) world_init_def tm_data_def sample_tm_def)
  then show ?thesis by (auto simp: run tm_data_def comp_def)
qed

end
